theory Spec2Isabelle
  imports Main "HOL-Library.Word" "HOL-Library.Sublist"
begin

section \<open>Tokens (Token.hpp)\<close>

datatype TokenType =
    NUMBER | STRING | IDENTIFIER
  | LET | FN | IF | ELSE | WHILE | RETURN | TRUE | FALSE | PRINT
  | PLUS | MINUS | STAR | SLASH | PERCENT
  | AND | OR | BANG
  | EQUAL_EQUAL | BANG_EQUAL | LESS | LESS_EQUAL | GREATER | GREATER_EQUAL
  | EQUAL
  | LPAREN | RPAREN | LBRACE | RBRACE | COMMA | SEMICOLON
  | EOF_TOKEN | ERROR

text \<open>
  The payload of a token, \<^verbatim>\<open>std::variant<std::monostate, double, std::string, bool>\<close>.
  The type variable \<open>'n\<close> stands for the C++ type \<^verbatim>\<open>double\<close> throughout.
\<close>

datatype 'n TokenLiteral = NoLiteral | NumberLiteral 'n | StringLiteral string | BoolLiteral bool

record 'n Token =
  type :: TokenType
  lexeme :: string
  line :: nat
  column :: nat
  literal :: "'n TokenLiteral"

section \<open>Syntax trees (AST.hpp)\<close>

text \<open>
  The value of a literal expression, \<^verbatim>\<open>std::variant<double, std::string, bool, std::monostate>\<close>.
\<close>

datatype 'n LiteralValue = LitNumber 'n | LitString string | LitBool bool | LitNil

text \<open>
  The owning pointers of the tree are modelled by the tree itself. The pointers the
  parser leaves null (a missing initializer, return value or else branch) are options.
\<close>

datatype 'n Expr =
    BinaryExpr "'n Expr" "'n Token" "'n Expr"
  | UnaryExpr "'n Token" "'n Expr"
  | LiteralExpr "'n LiteralValue"
  | VariableExpr "'n Token"
  | AssignExpr "'n Token" "'n Expr"
  | CallExpr "'n Expr" "'n Token" "'n Expr list"
  | GroupingExpr "'n Expr"

datatype 'n Stmt =
    ExpressionStmt "'n Expr"
  | LetStmt "'n Token" "'n Expr option"
  | FunctionStmt "'n Token" "'n Token list" "'n Stmt list"
  | IfStmt "'n Expr" "'n Stmt" "'n Stmt option"
  | WhileStmt "'n Expr" "'n Stmt"
  | ReturnStmt "'n Token" "'n Expr option"
  | PrintStmt "'n Expr"
  | BlockStmt "'n Stmt list"

type_synonym 'n Program = "'n Stmt list"

section \<open>Bytecode (IRGenerator.hpp)\<close>

datatype OpCode =
    OP_CONSTANT | OP_NIL | OP_TRUE | OP_FALSE
  | OP_ADD | OP_SUBTRACT | OP_MULTIPLY | OP_DIVIDE | OP_MODULO | OP_NEGATE
  | OP_EQUAL | OP_NOT_EQUAL | OP_LESS | OP_LESS_EQUAL | OP_GREATER | OP_GREATER_EQUAL
  | OP_NOT | OP_AND | OP_OR
  | OP_GET_LOCAL | OP_SET_LOCAL | OP_GET_GLOBAL | OP_SET_GLOBAL
  | OP_POP
  | OP_JUMP | OP_JUMP_IF_FALSE | OP_LOOP | OP_CALL | OP_RETURN
  | OP_PRINT

datatype 'n Value = VNil | VBool bool | VNumber 'n | VString string

record 'n Instruction =
  opcode :: OpCode
  operand :: "8 word"
  inlined_constant :: "'n Value"

record 'n Chunk =
  code :: "'n Instruction list"
  lines :: "nat list"
  constants :: "'n Value list"

record Local =
  name :: string
  depth :: nat
  isCaptured :: bool

text \<open>
  Arithmetic on \<^verbatim>\<open>size_t\<close>: natural numbers below \<open>2 ^ 64\<close>, where addition and
  subtraction wrap around.
\<close>

definition size_add :: "nat \<Rightarrow> nat \<Rightarrow> nat" where
  "size_add a b = (a + b) mod 2 ^ 64"

definition size_sub :: "nat \<Rightarrow> nat \<Rightarrow> nat" where
  "size_sub a b = (if b \<le> a then a - b else (a + 2 ^ 64 - b) mod 2 ^ 64)"

definition emptyChunk :: "'n Chunk" where
  "emptyChunk = \<lparr>code = [], lines = [], constants = []\<rparr>"

definition Chunk_write :: "OpCode \<Rightarrow> nat \<Rightarrow> 8 word \<Rightarrow> 'n Chunk \<Rightarrow> 'n Chunk" where
  "Chunk_write op ln opnd c =
     c\<lparr>code := code c @ [\<lparr>opcode = op, operand = opnd, inlined_constant = VNil\<rparr>],
       lines := lines c @ [ln]\<rparr>"

definition addConstant :: "'n Value \<Rightarrow> 'n Chunk \<Rightarrow> nat \<times> 'n Chunk" where
  "addConstant v c =
     (let c' = c\<lparr>constants := constants c @ [v]\<rparr>
      in (size_sub (length (constants c')) 1, c'))"

definition writeConstant :: "'n Value \<Rightarrow> nat \<Rightarrow> 'n Chunk \<Rightarrow> 'n Chunk" where
  "writeConstant v ln c =
     (case addConstant v c of (index, c') \<Rightarrow> Chunk_write OP_CONSTANT ln (of_nat index) c')"

section \<open>The IR generator (IRGenerator.cpp)\<close>

record 'n IRGenerator =
  m_chunk :: "'n Chunk"
  m_locals :: "Local list"
  m_scopeDepth :: nat
  m_hadError :: bool
  m_error :: string

definition error :: "string \<Rightarrow> 'n IRGenerator \<Rightarrow> 'n IRGenerator" where
  "error message g = g\<lparr>m_hadError := True, m_error := message\<rparr>"

definition beginScope :: "'n IRGenerator \<Rightarrow> 'n IRGenerator" where
  "beginScope g = g\<lparr>m_scopeDepth := size_add (m_scopeDepth g) 1\<rparr>"

definition emitByte :: "OpCode \<Rightarrow> 8 word \<Rightarrow> 'n IRGenerator \<Rightarrow> 'n IRGenerator" where
  "emitByte op opnd g = g\<lparr>m_chunk := Chunk_write op 0 opnd (m_chunk g)\<rparr>"

definition emitJump :: "OpCode \<Rightarrow> 'n IRGenerator \<Rightarrow> 'n IRGenerator" where
  "emitJump op g = g\<lparr>m_chunk := Chunk_write op 0 255 (m_chunk g)\<rparr>"

text \<open>The loop of \<^verbatim>\<open>endScope\<close>: pop the locals that are deeper than the current scope.\<close>

function endScope_loop :: "'n IRGenerator \<Rightarrow> 'n IRGenerator" where
  "endScope_loop g =
     (if m_locals g \<noteq> [] \<and> depth (last (m_locals g)) > m_scopeDepth g
      then endScope_loop ((emitByte OP_POP 0 g)\<lparr>m_locals := butlast (m_locals g)\<rparr>)
      else g)"
  by pat_completeness auto
termination
  by (relation "measure (\<lambda>g. length (m_locals g))") (auto simp: emitByte_def)

declare endScope_loop.simps [simp del]

definition endScope :: "'n IRGenerator \<Rightarrow> 'n IRGenerator" where
  "endScope g = endScope_loop (g\<lparr>m_scopeDepth := size_sub (m_scopeDepth g) 1\<rparr>)"

text \<open>
  The loop of \<^verbatim>\<open>declareVariable\<close> over the locals, last first (the argument is the
  reversed list): it stops at the first local of another depth.
\<close>

fun declared_in_scope :: "Local list \<Rightarrow> nat \<Rightarrow> string \<Rightarrow> bool" where
  "declared_in_scope [] d n = False"
| "declared_in_scope (l # ls) d n =
     (if depth l \<noteq> d then False
      else if name l = n then True
      else declared_in_scope ls d n)"

definition declareVariable :: "string \<Rightarrow> 'n IRGenerator \<Rightarrow> 'n IRGenerator" where
  "declareVariable n g =
     (if m_scopeDepth g = 0 then g
      else if declared_in_scope (rev (m_locals g)) (m_scopeDepth g) n
      then error (''Variable '' @ [CHR 0x27] @ n @ [CHR 0x27] @ '' already declared in this scope.'') g
      else g\<lparr>m_locals := m_locals g @ [\<lparr>name = n, depth = m_scopeDepth g, isCaptured = False\<rparr>]\<rparr>)"

text \<open>
  The loop of \<^verbatim>\<open>resolveLocal\<close>: \<open>resolveLocal_from ls k n\<close> looks at the indices
  \<open>k - 1\<close> down to \<open>0\<close> and gives the first that has the name, or \<open>-1\<close>.
\<close>

fun resolveLocal_from :: "Local list \<Rightarrow> nat \<Rightarrow> string \<Rightarrow> int" where
  "resolveLocal_from ls 0 n = - 1"
| "resolveLocal_from ls (Suc i) n =
     (if name (ls ! i) = n then int i else resolveLocal_from ls i n)"

definition resolveLocal :: "string \<Rightarrow> 'n IRGenerator \<Rightarrow> int" where
  "resolveLocal n g = resolveLocal_from (m_locals g) (length (m_locals g)) n"

definition markInitialized :: "'n IRGenerator \<Rightarrow> 'n IRGenerator" where
  "markInitialized g =
     (if m_locals g = [] then g
      else g\<lparr>m_locals := butlast (m_locals g) @ [(last (m_locals g))\<lparr>depth := m_scopeDepth g\<rparr>]\<rparr>)"

definition emitLoop :: "nat \<Rightarrow> 'n IRGenerator \<Rightarrow> 'n IRGenerator" where
  "emitLoop loopStart g =
     (let offset = size_sub (length (code (m_chunk g))) loopStart
      in if offset > 255 then error ''Loop body too large.'' g
         else g\<lparr>m_chunk := Chunk_write OP_LOOP 0 (of_nat offset) (m_chunk g)\<rparr>)"

text \<open>
  \<^verbatim>\<open>patchJump\<close> writes \<^verbatim>\<open>m_chunk.code[offset]\<close>. Every call passes the index of a
  placeholder emitted before, so the index is in range; a write out of range (undefined in
  C++) is left out of the model: \<open>list_update\<close> changes nothing there.
\<close>

definition patchJump :: "nat \<Rightarrow> 'n IRGenerator \<Rightarrow> 'n IRGenerator" where
  "patchJump offset g =
     (let jump = size_sub (size_sub (length (code (m_chunk g))) 1) offset
      in if jump > 255 then error ''Jump too far.'' g
         else g\<lparr>m_chunk := (m_chunk g)\<lparr>code :=
                (code (m_chunk g))[offset := (code (m_chunk g) ! offset)\<lparr>operand := of_nat jump\<rparr>]\<rparr>\<rparr>)"

definition emitBinaryOperator :: "'n Token \<Rightarrow> 'n IRGenerator \<Rightarrow> 'n IRGenerator" where
  "emitBinaryOperator op g =
     (case type op of
        PLUS \<Rightarrow> emitByte OP_ADD 0 g
      | MINUS \<Rightarrow> emitByte OP_SUBTRACT 0 g
      | STAR \<Rightarrow> emitByte OP_MULTIPLY 0 g
      | SLASH \<Rightarrow> emitByte OP_DIVIDE 0 g
      | PERCENT \<Rightarrow> emitByte OP_MODULO 0 g
      | EQUAL_EQUAL \<Rightarrow> emitByte OP_EQUAL 0 g
      | BANG_EQUAL \<Rightarrow> emitByte OP_NOT 0 (emitByte OP_EQUAL 0 g)
      | LESS \<Rightarrow> emitByte OP_LESS 0 g
      | LESS_EQUAL \<Rightarrow> emitByte OP_NOT 0 (emitByte OP_GREATER 0 g)
      | GREATER \<Rightarrow> emitByte OP_GREATER 0 g
      | GREATER_EQUAL \<Rightarrow> emitByte OP_NOT 0 (emitByte OP_LESS 0 g)
      | AND \<Rightarrow> emitByte OP_AND 0 g
      | OR \<Rightarrow> emitByte OP_OR 0 g
      | _ \<Rightarrow> error (''Unknown binary operator: '' @ lexeme op) g)"

definition emitUnaryOperator :: "'n Token \<Rightarrow> 'n IRGenerator \<Rightarrow> 'n IRGenerator" where
  "emitUnaryOperator op g =
     (case type op of
        MINUS \<Rightarrow> emitByte OP_NEGATE 0 g
      | BANG \<Rightarrow> emitByte OP_NOT 0 g
      | _ \<Rightarrow> error (''Unknown unary operator: '' @ lexeme op) g)"

definition compileLiteralExpr :: "'n LiteralValue \<Rightarrow> 'n IRGenerator \<Rightarrow> 'n IRGenerator" where
  "compileLiteralExpr v g =
     (case v of
        LitNumber d \<Rightarrow> g\<lparr>m_chunk := writeConstant (VNumber d) 0 (m_chunk g)\<rparr>
      | LitString s \<Rightarrow> g\<lparr>m_chunk := writeConstant (VString s) 0 (m_chunk g)\<rparr>
      | LitBool b \<Rightarrow> (if b then emitByte OP_TRUE 0 g else emitByte OP_FALSE 0 g)
      | LitNil \<Rightarrow> emitByte OP_NIL 0 g)"

definition compileVariableExpr :: "'n Token \<Rightarrow> 'n IRGenerator \<Rightarrow> 'n IRGenerator" where
  "compileVariableExpr nm g =
     (let local = resolveLocal (lexeme nm) g
      in if local \<noteq> - 1 then emitByte OP_GET_LOCAL (of_int local) g
         else error (''Undefined variable: '' @ lexeme nm) g)"

definition emitSetLocal :: "'n Token \<Rightarrow> 'n IRGenerator \<Rightarrow> 'n IRGenerator" where
  "emitSetLocal nm g =
     (let local = resolveLocal (lexeme nm) g
      in if local \<noteq> - 1 then emitByte OP_SET_LOCAL (of_int local) g
         else error (''Undefined variable: '' @ lexeme nm) g)"

text \<open>
  \<^verbatim>\<open>compileExpr\<close> dispatches on the node's kind; the functions it calls are written
  out in its equations. \<open>compileArguments\<close> is the loop of \<^verbatim>\<open>compileCallExpr\<close> over the
  arguments.
\<close>

fun compileExpr :: "'n Expr \<Rightarrow> 'n IRGenerator \<Rightarrow> 'n IRGenerator"
  and compileArguments :: "'n Expr list \<Rightarrow> 'n IRGenerator \<Rightarrow> 'n IRGenerator" where
  "compileExpr (BinaryExpr l op r) g = emitBinaryOperator op (compileExpr r (compileExpr l g))"
| "compileExpr (UnaryExpr op r) g = emitUnaryOperator op (compileExpr r g)"
| "compileExpr (LiteralExpr v) g = compileLiteralExpr v g"
| "compileExpr (VariableExpr nm) g = compileVariableExpr nm g"
| "compileExpr (AssignExpr nm v) g = emitSetLocal nm (compileExpr v g)"
| "compileExpr (CallExpr callee paren args) g =
     emitByte OP_CALL (of_nat (length args)) (compileArguments args (compileExpr callee g))"
| "compileExpr (GroupingExpr e) g = compileExpr e g"
| "compileArguments [] g = g"
| "compileArguments (a # as) g = compileArguments as (compileExpr a g)"

text \<open>
  \<^verbatim>\<open>compileStmt\<close> dispatches on the statement's kind. \<open>compileStatements\<close> is the loop
  of \<^verbatim>\<open>compileBlockStmt\<close>.
\<close>

fun compileStmt :: "'n Stmt \<Rightarrow> 'n IRGenerator \<Rightarrow> 'n IRGenerator"
  and compileStatements :: "'n Stmt list \<Rightarrow> 'n IRGenerator \<Rightarrow> 'n IRGenerator" where
  "compileStmt (ExpressionStmt e) g = emitByte OP_POP 0 (compileExpr e g)"
| "compileStmt (LetStmt nm initializer) g =
     (let g1 = declareVariable (lexeme nm) g;
          g2 = (case initializer of Some e \<Rightarrow> compileExpr e g1 | None \<Rightarrow> emitByte OP_NIL 0 g1)
      in markInitialized g2)"
| "compileStmt (FunctionStmt nm params body) g =
     emitByte OP_NIL 0 (markInitialized (declareVariable (lexeme nm) g))"
| "compileStmt (IfStmt condition thenBranch elseBranch) g =
     (let g1 = emitJump OP_JUMP_IF_FALSE (compileExpr condition g);
          thenJump = size_sub (length (code (m_chunk g1))) 1;
          g2 = emitJump OP_JUMP (compileStmt thenBranch g1);
          elseJump = size_sub (length (code (m_chunk g2))) 1;
          g3 = patchJump thenJump g2;
          g4 = (case elseBranch of Some s \<Rightarrow> compileStmt s g3 | None \<Rightarrow> g3)
      in patchJump elseJump g4)"
| "compileStmt (WhileStmt condition body) g =
     (let loopStart = length (code (m_chunk g));
          g1 = emitJump OP_JUMP_IF_FALSE (compileExpr condition g);
          exitJump = size_sub (length (code (m_chunk g1))) 1;
          g2 = emitLoop loopStart (compileStmt body g1)
      in patchJump exitJump g2)"
| "compileStmt (ReturnStmt keyword v) g =
     emitByte OP_RETURN 0
       (case v of Some e \<Rightarrow> compileExpr e g | None \<Rightarrow> emitByte OP_NIL 0 g)"
| "compileStmt (PrintStmt e) g = emitByte OP_PRINT 0 (compileExpr e g)"
| "compileStmt (BlockStmt statements) g = endScope (compileStatements statements (beginScope g))"
| "compileStatements [] g = g"
| "compileStatements (s # ss) g = compileStatements ss (compileStmt s g)"

text \<open>
  The loop of \<^verbatim>\<open>IRGenerator::compile\<close> over the top-level statements, with what follows
  it: the loop returns as soon as a statement has set the error flag.
\<close>

fun compile_loop :: "'n Stmt list \<Rightarrow> 'n IRGenerator \<Rightarrow> 'n IRGenerator" where
  "compile_loop [] g = emitByte OP_RETURN 0 (endScope g)"
| "compile_loop (s # ss) g =
     (let g' = compileStmt s g in if m_hadError g' then g' else compile_loop ss g')"

text \<open>
  \<^verbatim>\<open>IRGenerator::compile\<close> resets every field first, so the result does not depend on
  the generator's earlier state. The result is the generator after the call; the chunk
  returned is its \<open>m_chunk\<close>.
\<close>

definition IRGenerator_init :: "'n IRGenerator" where
  "IRGenerator_init =
     \<lparr>m_chunk = emptyChunk, m_locals = [], m_scopeDepth = 0, m_hadError = False, m_error = []\<rparr>"

definition IRGenerator_compile :: "'n Program \<Rightarrow> 'n IRGenerator" where
  "IRGenerator_compile program = compile_loop program (beginScope IRGenerator_init)"

text \<open>
  Names for two states of the generator inside \<^verbatim>\<open>compileIfStmt\<close> and
  \<^verbatim>\<open>compileWhileStmt\<close>: after the condition and its jump placeholder, and (for an
  \<^verbatim>\<open>if\<close>) after the then-branch, the jump over the else-branch and the patch of the
  first placeholder, whose index is the length of the code after the condition.
\<close>

abbreviation codeOf :: "'n IRGenerator \<Rightarrow> 'n Instruction list" where
  "codeOf g \<equiv> code (m_chunk g)"

definition afterCondition :: "'n Expr \<Rightarrow> 'n IRGenerator \<Rightarrow> 'n IRGenerator" where
  "afterCondition c g = emitJump OP_JUMP_IF_FALSE (compileExpr c g)"

definition afterThen :: "'n Expr \<Rightarrow> 'n Stmt \<Rightarrow> 'n IRGenerator \<Rightarrow> 'n IRGenerator" where
  "afterThen c t g =
     patchJump (length (code (m_chunk (compileExpr c g))))
       (emitJump OP_JUMP (compileStmt t (afterCondition c g)))"

text \<open>
  The locals are in \<^emph>\<open>scope order\<close> when their depths never decrease along the list and
  none is deeper than the current scope. \<open>blockDepth s\<close> is the number of blocks nested
  in the statement \<open>s\<close>, which is how far lowering \<open>s\<close> raises the scope depth.
\<close>

definition scopeOrdered :: "'n IRGenerator \<Rightarrow> bool" where
  "scopeOrdered g =
     (sorted (map depth (m_locals g)) \<and> (\<forall>l \<in> set (m_locals g). depth l \<le> m_scopeDepth g))"

fun blockDepth :: "'n Stmt \<Rightarrow> nat"
  and blockDepths :: "'n Stmt list \<Rightarrow> nat" where
  "blockDepth (ExpressionStmt e) = 0"
| "blockDepth (LetStmt nm initializer) = 0"
| "blockDepth (FunctionStmt nm params body) = 0"
| "blockDepth (IfStmt condition thenBranch elseBranch) =
     max (blockDepth thenBranch) (case elseBranch of Some s \<Rightarrow> blockDepth s | None \<Rightarrow> 0)"
| "blockDepth (WhileStmt condition body) = blockDepth body"
| "blockDepth (ReturnStmt keyword v) = 0"
| "blockDepth (PrintStmt e) = 0"
| "blockDepth (BlockStmt statements) = Suc (blockDepths statements)"
| "blockDepths [] = 0"
| "blockDepths (s # ss) = max (blockDepth s) (blockDepths ss)"

section \<open>The virtual machine (VM.hpp, VM.cpp)\<close>

datatype InterpretResult = OK | COMPILE_ERROR | RUNTIME_ERROR

text \<open>
  The operations on \<^verbatim>\<open>double\<close> that the machine and the lexer use. They are taken
  as a parameter: nothing below depends on how floating-point arithmetic rounds.
  \<open>d_eq\<close>, \<open>d_less\<close> and \<open>d_greater\<close> are the comparisons \<^verbatim>\<open>==\<close>, \<^verbatim>\<open><\<close> and
  \<^verbatim>\<open>>\<close> of IEEE 754, \<open>d_zero\<close> is \<^verbatim>\<open>0.0\<close>, \<open>d_format\<close> is
  \<^verbatim>\<open>std::format("{}", x)\<close> and \<open>d_stod\<close> is \<^verbatim>\<open>std::stod\<close>.
\<close>

record 'n DoubleOps =
  d_add :: "'n \<Rightarrow> 'n \<Rightarrow> 'n"
  d_sub :: "'n \<Rightarrow> 'n \<Rightarrow> 'n"
  d_mul :: "'n \<Rightarrow> 'n \<Rightarrow> 'n"
  d_div :: "'n \<Rightarrow> 'n \<Rightarrow> 'n"
  d_fmod :: "'n \<Rightarrow> 'n \<Rightarrow> 'n"
  d_neg :: "'n \<Rightarrow> 'n"
  d_eq :: "'n \<Rightarrow> 'n \<Rightarrow> bool"
  d_less :: "'n \<Rightarrow> 'n \<Rightarrow> bool"
  d_greater :: "'n \<Rightarrow> 'n \<Rightarrow> bool"
  d_zero :: "'n"
  d_format :: "'n \<Rightarrow> string"
  d_stod :: "string \<Rightarrow> 'n"

text \<open>
  The machine's fields. The operand stack has its top first. \<open>m_output\<close> is the text
  written so far to the output stream. The chunk being run (\<^verbatim>\<open>m_chunk\<close>, assigned
  at the start of every \<^verbatim>\<open>interpret\<close> and never changed) is passed as an argument.
\<close>

record 'n VM =
  m_stack :: "'n Value list"
  m_ip :: nat
  m_error_VM :: string
  m_output :: string

definition runtimeError :: "string \<Rightarrow> 'n VM \<Rightarrow> 'n VM" where
  "runtimeError message vm = vm\<lparr>m_error_VM := message\<rparr>"

definition push :: "'n Value \<Rightarrow> 'n VM \<Rightarrow> 'n VM" where
  "push v vm = vm\<lparr>m_stack := v # m_stack vm\<rparr>"

definition pop :: "'n VM \<Rightarrow> 'n Value \<times> 'n VM" where
  "pop vm =
     (case m_stack vm of
        [] \<Rightarrow> (VNil, runtimeError ''Stack underflow.'' vm)
      | v # rest \<Rightarrow> (v, vm\<lparr>m_stack := rest\<rparr>))"

definition peek :: "'n VM \<Rightarrow> 'n Value" where
  "peek vm = (case m_stack vm of [] \<Rightarrow> VNil | v # rest \<Rightarrow> v)"

definition readInstruction :: "'n Chunk \<Rightarrow> 'n VM \<Rightarrow> 'n Instruction \<times> 'n VM" where
  "readInstruction chunk vm =
     (if m_ip vm \<ge> length (code chunk)
      then (\<lparr>opcode = OP_RETURN, operand = 0, inlined_constant = VNil\<rparr>, vm)
      else (code chunk ! m_ip vm, vm\<lparr>m_ip := size_add (m_ip vm) 1\<rparr>))"

fun isNumber :: "'n Value \<Rightarrow> bool" where
  "isNumber (VNumber d) = True"
| "isNumber v = False"

fun isString :: "'n Value \<Rightarrow> bool" where
  "isString (VString s) = True"
| "isString v = False"

fun isFalsey :: "'n DoubleOps \<Rightarrow> 'n Value \<Rightarrow> bool" where
  "isFalsey D VNil = True"
| "isFalsey D (VBool b) = (\<not> b)"
| "isFalsey D (VNumber d) = d_eq D d (d_zero D)"
| "isFalsey D (VString s) = False"

fun valuesEqual :: "'n DoubleOps \<Rightarrow> 'n Value \<Rightarrow> 'n Value \<Rightarrow> bool" where
  "valuesEqual D VNil VNil = True"
| "valuesEqual D (VBool a) (VBool b) = (a = b)"
| "valuesEqual D (VNumber a) (VNumber b) = d_eq D a b"
| "valuesEqual D (VString a) (VString b) = (a = b)"
| "valuesEqual D a b = False"

text \<open>\<^verbatim>\<open>std::string::find\<close> and \<^verbatim>\<open>find_last_not_of\<close> for one character.\<close>

fun find_char :: "char \<Rightarrow> string \<Rightarrow> nat option" where
  "find_char c [] = None"
| "find_char c (x # xs) =
     (if x = c then Some 0 else (case find_char c xs of None \<Rightarrow> None | Some i \<Rightarrow> Some (Suc i)))"

fun find_last_not_of :: "char \<Rightarrow> string \<Rightarrow> nat option" where
  "find_last_not_of c [] = None"
| "find_last_not_of c (x # xs) =
     (case find_last_not_of c xs of
        Some i \<Rightarrow> Some (Suc i)
      | None \<Rightarrow> (if x \<noteq> c then Some 0 else None))"

definition trimNumber :: "string \<Rightarrow> string" where
  "trimNumber s =
     (case find_char (CHR ''.'') s of
        None \<Rightarrow> s
      | Some dot \<Rightarrow>
          (let s1 = (case find_last_not_of (CHR ''0'') s of
                       Some last_non_zero \<Rightarrow>
                         (if last_non_zero > dot then take (last_non_zero + 1) s else s)
                     | None \<Rightarrow> s)
           in if last s1 = CHR ''.'' then butlast s1 else s1))"

fun valueToString :: "'n DoubleOps \<Rightarrow> 'n Value \<Rightarrow> string" where
  "valueToString D VNil = ''nil''"
| "valueToString D (VBool b) = (if b then ''true'' else ''false'')"
| "valueToString D (VNumber d) = trimNumber (d_format D d)"
| "valueToString D (VString s) = s"

text \<open>The number of an opcode in the enumeration, and its decimal text.\<close>

fun opcode_number :: "OpCode \<Rightarrow> nat" where
  "opcode_number OP_CONSTANT = 0" | "opcode_number OP_NIL = 1"
| "opcode_number OP_TRUE = 2" | "opcode_number OP_FALSE = 3"
| "opcode_number OP_ADD = 4" | "opcode_number OP_SUBTRACT = 5"
| "opcode_number OP_MULTIPLY = 6" | "opcode_number OP_DIVIDE = 7"
| "opcode_number OP_MODULO = 8" | "opcode_number OP_NEGATE = 9"
| "opcode_number OP_EQUAL = 10" | "opcode_number OP_NOT_EQUAL = 11"
| "opcode_number OP_LESS = 12" | "opcode_number OP_LESS_EQUAL = 13"
| "opcode_number OP_GREATER = 14" | "opcode_number OP_GREATER_EQUAL = 15"
| "opcode_number OP_NOT = 16" | "opcode_number OP_AND = 17"
| "opcode_number OP_OR = 18" | "opcode_number OP_GET_LOCAL = 19"
| "opcode_number OP_SET_LOCAL = 20" | "opcode_number OP_GET_GLOBAL = 21"
| "opcode_number OP_SET_GLOBAL = 22" | "opcode_number OP_POP = 23"
| "opcode_number OP_JUMP = 24" | "opcode_number OP_JUMP_IF_FALSE = 25"
| "opcode_number OP_LOOP = 26" | "opcode_number OP_CALL = 27"
| "opcode_number OP_RETURN = 28" | "opcode_number OP_PRINT = 29"

function decimal :: "nat \<Rightarrow> string" where
  "decimal n =
     (if n < 10 then [''0123456789'' ! n]
      else decimal (n div 10) @ [''0123456789'' ! (n mod 10)])"
  by pat_completeness auto
termination
  by (relation "measure id") auto

declare decimal.simps [simp del]

text \<open>
  One turn of the loop of \<^verbatim>\<open>interpret\<close>: the machine goes on, or \<^verbatim>\<open>interpret\<close>
  returns, or the instruction reads \<^verbatim>\<open>constants[operand]\<close> past the end of the pool,
  which is undefined behaviour in C++.
\<close>

datatype 'n StepResult = Continue "'n VM" | Return InterpretResult "'n VM" | Undefined

text \<open>
  The arithmetic and comparison cases that take two numbers: pop the right operand, then
  the left one, check the types, push the result.
\<close>

definition numericBinary :: "('n \<Rightarrow> 'n \<Rightarrow> 'n Value) \<Rightarrow> 'n VM \<Rightarrow> 'n StepResult" where
  "numericBinary f vm =
     (case pop vm of (b, vm1) \<Rightarrow>
      case pop vm1 of (a, vm2) \<Rightarrow>
        (case (a, b) of
           (VNumber x, VNumber y) \<Rightarrow> Continue (push (f x y) vm2)
         | _ \<Rightarrow> Return RUNTIME_ERROR (runtimeError ''Operands must be numbers.'' vm2)))"

definition divisionBinary ::
  "'n DoubleOps \<Rightarrow> string \<Rightarrow> ('n \<Rightarrow> 'n \<Rightarrow> 'n) \<Rightarrow> 'n VM \<Rightarrow> 'n StepResult" where
  "divisionBinary D message f vm =
     (case pop vm of (b, vm1) \<Rightarrow>
      case pop vm1 of (a, vm2) \<Rightarrow>
        (case (a, b) of
           (VNumber x, VNumber y) \<Rightarrow>
             (if d_eq D y (d_zero D) then Return RUNTIME_ERROR (runtimeError message vm2)
              else Continue (push (VNumber (f x y)) vm2))
         | _ \<Rightarrow> Return RUNTIME_ERROR (runtimeError ''Operands must be numbers.'' vm2)))"

definition step :: "'n DoubleOps \<Rightarrow> 'n Chunk \<Rightarrow> 'n VM \<Rightarrow> 'n StepResult" where
  "step D chunk vm0 =
     (case readInstruction chunk vm0 of (instruction, vm) \<Rightarrow>
      (case opcode instruction of
         OP_CONSTANT \<Rightarrow>
           (if unat (operand instruction) < length (constants chunk)
            then Continue (push (constants chunk ! unat (operand instruction)) vm)
            else Undefined)
       | OP_NIL \<Rightarrow> Continue (push VNil vm)
       | OP_TRUE \<Rightarrow> Continue (push (VBool True) vm)
       | OP_FALSE \<Rightarrow> Continue (push (VBool False) vm)
       | OP_ADD \<Rightarrow>
           (case pop vm of (b, vm1) \<Rightarrow>
            case pop vm1 of (a, vm2) \<Rightarrow>
              (case (a, b) of
                 (VString x, VString y) \<Rightarrow> Continue (push (VString (x @ y)) vm2)
               | (VNumber x, VNumber y) \<Rightarrow> Continue (push (VNumber (d_add D x y)) vm2)
               | _ \<Rightarrow> Return RUNTIME_ERROR
                        (runtimeError ''Operands must be two numbers or two strings.'' vm2)))
       | OP_SUBTRACT \<Rightarrow> numericBinary (\<lambda>x y. VNumber (d_sub D x y)) vm
       | OP_MULTIPLY \<Rightarrow> numericBinary (\<lambda>x y. VNumber (d_mul D x y)) vm
       | OP_DIVIDE \<Rightarrow> divisionBinary D ''Division by zero.'' (d_div D) vm
       | OP_MODULO \<Rightarrow> divisionBinary D ''Modulo by zero.'' (d_fmod D) vm
       | OP_NEGATE \<Rightarrow>
           (case pop vm of (v, vm1) \<Rightarrow>
              (case v of
                 VNumber x \<Rightarrow> Continue (push (VNumber (d_neg D x)) vm1)
               | _ \<Rightarrow> Return RUNTIME_ERROR (runtimeError ''Operand must be a number.'' vm1)))
       | OP_EQUAL \<Rightarrow>
           (case pop vm of (b, vm1) \<Rightarrow>
            case pop vm1 of (a, vm2) \<Rightarrow> Continue (push (VBool (valuesEqual D a b)) vm2))
       | OP_LESS \<Rightarrow> numericBinary (\<lambda>x y. VBool (d_less D x y)) vm
       | OP_GREATER \<Rightarrow> numericBinary (\<lambda>x y. VBool (d_greater D x y)) vm
       | OP_NOT \<Rightarrow>
           (case pop vm of (v, vm1) \<Rightarrow> Continue (push (VBool (isFalsey D v)) vm1))
       | OP_AND \<Rightarrow>
           (case pop vm of (b, vm1) \<Rightarrow>
            case pop vm1 of (a, vm2) \<Rightarrow>
              Continue (push (VBool (\<not> isFalsey D a \<and> \<not> isFalsey D b)) vm2))
       | OP_OR \<Rightarrow>
           (case pop vm of (b, vm1) \<Rightarrow>
            case pop vm1 of (a, vm2) \<Rightarrow>
              Continue (push (VBool (\<not> isFalsey D a \<or> \<not> isFalsey D b)) vm2))
       | OP_GET_LOCAL \<Rightarrow>
           Return RUNTIME_ERROR (runtimeError ''Local variables not fully implemented.'' vm)
       | OP_SET_LOCAL \<Rightarrow>
           Return RUNTIME_ERROR (runtimeError ''Local variables not fully implemented.'' vm)
       | OP_POP \<Rightarrow> (case pop vm of (v, vm1) \<Rightarrow> Continue vm1)
       | OP_JUMP \<Rightarrow> Continue (vm\<lparr>m_ip := size_add (m_ip vm) (unat (operand instruction))\<rparr>)
       | OP_JUMP_IF_FALSE \<Rightarrow>
           (if isFalsey D (peek vm)
            then Continue (vm\<lparr>m_ip := size_add (m_ip vm) (unat (operand instruction))\<rparr>)
            else Continue vm)
       | OP_LOOP \<Rightarrow> Continue (vm\<lparr>m_ip := size_sub (m_ip vm) (unat (operand instruction))\<rparr>)
       | OP_CALL \<Rightarrow>
           Return RUNTIME_ERROR (runtimeError ''Function calls not fully implemented.'' vm)
       | OP_RETURN \<Rightarrow> Return OK vm
       | OP_PRINT \<Rightarrow>
           (case pop vm of (v, vm1) \<Rightarrow>
              Continue (vm1\<lparr>m_output := m_output vm1 @ valueToString D v @ [CHR 0x0A]\<rparr>))
       | _ \<Rightarrow>
           Return RUNTIME_ERROR
             (runtimeError (''Unknown opcode: '' @ decimal (opcode_number (opcode instruction))) vm)))"

text \<open>
  The loop itself may run forever, so it is run on fuel: at most \<open>fuel\<close> turns. With
  no fuel left the result is \<open>OutOfFuel\<close>.
\<close>

datatype 'n Outcome = Finished InterpretResult "'n VM" | UndefinedBehaviour | OutOfFuel

fun run :: "'n DoubleOps \<Rightarrow> 'n Chunk \<Rightarrow> nat \<Rightarrow> 'n VM \<Rightarrow> 'n Outcome" where
  "run D chunk 0 vm = OutOfFuel"
| "run D chunk (Suc fuel) vm =
     (case step D chunk vm of
        Continue vm' \<Rightarrow> run D chunk fuel vm'
      | Return r vm' \<Rightarrow> Finished r vm'
      | Undefined \<Rightarrow> UndefinedBehaviour)"

definition reset :: "'n VM \<Rightarrow> 'n VM" where
  "reset vm = vm\<lparr>m_ip := 0, m_error_VM := [], m_stack := []\<rparr>"

definition VM_interpret :: "'n DoubleOps \<Rightarrow> nat \<Rightarrow> 'n Chunk \<Rightarrow> 'n VM \<Rightarrow> 'n Outcome" where
  "VM_interpret D fuel chunk vm = run D chunk fuel (reset vm)"

section \<open>Running the machine for a number of turns\<close>

text \<open>
  \<open>exec D chunk k vm\<close> is the machine after \<open>k\<close> turns of the loop that all go on;
  it is \<open>None\<close> when \<^verbatim>\<open>interpret\<close> has returned (or met undefined behaviour)
  within these turns. Execution \<^emph>\<open>reaches\<close> an instruction when some \<open>exec\<close> from the
  reset machine has its instruction pointer there.
\<close>

fun exec :: "'n DoubleOps \<Rightarrow> 'n Chunk \<Rightarrow> nat \<Rightarrow> 'n VM \<Rightarrow> 'n VM option" where
  "exec D chunk 0 vm = Some vm"
| "exec D chunk (Suc k) vm =
     (case step D chunk vm of
        Continue vm' \<Rightarrow> exec D chunk k vm'
      | Return r vm' \<Rightarrow> None
      | Undefined \<Rightarrow> None)"

text \<open>
  To compare two runs that start with different text already in the output stream:
  \<open>printing p vm\<close> is the machine \<open>vm\<close> with \<open>p\<close> written before its output.
\<close>

definition printing :: "string \<Rightarrow> 'n VM \<Rightarrow> 'n VM" where
  "printing p vm = vm\<lparr>m_output := p @ m_output vm\<rparr>"

fun printing_step :: "string \<Rightarrow> 'n StepResult \<Rightarrow> 'n StepResult" where
  "printing_step p (Continue vm) = Continue (printing p vm)"
| "printing_step p (Return r vm) = Return r (printing p vm)"
| "printing_step p Undefined = Undefined"

fun printing_outcome :: "string \<Rightarrow> 'n Outcome \<Rightarrow> 'n Outcome" where
  "printing_outcome p (Finished r vm) = Finished r (printing p vm)"
| "printing_outcome p UndefinedBehaviour = UndefinedBehaviour"
| "printing_outcome p OutOfFuel = OutOfFuel"

section \<open>The lexer (Lexer.hpp, Lexer.cpp)\<close>

text \<open>
  The lexer's fields. Its counters are \<^verbatim>\<open>size_t\<close>; none of them exceeds the length of
  the source by more than one, so they are natural numbers here.
\<close>

record 'n Lexer =
  m_source :: string
  m_start :: nat
  m_current :: nat
  m_line :: nat
  m_column :: nat
  m_tokens :: "'n Token list"

text \<open>The keyword table.\<close>

definition KEYWORDS :: "string \<Rightarrow> TokenType option" where
  "KEYWORDS =
     [''let'' \<mapsto> LET, ''fn'' \<mapsto> FN, ''if'' \<mapsto> IF, ''else'' \<mapsto> ELSE, ''while'' \<mapsto> WHILE,
      ''return'' \<mapsto> RETURN, ''true'' \<mapsto> TRUE, ''false'' \<mapsto> FALSE, ''print'' \<mapsto> PRINT]"

text \<open>
  \<^verbatim>\<open>std::isalpha\<close>, \<^verbatim>\<open>std::isdigit\<close> and \<^verbatim>\<open>std::isalnum\<close> in the C locale:
  the letters \<^verbatim>\<open>A\<close> to \<^verbatim>\<open>Z\<close> and \<^verbatim>\<open>a\<close> to \<^verbatim>\<open>z\<close>, and the ten digits. For
  a character above 127 the answer is no (where \<^verbatim>\<open>char\<close> is signed the C++ call is
  undefined for it).
\<close>

definition isalpha :: "char \<Rightarrow> bool" where
  "isalpha c = (c \<in> set ''ABCDEFGHIJKLMNOPQRSTUVWXYZabcdefghijklmnopqrstuvwxyz'')"

definition isdigit :: "char \<Rightarrow> bool" where
  "isdigit c = (c \<in> set ''0123456789'')"

definition isalnum :: "char \<Rightarrow> bool" where
  "isalnum c = (isalpha c \<or> isdigit c)"

definition lexer_isAtEnd :: "'n Lexer \<Rightarrow> bool" where
  "lexer_isAtEnd L = (m_current L \<ge> length (m_source L))"

text \<open>
  \<^verbatim>\<open>m_source[i]\<close>; at the end of a \<^verbatim>\<open>std::string\<close> that is the null character. No
  call reads further.
\<close>

definition charAt :: "string \<Rightarrow> nat \<Rightarrow> char" where
  "charAt s i = (if i < length s then s ! i else CHR 0x00)"

definition lexer_advance :: "'n Lexer \<Rightarrow> char \<times> 'n Lexer" where
  "lexer_advance L =
     (charAt (m_source L) (m_current L),
      L\<lparr>m_column := m_column L + 1, m_current := m_current L + 1\<rparr>)"

definition lexer_peek :: "'n Lexer \<Rightarrow> char" where
  "lexer_peek L = (if lexer_isAtEnd L then CHR 0x00 else charAt (m_source L) (m_current L))"

definition peekNext :: "'n Lexer \<Rightarrow> char" where
  "peekNext L =
     (if m_current L + 1 \<ge> length (m_source L) then CHR 0x00
      else charAt (m_source L) (m_current L + 1))"

definition lexer_match :: "char \<Rightarrow> 'n Lexer \<Rightarrow> bool \<times> 'n Lexer" where
  "lexer_match expected L =
     (if lexer_isAtEnd L \<or> charAt (m_source L) (m_current L) \<noteq> expected then (False, L)
      else (True, L\<lparr>m_current := m_current L + 1, m_column := m_column L + 1\<rparr>))"

function skipWhitespace :: "'n Lexer \<Rightarrow> 'n Lexer" where
  "skipWhitespace L =
     (if lexer_isAtEnd L then L
      else let c = lexer_peek L in
        if c = CHR '' '' \<or> c = CHR 0x0D \<or> c = CHR 0x09 then skipWhitespace (snd (lexer_advance L))
        else if c = CHR 0x0A
        then skipWhitespace (snd (lexer_advance (L\<lparr>m_line := m_line L + 1, m_column := 1\<rparr>)))
        else L)"
  by pat_completeness auto
termination
  by (relation "measure (\<lambda>L. length (m_source L) - m_current L)")
     (auto simp: lexer_advance_def lexer_isAtEnd_def)

declare skipWhitespace.simps [simp del]

function skipComment_loop :: "'n Lexer \<Rightarrow> 'n Lexer" where
  "skipComment_loop L =
     (if \<not> lexer_isAtEnd L \<and> lexer_peek L \<noteq> CHR 0x0A then skipComment_loop (snd (lexer_advance L))
      else L)"
  by pat_completeness auto
termination
  by (relation "measure (\<lambda>L. length (m_source L) - m_current L)")
     (auto simp: lexer_advance_def lexer_isAtEnd_def)

declare skipComment_loop.simps [simp del]

definition skipComment :: "'n Lexer \<Rightarrow> 'n Lexer" where
  "skipComment L =
     (if lexer_peek L = CHR ''/'' \<and> peekNext L = CHR ''/'' then skipComment_loop L else L)"

text \<open>\<^verbatim>\<open>m_source.substr(m_start, m_current - m_start)\<close>.\<close>

definition currentLexeme :: "'n Lexer \<Rightarrow> string" where
  "currentLexeme L = take (m_current L - m_start L) (drop (m_start L) (m_source L))"

definition makeToken :: "TokenType \<Rightarrow> 'n TokenLiteral \<Rightarrow> 'n Lexer \<Rightarrow> 'n Token" where
  "makeToken t lit L =
     \<lparr>type = t, lexeme = currentLexeme L, line = m_line L, column = m_column L, literal = lit\<rparr>"

definition errorToken :: "string \<Rightarrow> 'n Lexer \<Rightarrow> 'n Token" where
  "errorToken message L =
     \<lparr>type = ERROR, lexeme = message, line = m_line L, column = m_column L, literal = NoLiteral\<rparr>"

function scanIdentifier_loop :: "'n Lexer \<Rightarrow> 'n Lexer" where
  "scanIdentifier_loop L =
     (if isalnum (lexer_peek L) \<or> lexer_peek L = CHR ''_''
      then scanIdentifier_loop (snd (lexer_advance L)) else L)"
  by pat_completeness auto
termination
  by (relation "measure (\<lambda>L. length (m_source L) - m_current L)")
     (auto simp: lexer_advance_def lexer_isAtEnd_def lexer_peek_def isalnum_def isalpha_def
        isdigit_def split: if_splits)

declare scanIdentifier_loop.simps [simp del]

definition scanIdentifier :: "'n Lexer \<Rightarrow> 'n Token \<times> 'n Lexer" where
  "scanIdentifier L0 =
     (let L = scanIdentifier_loop L0 in
      case KEYWORDS (currentLexeme L) of
        Some t \<Rightarrow> (makeToken t NoLiteral L, L)
      | None \<Rightarrow> (makeToken IDENTIFIER NoLiteral L, L))"

function scanDigits :: "'n Lexer \<Rightarrow> 'n Lexer" where
  "scanDigits L = (if isdigit (lexer_peek L) then scanDigits (snd (lexer_advance L)) else L)"
  by pat_completeness auto
termination
  by (relation "measure (\<lambda>L. length (m_source L) - m_current L)")
     (auto simp: lexer_advance_def lexer_isAtEnd_def lexer_peek_def isdigit_def split: if_splits)

declare scanDigits.simps [simp del]

definition scanNumber :: "'n DoubleOps \<Rightarrow> 'n Lexer \<Rightarrow> 'n Token \<times> 'n Lexer" where
  "scanNumber D L0 =
     (let L1 = scanDigits L0;
          L2 = (if lexer_peek L1 = CHR ''.'' \<and> isdigit (peekNext L1)
                then scanDigits (snd (lexer_advance L1)) else L1)
      in (makeToken NUMBER (NumberLiteral (d_stod D (currentLexeme L2))) L2, L2))"

function scanString_loop :: "string \<Rightarrow> 'n Lexer \<Rightarrow> string \<times> 'n Lexer" where
  "scanString_loop v L =
     (if lexer_peek L \<noteq> CHR 0x22 \<and> \<not> lexer_isAtEnd L
      then (let L1 = (if lexer_peek L = CHR 0x0A then L\<lparr>m_line := m_line L + 1, m_column := 1\<rparr>
                      else L)
            in scanString_loop (v @ [fst (lexer_advance L1)]) (snd (lexer_advance L1)))
      else (v, L))"
  by pat_completeness auto
termination
  by (relation "measure (\<lambda>(v, L). length (m_source L) - m_current L)")
     (auto simp: lexer_advance_def lexer_isAtEnd_def)

declare scanString_loop.simps [simp del]

definition scanString :: "'n Lexer \<Rightarrow> 'n Token \<times> 'n Lexer" where
  "scanString L0 =
     (case scanString_loop [] L0 of (v, L) \<Rightarrow>
        if lexer_isAtEnd L then (errorToken ''Unterminated string'' L, L)
        else (let L1 = snd (lexer_advance L) in (makeToken STRING (StringLiteral v) L1, L1)))"

definition scanToken :: "'n DoubleOps \<Rightarrow> 'n Lexer \<Rightarrow> 'n Token \<times> 'n Lexer" where
  "scanToken D L0 =
     (let L1 = skipWhitespace (skipComment (skipWhitespace L0));
          L2 = L1\<lparr>m_start := m_current L1\<rparr>
      in if lexer_isAtEnd L2 then (makeToken EOF_TOKEN NoLiteral L2, L2)
         else case lexer_advance L2 of (c, L) \<Rightarrow>
           if isalpha c \<or> c = CHR ''_'' then scanIdentifier L
           else if isdigit c then scanNumber D L
           else if c = CHR 0x22 then scanString L
           else if c = CHR ''('' then (makeToken LPAREN NoLiteral L, L)
           else if c = CHR '')'' then (makeToken RPAREN NoLiteral L, L)
           else if c = CHR ''{'' then (makeToken LBRACE NoLiteral L, L)
           else if c = CHR ''}'' then (makeToken RBRACE NoLiteral L, L)
           else if c = CHR '','' then (makeToken COMMA NoLiteral L, L)
           else if c = CHR '';'' then (makeToken SEMICOLON NoLiteral L, L)
           else if c = CHR ''+'' then (makeToken PLUS NoLiteral L, L)
           else if c = CHR ''-'' then (makeToken MINUS NoLiteral L, L)
           else if c = CHR ''*'' then (makeToken STAR NoLiteral L, L)
           else if c = CHR ''/'' then (makeToken SLASH NoLiteral L, L)
           else if c = CHR ''%'' then (makeToken PERCENT NoLiteral L, L)
           else if c = CHR ''='' then
             (case lexer_match (CHR ''='') L of (m, L') \<Rightarrow>
                if m then (makeToken EQUAL_EQUAL NoLiteral L', L')
                else (makeToken EQUAL NoLiteral L', L'))
           else if c = CHR ''!'' then
             (case lexer_match (CHR ''='') L of (m, L') \<Rightarrow>
                if m then (makeToken BANG_EQUAL NoLiteral L', L')
                else (errorToken (''Unexpected '' @ [CHR 0x27] @ ''!'' @ [CHR 0x27] @ '' without ''
                        @ [CHR 0x27] @ ''='' @ [CHR 0x27]) L', L'))
           else if c = CHR ''<'' then
             (case lexer_match (CHR ''='') L of (m, L') \<Rightarrow>
                if m then (makeToken LESS_EQUAL NoLiteral L', L')
                else (makeToken LESS NoLiteral L', L'))
           else if c = CHR ''>'' then
             (case lexer_match (CHR ''='') L of (m, L') \<Rightarrow>
                if m then (makeToken GREATER_EQUAL NoLiteral L', L')
                else (makeToken GREATER NoLiteral L', L'))
           else (errorToken (''Unexpected character: '' @ [c]) L, L))"

text \<open>
  The loop of \<^verbatim>\<open>tokenize\<close>: it adds the token that \<^verbatim>\<open>scanToken\<close> returns to
  \<^verbatim>\<open>m_tokens\<close> unless its type is \<open>ERROR\<close>. Every turn that starts before the end of
  the source reads at least one character, so the loop is run on a fuel of the length of the
  source; \<open>None\<close> would mean that it ran out.
\<close>

fun tokenize_loop :: "'n DoubleOps \<Rightarrow> nat \<Rightarrow> 'n Lexer \<Rightarrow> 'n Lexer option" where
  "tokenize_loop D 0 L = (if lexer_isAtEnd L then Some L else None)"
| "tokenize_loop D (Suc k) L =
     (if lexer_isAtEnd L then Some L
      else case scanToken D (L\<lparr>m_start := m_current L\<rparr>) of (token, L') \<Rightarrow>
             tokenize_loop D k
               (if type token \<noteq> ERROR then L'\<lparr>m_tokens := m_tokens L' @ [token]\<rparr> else L'))"

definition Lexer_init :: "string \<Rightarrow> 'n Lexer" where
  "Lexer_init source =
     \<lparr>m_source = source, m_start = 0, m_current = 0, m_line = 1, m_column = 1, m_tokens = []\<rparr>"

definition tokenize :: "'n DoubleOps \<Rightarrow> string \<Rightarrow> 'n Token list option" where
  "tokenize D source =
     (case tokenize_loop D (length source) (Lexer_init source) of
        None \<Rightarrow> None
      | Some L \<Rightarrow> Some (m_tokens L @ [makeToken EOF_TOKEN NoLiteral L]))"

text \<open>
  \<open>lexer_moves L L'\<close>: from \<open>L\<close> to \<open>L'\<close> the source and the token list are the same
  and the cursor has not gone back.
\<close>

definition lexer_moves :: "'n Lexer \<Rightarrow> 'n Lexer \<Rightarrow> bool" where
  "lexer_moves L L' =
     (m_source L' = m_source L \<and> m_tokens L' = m_tokens L \<and> m_current L \<le> m_current L')"

section \<open>The parser (Parser.hpp, Parser.cpp)\<close>

record ParseError =
  what :: string
  error_line :: nat
  error_column :: nat

text \<open>
  The parser's state is the token list \<^verbatim>\<open>m_tokens\<close>, which it never changes, and the
  cursor \<^verbatim>\<open>m_current\<close>; they are the arguments \<open>ts\<close> and \<open>p\<close> of every function below.
  The result of a parsing function is a value and the cursor after it, or a
  \<^verbatim>\<open>ParseError\<close> thrown, with the cursor where it was thrown. The functions of the
  grammar call each other without a structural bound, so they run on fuel; \<open>NoFuel\<close> means
  that it ran out.
\<close>

datatype 'a Parse = Parsed 'a nat | Thrown ParseError nat | NoFuel

definition bindP :: "'a Parse \<Rightarrow> ('a \<Rightarrow> nat \<Rightarrow> 'b Parse) \<Rightarrow> 'b Parse" where
  "bindP r k = (case r of Parsed a p \<Rightarrow> k a p | Thrown e p \<Rightarrow> Thrown e p | NoFuel \<Rightarrow> NoFuel)"

text \<open>
  \<^verbatim>\<open>m_tokens[i]\<close>. The list that \<^verbatim>\<open>tokenize\<close> returns ends with an
  \<open>EOF_TOKEN\<close>, the cursor never passes one and \<^verbatim>\<open>previous\<close> is only called after
  the cursor has moved, so no read is out of range (which would be undefined in C++); the
  model reads an \<open>EOF_TOKEN\<close> there.
\<close>

definition tokenAt :: "'n Token list \<Rightarrow> nat \<Rightarrow> 'n Token" where
  "tokenAt ts i =
     (if i < length ts then ts ! i
      else \<lparr>type = EOF_TOKEN, lexeme = [], line = 0, column = 0, literal = NoLiteral\<rparr>)"

definition parser_peek :: "'n Token list \<Rightarrow> nat \<Rightarrow> 'n Token" where
  "parser_peek ts p = tokenAt ts p"

definition previous :: "'n Token list \<Rightarrow> nat \<Rightarrow> 'n Token" where
  "previous ts p = (if p = 0 then tokenAt ts (length ts) else tokenAt ts (p - 1))"

definition parser_isAtEnd :: "'n Token list \<Rightarrow> nat \<Rightarrow> bool" where
  "parser_isAtEnd ts p = (type (parser_peek ts p) = EOF_TOKEN)"

definition check :: "'n Token list \<Rightarrow> nat \<Rightarrow> TokenType \<Rightarrow> bool" where
  "check ts p t = (if parser_isAtEnd ts p then False else type (parser_peek ts p) = t)"

text \<open>
  \<^verbatim>\<open>advance\<close> moves the cursor and returns \<^verbatim>\<open>previous()\<close>; \<open>parser_advance\<close> is the
  cursor after it.
\<close>

definition parser_advance :: "'n Token list \<Rightarrow> nat \<Rightarrow> nat" where
  "parser_advance ts p = (if \<not> parser_isAtEnd ts p then p + 1 else p)"

fun parser_match :: "'n Token list \<Rightarrow> TokenType list \<Rightarrow> nat \<Rightarrow> bool \<times> nat" where
  "parser_match ts [] p = (False, p)"
| "parser_match ts (t # types) p =
     (if check ts p t then (True, parser_advance ts p) else parser_match ts types p)"

definition parser_error :: "'n Token \<Rightarrow> string \<Rightarrow> ParseError" where
  "parser_error token message =
     \<lparr>what = message, error_line = line token, error_column = column token\<rparr>"

definition consume :: "'n Token list \<Rightarrow> nat \<Rightarrow> TokenType \<Rightarrow> string \<Rightarrow> 'n Token Parse" where
  "consume ts p t message =
     (if check ts p t then Parsed (previous ts (parser_advance ts p)) (parser_advance ts p)
      else Thrown (parser_error (parser_peek ts p) message) p)"

function synchronize_loop :: "'n Token list \<Rightarrow> nat \<Rightarrow> nat" where
  "synchronize_loop ts p =
     (if parser_isAtEnd ts p then p
      else if type (previous ts p) = SEMICOLON then p
      else if type (parser_peek ts p) \<in> {FN, LET, IF, WHILE, RETURN, PRINT} then p
      else synchronize_loop ts (parser_advance ts p))"
  by pat_completeness auto
termination
  by (relation "measure (\<lambda>(ts, p). length ts - p)")
     (auto simp: parser_advance_def parser_isAtEnd_def parser_peek_def tokenAt_def split: if_splits)

declare synchronize_loop.simps [simp del]

definition synchronize :: "'n Token list \<Rightarrow> nat \<Rightarrow> nat" where
  "synchronize ts p = synchronize_loop ts (parser_advance ts p)"

text \<open>
  The expression grammar, from \<^verbatim>\<open>primary\<close> up to \<^verbatim>\<open>expression\<close>. The functions
  below \<^verbatim>\<open>expression\<close> reach it again (in a parenthesis and in the arguments of a call):
  each of them takes as \<open>E\<close> the function that this call of \<^verbatim>\<open>expression()\<close> runs, and
  \<open>expression\<close> closes the cycle, with one unit of fuel less inside. The first argument of
  every recursive function is the fuel. A \<^verbatim>\<open>while\<close> or \<^verbatim>\<open>do\<close> loop is a function of
  its own, named after the function that contains it.
\<close>

definition primary ::
  "'n DoubleOps \<Rightarrow> ('n Token list \<Rightarrow> nat \<Rightarrow> 'n Expr Parse) \<Rightarrow> 'n Token list \<Rightarrow> nat
     \<Rightarrow> 'n Expr Parse" where
  "primary D E ts p =
     (case parser_match ts [FALSE] p of
        (True, p1) \<Rightarrow> Parsed (LiteralExpr (LitBool False)) p1
      | (False, p1) \<Rightarrow>
     (case parser_match ts [TRUE] p1 of
        (True, p2) \<Rightarrow> Parsed (LiteralExpr (LitBool True)) p2
      | (False, p2) \<Rightarrow>
     (case parser_match ts [NUMBER] p2 of
        (True, p3) \<Rightarrow>
          (case literal (previous ts p3) of
             NumberLiteral d \<Rightarrow> Parsed (LiteralExpr (LitNumber d)) p3
           | _ \<Rightarrow> Parsed (LiteralExpr (LitNumber (d_zero D))) p3)
      | (False, p3) \<Rightarrow>
     (case parser_match ts [STRING] p3 of
        (True, p4) \<Rightarrow>
          (case literal (previous ts p4) of
             StringLiteral s \<Rightarrow> Parsed (LiteralExpr (LitString s)) p4
           | _ \<Rightarrow> Parsed (LiteralExpr (LitString [])) p4)
      | (False, p4) \<Rightarrow>
     (case parser_match ts [LPAREN] p4 of
        (True, p5) \<Rightarrow>
          bindP (E ts p5) (\<lambda>expr p6.
            bindP (consume ts p6 RPAREN ''Expect ')' after expression.'') (\<lambda>paren p7.
              Parsed (GroupingExpr expr) p7))
      | (False, p5) \<Rightarrow>
     (case parser_match ts [IDENTIFIER] p5 of
        (True, p6) \<Rightarrow> Parsed (VariableExpr (previous ts p6)) p6
      | (False, p6) \<Rightarrow> Thrown (parser_error (parser_peek ts p6) ''Expect expression.'') p6))))))"

primrec finishCall_loop ::
  "nat \<Rightarrow> ('n Token list \<Rightarrow> nat \<Rightarrow> 'n Expr Parse) \<Rightarrow> 'n Token list \<Rightarrow> 'n Expr list \<Rightarrow> nat
     \<Rightarrow> 'n Expr list Parse" where
  "finishCall_loop 0 E ts arguments p = NoFuel"
| "finishCall_loop (Suc f) E ts arguments p =
     (if length arguments \<ge> 255
      then Thrown (parser_error (parser_peek ts p) ''Can't have more than 255 arguments.'') p
      else bindP (E ts p) (\<lambda>e p1.
             case parser_match ts [COMMA] p1 of
               (True, p2) \<Rightarrow> finishCall_loop f E ts (arguments @ [e]) p2
             | (False, p2) \<Rightarrow> Parsed (arguments @ [e]) p2))"

definition finishCall ::
  "nat \<Rightarrow> ('n Token list \<Rightarrow> nat \<Rightarrow> 'n Expr Parse) \<Rightarrow> 'n Token list \<Rightarrow> 'n Expr \<Rightarrow> nat
     \<Rightarrow> 'n Expr Parse" where
  "finishCall f E ts callee p =
     bindP (if \<not> check ts p RPAREN then finishCall_loop f E ts [] p else Parsed [] p)
       (\<lambda>arguments p1.
          bindP (consume ts p1 RPAREN ''Expect ')' after arguments.'') (\<lambda>paren p2.
            Parsed (CallExpr callee paren arguments) p2))"

primrec call_loop ::
  "nat \<Rightarrow> ('n Token list \<Rightarrow> nat \<Rightarrow> 'n Expr Parse) \<Rightarrow> 'n Token list \<Rightarrow> 'n Expr \<Rightarrow> nat
     \<Rightarrow> 'n Expr Parse" where
  "call_loop 0 E ts expr p = NoFuel"
| "call_loop (Suc f) E ts expr p =
     (case parser_match ts [LPAREN] p of
        (True, p1) \<Rightarrow> bindP (finishCall f E ts expr p1) (\<lambda>expr' p2. call_loop f E ts expr' p2)
      | (False, p1) \<Rightarrow> Parsed expr p1)"

definition call ::
  "nat \<Rightarrow> 'n DoubleOps \<Rightarrow> ('n Token list \<Rightarrow> nat \<Rightarrow> 'n Expr Parse) \<Rightarrow> 'n Token list \<Rightarrow> nat
     \<Rightarrow> 'n Expr Parse" where
  "call f D E ts p = bindP (primary D E ts p) (\<lambda>expr p1. call_loop f E ts expr p1)"

primrec unary ::
  "nat \<Rightarrow> 'n DoubleOps \<Rightarrow> ('n Token list \<Rightarrow> nat \<Rightarrow> 'n Expr Parse) \<Rightarrow> 'n Token list \<Rightarrow> nat
     \<Rightarrow> 'n Expr Parse" where
  "unary 0 D E ts p = NoFuel"
| "unary (Suc f) D E ts p =
     (case parser_match ts [BANG, MINUS] p of
        (True, p1) \<Rightarrow>
          bindP (unary f D E ts p1) (\<lambda>right p2. Parsed (UnaryExpr (previous ts p1) right) p2)
      | (False, p1) \<Rightarrow> call f D E ts p1)"

primrec factor_loop ::
  "nat \<Rightarrow> 'n DoubleOps \<Rightarrow> ('n Token list \<Rightarrow> nat \<Rightarrow> 'n Expr Parse) \<Rightarrow> 'n Token list \<Rightarrow> 'n Expr
     \<Rightarrow> nat \<Rightarrow> 'n Expr Parse" where
  "factor_loop 0 D E ts expr p = NoFuel"
| "factor_loop (Suc f) D E ts expr p =
     (case parser_match ts [SLASH, STAR, PERCENT] p of
        (True, p1) \<Rightarrow>
          bindP (unary f D E ts p1) (\<lambda>right p2.
            factor_loop f D E ts (BinaryExpr expr (previous ts p1) right) p2)
      | (False, p1) \<Rightarrow> Parsed expr p1)"

definition factor ::
  "nat \<Rightarrow> 'n DoubleOps \<Rightarrow> ('n Token list \<Rightarrow> nat \<Rightarrow> 'n Expr Parse) \<Rightarrow> 'n Token list \<Rightarrow> nat
     \<Rightarrow> 'n Expr Parse" where
  "factor f D E ts p = bindP (unary f D E ts p) (\<lambda>expr p1. factor_loop f D E ts expr p1)"

primrec term_loop ::
  "nat \<Rightarrow> 'n DoubleOps \<Rightarrow> ('n Token list \<Rightarrow> nat \<Rightarrow> 'n Expr Parse) \<Rightarrow> 'n Token list \<Rightarrow> 'n Expr
     \<Rightarrow> nat \<Rightarrow> 'n Expr Parse" where
  "term_loop 0 D E ts expr p = NoFuel"
| "term_loop (Suc f) D E ts expr p =
     (case parser_match ts [MINUS, PLUS] p of
        (True, p1) \<Rightarrow>
          bindP (factor f D E ts p1) (\<lambda>right p2.
            term_loop f D E ts (BinaryExpr expr (previous ts p1) right) p2)
      | (False, p1) \<Rightarrow> Parsed expr p1)"

definition term_expr ::
  "nat \<Rightarrow> 'n DoubleOps \<Rightarrow> ('n Token list \<Rightarrow> nat \<Rightarrow> 'n Expr Parse) \<Rightarrow> 'n Token list \<Rightarrow> nat
     \<Rightarrow> 'n Expr Parse" where
  "term_expr f D E ts p = bindP (factor f D E ts p) (\<lambda>expr p1. term_loop f D E ts expr p1)"

primrec comparison_loop ::
  "nat \<Rightarrow> 'n DoubleOps \<Rightarrow> ('n Token list \<Rightarrow> nat \<Rightarrow> 'n Expr Parse) \<Rightarrow> 'n Token list \<Rightarrow> 'n Expr
     \<Rightarrow> nat \<Rightarrow> 'n Expr Parse" where
  "comparison_loop 0 D E ts expr p = NoFuel"
| "comparison_loop (Suc f) D E ts expr p =
     (case parser_match ts [GREATER, GREATER_EQUAL, LESS, LESS_EQUAL] p of
        (True, p1) \<Rightarrow>
          bindP (term_expr f D E ts p1) (\<lambda>right p2.
            comparison_loop f D E ts (BinaryExpr expr (previous ts p1) right) p2)
      | (False, p1) \<Rightarrow> Parsed expr p1)"

definition comparison ::
  "nat \<Rightarrow> 'n DoubleOps \<Rightarrow> ('n Token list \<Rightarrow> nat \<Rightarrow> 'n Expr Parse) \<Rightarrow> 'n Token list \<Rightarrow> nat
     \<Rightarrow> 'n Expr Parse" where
  "comparison f D E ts p =
     bindP (term_expr f D E ts p) (\<lambda>expr p1. comparison_loop f D E ts expr p1)"

primrec equality_loop ::
  "nat \<Rightarrow> 'n DoubleOps \<Rightarrow> ('n Token list \<Rightarrow> nat \<Rightarrow> 'n Expr Parse) \<Rightarrow> 'n Token list \<Rightarrow> 'n Expr
     \<Rightarrow> nat \<Rightarrow> 'n Expr Parse" where
  "equality_loop 0 D E ts expr p = NoFuel"
| "equality_loop (Suc f) D E ts expr p =
     (case parser_match ts [BANG_EQUAL, EQUAL_EQUAL] p of
        (True, p1) \<Rightarrow>
          bindP (comparison f D E ts p1) (\<lambda>right p2.
            equality_loop f D E ts (BinaryExpr expr (previous ts p1) right) p2)
      | (False, p1) \<Rightarrow> Parsed expr p1)"

definition equality ::
  "nat \<Rightarrow> 'n DoubleOps \<Rightarrow> ('n Token list \<Rightarrow> nat \<Rightarrow> 'n Expr Parse) \<Rightarrow> 'n Token list \<Rightarrow> nat
     \<Rightarrow> 'n Expr Parse" where
  "equality f D E ts p =
     bindP (comparison f D E ts p) (\<lambda>expr p1. equality_loop f D E ts expr p1)"

primrec logicalAnd_loop ::
  "nat \<Rightarrow> 'n DoubleOps \<Rightarrow> ('n Token list \<Rightarrow> nat \<Rightarrow> 'n Expr Parse) \<Rightarrow> 'n Token list \<Rightarrow> 'n Expr
     \<Rightarrow> nat \<Rightarrow> 'n Expr Parse" where
  "logicalAnd_loop 0 D E ts expr p = NoFuel"
| "logicalAnd_loop (Suc f) D E ts expr p =
     (case parser_match ts [AND] p of
        (True, p1) \<Rightarrow>
          bindP (equality f D E ts p1) (\<lambda>right p2.
            logicalAnd_loop f D E ts (BinaryExpr expr (previous ts p1) right) p2)
      | (False, p1) \<Rightarrow> Parsed expr p1)"

definition logicalAnd ::
  "nat \<Rightarrow> 'n DoubleOps \<Rightarrow> ('n Token list \<Rightarrow> nat \<Rightarrow> 'n Expr Parse) \<Rightarrow> 'n Token list \<Rightarrow> nat
     \<Rightarrow> 'n Expr Parse" where
  "logicalAnd f D E ts p =
     bindP (equality f D E ts p) (\<lambda>expr p1. logicalAnd_loop f D E ts expr p1)"

primrec logicalOr_loop ::
  "nat \<Rightarrow> 'n DoubleOps \<Rightarrow> ('n Token list \<Rightarrow> nat \<Rightarrow> 'n Expr Parse) \<Rightarrow> 'n Token list \<Rightarrow> 'n Expr
     \<Rightarrow> nat \<Rightarrow> 'n Expr Parse" where
  "logicalOr_loop 0 D E ts expr p = NoFuel"
| "logicalOr_loop (Suc f) D E ts expr p =
     (case parser_match ts [OR] p of
        (True, p1) \<Rightarrow>
          bindP (logicalAnd f D E ts p1) (\<lambda>right p2.
            logicalOr_loop f D E ts (BinaryExpr expr (previous ts p1) right) p2)
      | (False, p1) \<Rightarrow> Parsed expr p1)"

definition logicalOr ::
  "nat \<Rightarrow> 'n DoubleOps \<Rightarrow> ('n Token list \<Rightarrow> nat \<Rightarrow> 'n Expr Parse) \<Rightarrow> 'n Token list \<Rightarrow> nat
     \<Rightarrow> 'n Expr Parse" where
  "logicalOr f D E ts p =
     bindP (logicalAnd f D E ts p) (\<lambda>expr p1. logicalOr_loop f D E ts expr p1)"

primrec assignment ::
  "nat \<Rightarrow> 'n DoubleOps \<Rightarrow> ('n Token list \<Rightarrow> nat \<Rightarrow> 'n Expr Parse) \<Rightarrow> 'n Token list \<Rightarrow> nat
     \<Rightarrow> 'n Expr Parse" where
  "assignment 0 D E ts p = NoFuel"
| "assignment (Suc f) D E ts p =
     bindP (logicalOr f D E ts p) (\<lambda>expr p1.
       case parser_match ts [EQUAL] p1 of
         (True, p2) \<Rightarrow>
           bindP (assignment f D E ts p2) (\<lambda>v p3.
             case expr of
               VariableExpr nm \<Rightarrow> Parsed (AssignExpr nm v) p3
             | _ \<Rightarrow> Thrown (parser_error (previous ts p2) ''Invalid assignment target.'') p3)
       | (False, p2) \<Rightarrow> Parsed expr p2)"

primrec expression :: "nat \<Rightarrow> 'n DoubleOps \<Rightarrow> 'n Token list \<Rightarrow> nat \<Rightarrow> 'n Expr Parse" where
  "expression 0 D ts p = NoFuel"
| "expression (Suc f) D ts p = assignment f D (expression f D) ts p"

text \<open>
  The statement grammar. \<^verbatim>\<open>statement\<close> is reached again from \<^verbatim>\<open>ifStatement\<close> and
  \<^verbatim>\<open>whileStatement\<close>, which take the function that this call runs as \<open>St\<close>, and
  \<^verbatim>\<open>declaration\<close> from the body of a function and of a block, which take it as
  \<open>De\<close>. \<^verbatim>\<open>declaration\<close> returns a statement or throws, never a null pointer, so the
  tests \<^verbatim>\<open>if (stmt)\<close> of the source always succeed.
\<close>

definition letDeclaration ::
  "nat \<Rightarrow> 'n DoubleOps \<Rightarrow> 'n Token list \<Rightarrow> nat \<Rightarrow> 'n Stmt Parse" where
  "letDeclaration f D ts p =
     bindP (consume ts p IDENTIFIER ''Expect variable name after 'let'.'') (\<lambda>name p1.
       bindP (case parser_match ts [EQUAL] p1 of
                (True, p2) \<Rightarrow> bindP (expression f D ts p2) (\<lambda>e p3. Parsed (Some e) p3)
              | (False, p2) \<Rightarrow> Parsed None p2)
         (\<lambda>initializer p3.
            bindP (consume ts p3 SEMICOLON ''Expect ';' after variable declaration.'') (\<lambda>semi p4.
              Parsed (LetStmt name initializer) p4)))"

primrec parameters_loop ::
  "nat \<Rightarrow> 'n Token list \<Rightarrow> 'n Token list \<Rightarrow> nat \<Rightarrow> 'n Token list Parse" where
  "parameters_loop 0 ts params p = NoFuel"
| "parameters_loop (Suc f) ts params p =
     (if length params \<ge> 255
      then Thrown (parser_error (parser_peek ts p) ''Can't have more than 255 parameters.'') p
      else bindP (consume ts p IDENTIFIER ''Expect parameter name.'') (\<lambda>param p1.
             case parser_match ts [COMMA] p1 of
               (True, p2) \<Rightarrow> parameters_loop f ts (params @ [param]) p2
             | (False, p2) \<Rightarrow> Parsed (params @ [param]) p2))"

text \<open>
  The loop \<^verbatim>\<open>while (!check(RBRACE) && !isAtEnd())\<close> that collects the statements of a
  function body and of a block.
\<close>

primrec declarations_loop ::
  "nat \<Rightarrow> ('n Token list \<Rightarrow> nat \<Rightarrow> 'n Stmt Parse) \<Rightarrow> 'n Token list \<Rightarrow> 'n Stmt list \<Rightarrow> nat
     \<Rightarrow> 'n Stmt list Parse" where
  "declarations_loop 0 De ts statements p = NoFuel"
| "declarations_loop (Suc f) De ts statements p =
     (if \<not> check ts p RBRACE \<and> \<not> parser_isAtEnd ts p
      then bindP (De ts p) (\<lambda>stmt p1. declarations_loop f De ts (statements @ [stmt]) p1)
      else Parsed statements p)"

definition functionDeclaration ::
  "nat \<Rightarrow> ('n Token list \<Rightarrow> nat \<Rightarrow> 'n Stmt Parse) \<Rightarrow> 'n Token list \<Rightarrow> nat \<Rightarrow> 'n Stmt Parse" where
  "functionDeclaration f De ts p =
     bindP (consume ts p IDENTIFIER ''Expect function name after 'fn'.'') (\<lambda>name p1.
     bindP (consume ts p1 LPAREN ''Expect '(' after function name.'') (\<lambda>lparen p2.
     bindP (if \<not> check ts p2 RPAREN then parameters_loop f ts [] p2 else Parsed [] p2)
       (\<lambda>params p3.
     bindP (consume ts p3 RPAREN ''Expect ')' after parameters.'') (\<lambda>rparen p4.
     bindP (consume ts p4 LBRACE ''Expect '{' before function body.'') (\<lambda>lbrace p5.
     bindP (declarations_loop f De ts [] p5) (\<lambda>body p6.
     bindP (consume ts p6 RBRACE ''Expect '}' after function body.'') (\<lambda>rbrace p7.
       Parsed (FunctionStmt name params body) p7)))))))"

definition ifStatement ::
  "nat \<Rightarrow> 'n DoubleOps \<Rightarrow> ('n Token list \<Rightarrow> nat \<Rightarrow> 'n Stmt Parse) \<Rightarrow> 'n Token list \<Rightarrow> nat
     \<Rightarrow> 'n Stmt Parse" where
  "ifStatement f D St ts p =
     bindP (consume ts p LPAREN ''Expect '(' after 'if'.'') (\<lambda>lparen p1.
     bindP (expression f D ts p1) (\<lambda>condition p2.
     bindP (consume ts p2 RPAREN ''Expect ')' after if condition.'') (\<lambda>rparen p3.
     bindP (St ts p3) (\<lambda>thenBranch p4.
     bindP (case parser_match ts [ELSE] p4 of
              (True, p5) \<Rightarrow> bindP (St ts p5) (\<lambda>s p6. Parsed (Some s) p6)
            | (False, p5) \<Rightarrow> Parsed None p5)
       (\<lambda>elseBranch p6. Parsed (IfStmt condition thenBranch elseBranch) p6)))))"

definition whileStatement ::
  "nat \<Rightarrow> 'n DoubleOps \<Rightarrow> ('n Token list \<Rightarrow> nat \<Rightarrow> 'n Stmt Parse) \<Rightarrow> 'n Token list \<Rightarrow> nat
     \<Rightarrow> 'n Stmt Parse" where
  "whileStatement f D St ts p =
     bindP (consume ts p LPAREN ''Expect '(' after 'while'.'') (\<lambda>lparen p1.
     bindP (expression f D ts p1) (\<lambda>condition p2.
     bindP (consume ts p2 RPAREN ''Expect ')' after while condition.'') (\<lambda>rparen p3.
     bindP (St ts p3) (\<lambda>body p4. Parsed (WhileStmt condition body) p4))))"

definition returnStatement ::
  "nat \<Rightarrow> 'n DoubleOps \<Rightarrow> 'n Token list \<Rightarrow> nat \<Rightarrow> 'n Stmt Parse" where
  "returnStatement f D ts p =
     (let keyword = previous ts p in
      bindP (if \<not> check ts p SEMICOLON
             then bindP (expression f D ts p) (\<lambda>e p1. Parsed (Some e) p1)
             else Parsed None p)
        (\<lambda>v p1.
           bindP (consume ts p1 SEMICOLON ''Expect ';' after return value.'') (\<lambda>semi p2.
             Parsed (ReturnStmt keyword v) p2)))"

definition printStatement ::
  "nat \<Rightarrow> 'n DoubleOps \<Rightarrow> 'n Token list \<Rightarrow> nat \<Rightarrow> 'n Stmt Parse" where
  "printStatement f D ts p =
     bindP (expression f D ts p) (\<lambda>expr p1.
       bindP (consume ts p1 SEMICOLON ''Expect ';' after value.'') (\<lambda>semi p2.
         Parsed (PrintStmt expr) p2))"

definition blockStatement ::
  "nat \<Rightarrow> ('n Token list \<Rightarrow> nat \<Rightarrow> 'n Stmt Parse) \<Rightarrow> 'n Token list \<Rightarrow> nat \<Rightarrow> 'n Stmt Parse" where
  "blockStatement f De ts p =
     bindP (declarations_loop f De ts [] p) (\<lambda>statements p1.
       bindP (consume ts p1 RBRACE ''Expect '}' after block.'') (\<lambda>rbrace p2.
         Parsed (BlockStmt statements) p2))"

definition expressionStatement ::
  "nat \<Rightarrow> 'n DoubleOps \<Rightarrow> 'n Token list \<Rightarrow> nat \<Rightarrow> 'n Stmt Parse" where
  "expressionStatement f D ts p =
     bindP (expression f D ts p) (\<lambda>expr p1.
       bindP (consume ts p1 SEMICOLON ''Expect ';' after expression.'') (\<lambda>semi p2.
         Parsed (ExpressionStmt expr) p2))"

primrec statement ::
  "nat \<Rightarrow> 'n DoubleOps \<Rightarrow> ('n Token list \<Rightarrow> nat \<Rightarrow> 'n Stmt Parse) \<Rightarrow> 'n Token list \<Rightarrow> nat
     \<Rightarrow> 'n Stmt Parse" where
  "statement 0 D De ts p = NoFuel"
| "statement (Suc f) D De ts p =
     (case parser_match ts [IF] p of
        (True, p1) \<Rightarrow> ifStatement f D (statement f D De) ts p1
      | (False, p1) \<Rightarrow>
     (case parser_match ts [WHILE] p1 of
        (True, p2) \<Rightarrow> whileStatement f D (statement f D De) ts p2
      | (False, p2) \<Rightarrow>
     (case parser_match ts [RETURN] p2 of
        (True, p3) \<Rightarrow> returnStatement f D ts p3
      | (False, p3) \<Rightarrow>
     (case parser_match ts [PRINT] p3 of
        (True, p4) \<Rightarrow> printStatement f D ts p4
      | (False, p4) \<Rightarrow>
     (case parser_match ts [LBRACE] p4 of
        (True, p5) \<Rightarrow> blockStatement f De ts p5
      | (False, p5) \<Rightarrow> expressionStatement f D ts p5)))))"

primrec declaration_stmt :: "nat \<Rightarrow> 'n DoubleOps \<Rightarrow> 'n Token list \<Rightarrow> nat \<Rightarrow> 'n Stmt Parse" where
  "declaration_stmt 0 D ts p = NoFuel"
| "declaration_stmt (Suc f) D ts p =
     (case parser_match ts [LET] p of
        (True, p1) \<Rightarrow> letDeclaration f D ts p1
      | (False, p1) \<Rightarrow>
     (case parser_match ts [FN] p1 of
        (True, p2) \<Rightarrow> functionDeclaration f (declaration_stmt f D) ts p2
      | (False, p2) \<Rightarrow> statement f D (declaration_stmt f D) ts p2))"

text \<open>
  The loop of \<^verbatim>\<open>parse\<close>: a statement is added to the program; a \<^verbatim>\<open>ParseError\<close> is
  caught, reported on the error stream (which the model leaves out) and followed by
  \<^verbatim>\<open>synchronize\<close>. \<open>None\<close> means that the fuel ran out.
\<close>

primrec parse_loop ::
  "nat \<Rightarrow> 'n DoubleOps \<Rightarrow> 'n Token list \<Rightarrow> 'n Program \<Rightarrow> nat \<Rightarrow> 'n Program option" where
  "parse_loop 0 D ts program p = (if parser_isAtEnd ts p then Some program else None)"
| "parse_loop (Suc f) D ts program p =
     (if parser_isAtEnd ts p then Some program
      else case declaration_stmt f D ts p of
             Parsed stmt p1 \<Rightarrow> parse_loop f D ts (program @ [stmt]) p1
           | Thrown e p1 \<Rightarrow> parse_loop f D ts program (synchronize ts p1)
           | NoFuel \<Rightarrow> None)"

definition Parser_parse :: "nat \<Rightarrow> 'n DoubleOps \<Rightarrow> 'n Token list \<Rightarrow> 'n Program option" where
  "Parser_parse fuel D tokens = parse_loop fuel D tokens [] 0"

section \<open>The compiler (Compiler.cpp)\<close>

text \<open>
  The last stage of \<^verbatim>\<open>Compiler::compile\<close>, after parsing: it constructs a generator,
  calls \<^verbatim>\<open>IRGenerator::compile\<close> on the whole program, and only then looks at the
  generator's flag. The result is the chunk returned together with the compiler's
  \<^verbatim>\<open>m_error\<close>, which was cleared at the start of \<^verbatim>\<open>Compiler::compile\<close>:
  the empty chunk and the generator's message when the flag is set, the generated chunk and
  no message otherwise.
\<close>

definition Compiler_lower :: "'n Program \<Rightarrow> 'n Chunk \<times> string" where
  "Compiler_lower program =
     (let irgen = IRGenerator_compile program
      in if m_hadError irgen then (emptyChunk, m_error irgen) else (m_chunk irgen, []))"

text \<open>
  \<^verbatim>\<open>Compiler::compile\<close>: the chunk returned and the compiler's \<^verbatim>\<open>m_error\<close> after the
  call, or \<open>None\<close> when the fuel given to the parser ran out. The message of the lexer
  stage is \<^verbatim>\<open>std::format("[Line {}] Lexer Error: {}", token.line, token.lexeme)\<close> for
  the first token of type \<open>ERROR\<close> in the list that \<^verbatim>\<open>tokenize\<close> returned.
\<close>

definition Compiler_compile :: "'n DoubleOps \<Rightarrow> nat \<Rightarrow> string \<Rightarrow> ('n Chunk \<times> string) option" where
  "Compiler_compile D fuel source =
     (case tokenize D source of
        None \<Rightarrow> None
      | Some tokens \<Rightarrow>
          (case find (\<lambda>token. type token = ERROR) tokens of
             Some token \<Rightarrow>
               Some (emptyChunk,
                     ''[Line '' @ decimal (line token) @ ''] Lexer Error: '' @ lexeme token)
           | None \<Rightarrow>
               (case Parser_parse fuel D tokens of
                  None \<Rightarrow> None
                | Some program \<Rightarrow> Some (Compiler_lower program))))"

text \<open>
  \<^verbatim>\<open>Compiler::run\<close> on a source text: \<^verbatim>\<open>compile\<close>, then, unless
  \<^verbatim>\<open>hadError()\<close> (the compiler's \<^verbatim>\<open>m_error\<close> is not empty), \<^verbatim>\<open>interpret\<close> on the
  compiler's machine, whose message becomes the compiler's when the result is not \<open>OK\<close>.
  The result is what \<^verbatim>\<open>run\<close> returns, the compiler's \<^verbatim>\<open>m_error\<close> and the machine
  after the call; \<open>None\<close> when the fuel ran out or the machine met undefined behaviour.
\<close>

definition Compiler_run ::
  "'n DoubleOps \<Rightarrow> nat \<Rightarrow> string \<Rightarrow> 'n VM \<Rightarrow> (InterpretResult \<times> string \<times> 'n VM) option" where
  "Compiler_run D fuel source vm =
     (case Compiler_compile D fuel source of
        None \<Rightarrow> None
      | Some (chunk, err) \<Rightarrow>
          if err \<noteq> [] then Some (COMPILE_ERROR, err, vm)
          else (case VM_interpret D fuel chunk vm of
                  Finished r vm' \<Rightarrow> Some (r, if r \<noteq> OK then m_error_VM vm' else err, vm')
                | UndefinedBehaviour \<Rightarrow> None
                | OutOfFuel \<Rightarrow> None))"

section \<open>Examples: whole numbers, tokens and a fresh machine\<close>

text \<open>
  An instance of the operations on numbers, to run examples: the whole numbers, with
  exact addition, subtraction and multiplication, truncating division and remainder, and
  decimal text. It agrees with \<^verbatim>\<open>double\<close> on the comparisons and on the text of
  whole numbers of small magnitude; the examples below execute no arithmetic.
\<close>

definition whole_format :: "int \<Rightarrow> string" where
  "whole_format i = (if i < 0 then CHR ''-'' # decimal (nat (- i)) else decimal (nat i))"

fun whole_stod_digits :: "string \<Rightarrow> int \<Rightarrow> int" where
  "whole_stod_digits [] acc = acc"
| "whole_stod_digits (c # cs) acc =
     (case find_char c ''0123456789'' of
        Some d \<Rightarrow> whole_stod_digits cs (10 * acc + int d)
      | None \<Rightarrow> acc)"

definition wholeOps :: "int DoubleOps" where
  "wholeOps =
     \<lparr>d_add = (\<lambda>a b. a + b), d_sub = (\<lambda>a b. a - b), d_mul = (\<lambda>a b. a * b),
      d_div = (\<lambda>a b. sgn a * sgn b * (\<bar>a\<bar> div \<bar>b\<bar>)),
      d_fmod = (\<lambda>a b. sgn a * (\<bar>a\<bar> mod \<bar>b\<bar>)),
      d_neg = (\<lambda>a. - a),
      d_eq = (\<lambda>a b. a = b), d_less = (\<lambda>a b. a < b), d_greater = (\<lambda>a b. a > b),
      d_zero = 0, d_format = whole_format, d_stod = (\<lambda>s. whole_stod_digits s 0)\<rparr>"

definition identifierToken :: "string \<Rightarrow> 'n Token" where
  "identifierToken s = \<lparr>type = IDENTIFIER, lexeme = s, line = 1, column = 1, literal = NoLiteral\<rparr>"

definition operatorToken :: "TokenType \<Rightarrow> string \<Rightarrow> 'n Token" where
  "operatorToken t s = \<lparr>type = t, lexeme = s, line = 1, column = 1, literal = NoLiteral\<rparr>"

definition freshVM :: "'n VM" where
  "freshVM = \<lparr>m_stack = [], m_ip = 0, m_error_VM = [], m_output = []\<rparr>"

text \<open>A machine instruction with no operand, as \<^verbatim>\<open>emitByte\<close> writes it.\<close>

definition plain :: "OpCode \<Rightarrow> 'n Instruction" where
  "plain op = \<lparr>opcode = op, operand = 0, inlined_constant = VNil\<rparr>"

text \<open>
  Example programs, as the parser builds them.
  \<open>readLocalProgram\<close> is \<^verbatim>\<open>let x = 1; print x;\<close>,
  \<open>writeLocalProgram\<close> is \<^verbatim>\<open>let x = 1; x = 2;\<close>,
  \<open>callProgram\<close> is \<^verbatim>\<open>1();\<close>,
  \<open>abortProgram\<close> is \<^verbatim>\<open>y; print true;\<close> and
  \<open>functionProgram\<close> is \<^verbatim>\<open>fn f(a, a) { let x; let x; print y; }\<close>.
\<close>

definition readLocalProgram :: "int Program" where
  "readLocalProgram =
     [LetStmt (identifierToken ''x'') (Some (LiteralExpr (LitNumber 1))),
      PrintStmt (VariableExpr (identifierToken ''x''))]"

definition writeLocalProgram :: "int Program" where
  "writeLocalProgram =
     [LetStmt (identifierToken ''x'') (Some (LiteralExpr (LitNumber 1))),
      ExpressionStmt (AssignExpr (identifierToken ''x'') (LiteralExpr (LitNumber 2)))]"

definition callProgram :: "int Program" where
  "callProgram =
     [ExpressionStmt (CallExpr (LiteralExpr (LitNumber 1)) (operatorToken RPAREN '')'') [])]"

definition abortProgram :: "int Program" where
  "abortProgram =
     [ExpressionStmt (VariableExpr (identifierToken ''y'')),
      PrintStmt (LiteralExpr (LitBool True))]"

text \<open>\<open>twoErrorsProgram\<close> is \<^verbatim>\<open>{ y; z; } print true;\<close>.\<close>

definition twoErrorsProgram :: "int Program" where
  "twoErrorsProgram =
     [BlockStmt
        [ExpressionStmt (VariableExpr (identifierToken ''y'')),
         ExpressionStmt (VariableExpr (identifierToken ''z''))],
      PrintStmt (LiteralExpr (LitBool True))]"

definition functionProgram :: "int Program" where
  "functionProgram =
     [FunctionStmt (identifierToken ''f'') [identifierToken ''a'', identifierToken ''a'']
        [LetStmt (identifierToken ''x'') None,
         LetStmt (identifierToken ''x'') None,
         PrintStmt (VariableExpr (identifierToken ''y''))]]"

text \<open>A chunk that pops the empty stack and then prints: \<^verbatim>\<open>POP; TRUE; PRINT\<close>.\<close>

definition underflowChunk :: "int Chunk" where
  "underflowChunk =
     \<lparr>code = [plain OP_POP, plain OP_TRUE, plain OP_PRINT], lines = [0, 0, 0], constants = []\<rparr>"

text \<open>
  \<open>printProgram\<close> is \<^verbatim>\<open>print true;\<close>, and \<open>usedVM\<close> is a machine as some earlier
  run may have left it.
\<close>

definition printProgram :: "int Program" where
  "printProgram = [PrintStmt (LiteralExpr (LitBool True))]"

definition usedVM :: "int VM" where
  "usedVM = \<lparr>m_stack = [VNil, VBool False], m_ip = 7, m_error_VM = ''Stack underflow.'',
             m_output = ''nil'' @ [CHR 0x0A]\<rparr>"

text \<open>
  Statements with a known number of instructions: \<open>printTrue\<close> is
  \<^verbatim>\<open>print true;\<close> (two instructions), \<open>printMinusOne\<close> is \<^verbatim>\<open>print -1;\<close>
  (three), and \<open>printBlock n extra\<close> is a block of \<open>n\<close> times the first, followed by the
  second when \<open>extra\<close> holds.
\<close>

definition printTrue :: "int Stmt" where
  "printTrue = PrintStmt (LiteralExpr (LitBool True))"

definition printMinusOne :: "int Stmt" where
  "printMinusOne = PrintStmt (UnaryExpr (operatorToken MINUS ''-'') (LiteralExpr (LitNumber 1)))"

definition printBlock :: "nat \<Rightarrow> bool \<Rightarrow> int Stmt" where
  "printBlock n extra = BlockStmt (replicate n printTrue @ (if extra then [printMinusOne] else []))"

definition trueLiteral :: "int Expr" where
  "trueLiteral = LiteralExpr (LitBool True)"

text \<open>
  \<open>overflowProgram\<close> is the program \<^verbatim>\<open>0; 1; 2; ... 256;\<close>: 257 expression statements,
  each a number literal.
\<close>

definition numberStatement :: "int \<Rightarrow> int Stmt" where
  "numberStatement v = ExpressionStmt (LiteralExpr (LitNumber v))"

definition overflowProgram :: "int Program" where
  "overflowProgram = map (\<lambda>i. numberStatement (int i)) [0..<257]"

text \<open>
  \<open>whileProgram\<close> is \<^verbatim>\<open>let i = 0; while (i < 3) { print i; i = i + 1; }\<close>,
  \<open>duplicateProgram\<close> is \<^verbatim>\<open>{ let x = 1; let x = 2; }\<close> and
  \<open>shadowProgram\<close> is \<^verbatim>\<open>let x = 1; if (true) { let x = 2; }\<close>.
  \<open>duplicateState\<close> is the generator inside the block of \<open>duplicateProgram\<close> before its
  second declaration, and \<open>shadowState\<close> the generator inside the block of \<open>shadowProgram\<close>
  before its declaration.
\<close>

definition whileProgram :: "int Program" where
  "whileProgram =
     [LetStmt (identifierToken ''i'') (Some (LiteralExpr (LitNumber 0))),
      WhileStmt
        (BinaryExpr (VariableExpr (identifierToken ''i'')) (operatorToken LESS ''<'')
           (LiteralExpr (LitNumber 3)))
        (BlockStmt
           [PrintStmt (VariableExpr (identifierToken ''i'')),
            ExpressionStmt
              (AssignExpr (identifierToken ''i'')
                 (BinaryExpr (VariableExpr (identifierToken ''i'')) (operatorToken PLUS ''+'')
                    (LiteralExpr (LitNumber 1))))])]"

definition duplicateProgram :: "int Program" where
  "duplicateProgram =
     [BlockStmt
        [LetStmt (identifierToken ''x'') (Some (LiteralExpr (LitNumber 1))),
         LetStmt (identifierToken ''x'') (Some (LiteralExpr (LitNumber 2)))]]"

definition shadowProgram :: "int Program" where
  "shadowProgram =
     [LetStmt (identifierToken ''x'') (Some (LiteralExpr (LitNumber 1))),
      IfStmt (LiteralExpr (LitBool True))
        (BlockStmt [LetStmt (identifierToken ''x'') (Some (LiteralExpr (LitNumber 2)))])
        None]"

definition duplicateState :: "int IRGenerator" where
  "duplicateState =
     \<lparr>m_chunk = \<lparr>code = [plain OP_CONSTANT], lines = [0], constants = [VNumber 1]\<rparr>,
      m_locals = [\<lparr>name = ''x'', depth = 2, isCaptured = False\<rparr>],
      m_scopeDepth = 2, m_hadError = False, m_error = []\<rparr>"

definition shadowState :: "int IRGenerator" where
  "shadowState =
     \<lparr>m_chunk = \<lparr>code = [plain OP_CONSTANT, plain OP_TRUE,
                         (plain OP_JUMP_IF_FALSE)\<lparr>operand := 255\<rparr>],
                 lines = [0, 0, 0], constants = [VNumber 1]\<rparr>,
      m_locals = [\<lparr>name = ''x'', depth = 1, isCaptured = False\<rparr>],
      m_scopeDepth = 2, m_hadError = False, m_error = []\<rparr>"

text \<open>
  The source text that the repository's test \<^verbatim>\<open>testWhileLoop\<close> gives to
  \<^verbatim>\<open>Compiler::run\<close> (the loop of \<open>whileProgram\<close>, with \<^verbatim>\<open>x\<close> for \<^verbatim>\<open>i\<close>), and the
  program that the parser makes of it.
\<close>

definition testWhileLoop :: string where
  "testWhileLoop = ''let x = 0; while (x < 3) { print x; x = x + 1; }''"

definition testWhileLoop_parsed :: "int Program" where
  "testWhileLoop_parsed =
     [LetStmt \<lparr>type = IDENTIFIER, lexeme = ''x'', line = 1, column = 6, literal = NoLiteral\<rparr>
        (Some (LiteralExpr (LitNumber 0))),
      WhileStmt
        (BinaryExpr
           (VariableExpr
              \<lparr>type = IDENTIFIER, lexeme = ''x'', line = 1, column = 20, literal = NoLiteral\<rparr>)
           \<lparr>type = LESS, lexeme = ''<'', line = 1, column = 22, literal = NoLiteral\<rparr>
           (LiteralExpr (LitNumber 3)))
        (BlockStmt
           [PrintStmt
              (VariableExpr
                 \<lparr>type = IDENTIFIER, lexeme = ''x'', line = 1, column = 35, literal = NoLiteral\<rparr>),
            ExpressionStmt
              (AssignExpr
                 \<lparr>type = IDENTIFIER, lexeme = ''x'', line = 1, column = 38, literal = NoLiteral\<rparr>
                 (BinaryExpr
                    (VariableExpr
                       \<lparr>type = IDENTIFIER, lexeme = ''x'', line = 1, column = 42,
                          literal = NoLiteral\<rparr>)
                    \<lparr>type = PLUS, lexeme = ''+'', line = 1, column = 44, literal = NoLiteral\<rparr>
                    (LiteralExpr (LitNumber 1))))])]"

section \<open>Evaluating the model\<close>

text \<open>
  Facts that let the simplifier run the machine on a numeral of fuel, and the definitions
  it unfolds to evaluate the generator and the machine on a concrete input.
\<close>

lemma run_numeral:
  "run D chunk (numeral k) vm =
     (case step D chunk vm of
        Continue vm' \<Rightarrow> run D chunk (pred_numeral k) vm'
      | Return r vm' \<Rightarrow> Finished r vm'
      | Undefined \<Rightarrow> UndefinedBehaviour)"
  by (simp add: numeral_eq_Suc)

lemma run_1:
  "run D chunk 1 vm =
     (case step D chunk vm of
        Continue vm' \<Rightarrow> OutOfFuel
      | Return r vm' \<Rightarrow> Finished r vm'
      | Undefined \<Rightarrow> UndefinedBehaviour)"
  by (simp split: StepResult.splits)

lemma exec_numeral:
  "exec D chunk (numeral k) vm =
     (case step D chunk vm of
        Continue vm' \<Rightarrow> exec D chunk (pred_numeral k) vm'
      | Return r vm' \<Rightarrow> None
      | Undefined \<Rightarrow> None)"
  by (simp add: numeral_eq_Suc)

lemma exec_1:
  "exec D chunk 1 vm =
     (case step D chunk vm of
        Continue vm' \<Rightarrow> Some vm'
      | Return r vm' \<Rightarrow> None
      | Undefined \<Rightarrow> None)"
  by (simp split: StepResult.splits)

lemmas irgen_defs = IRGenerator_compile_def IRGenerator_init_def beginScope_def endScope_def
  endScope_loop.simps declareVariable_def resolveLocal_def markInitialized_def emitByte_def
  emitJump_def emitLoop_def patchJump_def error_def emitBinaryOperator_def
  emitUnaryOperator_def compileLiteralExpr_def compileVariableExpr_def emitSetLocal_def
  writeConstant_def addConstant_def Chunk_write_def emptyChunk_def size_add_def size_sub_def
  identifierToken_def operatorToken_def Let_def

lemmas vm_defs = VM_interpret_def reset_def run_numeral run_1 exec_numeral exec_1 step_def
  readInstruction_def pop_def push_def peek_def runtimeError_def numericBinary_def
  divisionBinary_def freshVM_def plain_def size_add_def size_sub_def wholeOps_def

section \<open>The error flag of the generator is sticky\<close>

lemma hadError_emitByte [simp]: "m_hadError (emitByte op x g) = m_hadError g"
  by (simp add: emitByte_def)

lemma hadError_emitJump [simp]: "m_hadError (emitJump op g) = m_hadError g"
  by (simp add: emitJump_def)

lemma hadError_beginScope [simp]: "m_hadError (beginScope g) = m_hadError g"
  by (simp add: beginScope_def)

lemma hadError_markInitialized [simp]: "m_hadError (markInitialized g) = m_hadError g"
  by (simp add: markInitialized_def)

lemma hadError_error [simp]: "m_hadError (error msg g)"
  by (simp add: error_def)

lemma hadError_endScope_loop [simp]: "m_hadError (endScope_loop g) = m_hadError g"
proof (induction g rule: endScope_loop.induct)
  case (1 g)
  show ?case
  proof (cases "m_locals g \<noteq> [] \<and> depth (last (m_locals g)) > m_scopeDepth g")
    case True
    then show ?thesis
      using "1.IH" by (subst endScope_loop.simps) (simp add: emitByte_def)
  next
    case False
    then show ?thesis by (subst endScope_loop.simps) auto
  qed
qed

lemma hadError_endScope [simp]: "m_hadError (endScope g) = m_hadError g"
  by (simp add: endScope_def)

lemma sticky_declareVariable: "m_hadError g \<Longrightarrow> m_hadError (declareVariable n g)"
  by (simp add: declareVariable_def)

lemma sticky_patchJump: "m_hadError g \<Longrightarrow> m_hadError (patchJump off g)"
  by (simp add: patchJump_def Let_def)

lemma sticky_emitLoop: "m_hadError g \<Longrightarrow> m_hadError (emitLoop s g)"
  by (simp add: emitLoop_def Let_def)

lemma sticky_emitBinaryOperator: "m_hadError g \<Longrightarrow> m_hadError (emitBinaryOperator op g)"
  by (simp add: emitBinaryOperator_def split: TokenType.splits)

lemma sticky_emitUnaryOperator: "m_hadError g \<Longrightarrow> m_hadError (emitUnaryOperator op g)"
  by (simp add: emitUnaryOperator_def split: TokenType.splits)

lemma sticky_compileLiteralExpr: "m_hadError g \<Longrightarrow> m_hadError (compileLiteralExpr v g)"
  by (simp add: compileLiteralExpr_def split: LiteralValue.splits)

lemma sticky_compileVariableExpr: "m_hadError g \<Longrightarrow> m_hadError (compileVariableExpr n g)"
  by (simp add: compileVariableExpr_def Let_def)

lemma sticky_emitSetLocal: "m_hadError g \<Longrightarrow> m_hadError (emitSetLocal n g)"
  by (simp add: emitSetLocal_def Let_def)

lemmas sticky_steps = sticky_declareVariable sticky_patchJump sticky_emitLoop
  sticky_emitBinaryOperator sticky_emitUnaryOperator sticky_compileLiteralExpr
  sticky_compileVariableExpr sticky_emitSetLocal

lemma sticky_compileExpr:
  "m_hadError g \<Longrightarrow> m_hadError (compileExpr e g)"
  "m_hadError g \<Longrightarrow> m_hadError (compileArguments es g)"
  by (induction e g and es g rule: compileExpr_compileArguments.induct)
     (simp_all add: sticky_steps)

lemma Stmt_induct_all [case_names Expression Let Function If While Return Print Block]:
  assumes "\<And>e g. P (ExpressionStmt e) g"
    and "\<And>nm i g. P (LetStmt nm i) g"
    and "\<And>nm ps b g. P (FunctionStmt nm ps b) g"
    and "\<And>c t e g. (\<And>g'. P t g') \<Longrightarrow> (\<And>s g'. e = Some s \<Longrightarrow> P s g') \<Longrightarrow> P (IfStmt c t e) g"
    and "\<And>c b g. (\<And>g'. P b g') \<Longrightarrow> P (WhileStmt c b) g"
    and "\<And>k v g. P (ReturnStmt k v) g"
    and "\<And>e g. P (PrintStmt e) g"
    and "\<And>ss g. (\<And>s g'. s \<in> set ss \<Longrightarrow> P s g') \<Longrightarrow> P (BlockStmt ss) g"
  shows "P s g"
proof -
  have "\<forall>g. P s g"
  proof (induction s)
    case (ExpressionStmt e)
    show ?case by (intro allI assms(1))
  next
    case (LetStmt nm i)
    show ?case by (intro allI assms(2))
  next
    case (FunctionStmt nm ps b)
    show ?case by (intro allI assms(3))
  next
    case (IfStmt c t e)
    show ?case
    proof
      fix g
      show "P (IfStmt c t e) g"
      proof (rule assms(4))
        fix g' show "P t g'" using IfStmt.IH(1) by (rule spec)
      next
        fix s g' assume "e = Some s"
        then have "s \<in> set_option e" by simp
        then have "\<forall>g. P s g" by (rule IfStmt.IH(2))
        then show "P s g'" by (rule spec)
      qed
    qed
  next
    case (WhileStmt c b)
    show ?case
    proof
      fix g
      show "P (WhileStmt c b) g"
      proof (rule assms(5))
        fix g' show "P b g'" using WhileStmt.IH by (rule spec)
      qed
    qed
  next
    case (ReturnStmt k v)
    show ?case by (intro allI assms(6))
  next
    case (PrintStmt e)
    show ?case by (intro allI assms(7))
  next
    case (BlockStmt ss)
    show ?case
    proof
      fix g
      show "P (BlockStmt ss) g"
      proof (rule assms(8))
        fix s g' assume "s \<in> set ss"
        then have "\<forall>g. P s g" by (rule BlockStmt.IH)
        then show "P s g'" by (rule spec)
      qed
    qed
  qed
  then show ?thesis by blast
qed

lemma sticky_compileStatements:
  assumes "\<And>s g. s \<in> set ss \<Longrightarrow> m_hadError g \<longrightarrow> m_hadError (compileStmt s g)"
  shows "m_hadError g \<longrightarrow> m_hadError (compileStatements ss g)"
  using assms by (induction ss arbitrary: g) auto

lemma sticky_compileStmt: "m_hadError g \<longrightarrow> m_hadError (compileStmt s g)"
proof (induction s g rule: Stmt_induct_all)
  case (Expression e g)
  show ?case by (simp add: sticky_compileExpr)
next
  case (Let nm i g)
  show ?case by (cases i) (simp_all add: Let_def sticky_steps sticky_compileExpr)
next
  case (Function nm ps b g)
  show ?case by (simp add: sticky_steps)
next
  case (If c t e g)
  show ?case
  proof
    assume h: "m_hadError g"
    define g1 where "g1 = emitJump OP_JUMP_IF_FALSE (compileExpr c g)"
    define g2 where "g2 = emitJump OP_JUMP (compileStmt t g1)"
    define g3 where "g3 = patchJump (size_sub (length (code (m_chunk g1))) 1) g2"
    define g4 where "g4 = (case e of Some s \<Rightarrow> compileStmt s g3 | None \<Rightarrow> g3)"
    have eq: "compileStmt (IfStmt c t e) g = patchJump (size_sub (length (code (m_chunk g2))) 1) g4"
      unfolding g1_def g2_def g3_def g4_def by (simp add: Let_def split: option.splits)
    have "m_hadError g1" using h by (simp add: g1_def sticky_compileExpr)
    then have "m_hadError g2" using If(1) by (simp add: g2_def)
    then have "m_hadError g3" by (simp add: g3_def sticky_steps)
    then have "m_hadError g4" using If(2) by (cases e) (simp_all add: g4_def)
    then show "m_hadError (compileStmt (IfStmt c t e) g)"
      unfolding eq by (rule sticky_patchJump)
  qed
next
  case (While c b g)
  show ?case
  proof
    assume h: "m_hadError g"
    define g1 where "g1 = emitJump OP_JUMP_IF_FALSE (compileExpr c g)"
    define g2 where "g2 = emitLoop (length (code (m_chunk g))) (compileStmt b g1)"
    have eq: "compileStmt (WhileStmt c b) g = patchJump (size_sub (length (code (m_chunk g1))) 1) g2"
      by (simp add: Let_def g1_def g2_def)
    have "m_hadError g1" using h by (simp add: g1_def sticky_compileExpr)
    then have "m_hadError g2" using While by (simp add: g2_def sticky_steps)
    then show "m_hadError (compileStmt (WhileStmt c b) g)"
      unfolding eq by (rule sticky_patchJump)
  qed
next
  case (Return k v g)
  show ?case by (cases v) (simp_all add: sticky_compileExpr)
next
  case (Print e g)
  show ?case by (simp add: sticky_compileExpr)
next
  case (Block ss g)
  show ?case
    using sticky_compileStatements [OF Block, of ss "beginScope g"] by simp
qed

lemma sticky_compileStatements_all:
  "m_hadError g \<Longrightarrow> m_hadError (compileStatements ss g)"
  using sticky_compileStatements [of ss g] sticky_compileStmt by blast

lemma compile_loop_abort:
  assumes "\<not> m_hadError (compileStatements pre g)"
    and "m_hadError (compileStmt s (compileStatements pre g))"
  shows "compile_loop (pre @ s # post) g = compileStmt s (compileStatements pre g)"
  using assms
proof (induction pre arbitrary: g)
  case Nil
  then show ?case by simp
next
  case (Cons a pre)
  have "\<not> m_hadError (compileStmt a g)"
    using Cons.prems(1) sticky_compileStatements_all [of "compileStmt a g" pre] by auto
  then show ?case using Cons by simp
qed

section \<open>Unimplemented instructions\<close>

lemma exec_run: "exec D c k vm = Some vm' \<Longrightarrow> run D c (k + n) vm = run D c n vm'"
  by (induction k arbitrary: vm) (auto split: StepResult.splits)

lemma step_unimplemented:
  assumes "m_ip vm < length (code chunk)"
    and "opcode (code chunk ! m_ip vm) \<in> {OP_GET_LOCAL, OP_SET_LOCAL, OP_CALL}"
  shows "step D chunk vm =
           Return RUNTIME_ERROR
             (vm\<lparr>m_ip := size_add (m_ip vm) 1,
                 m_error_VM :=
                   (if opcode (code chunk ! m_ip vm) = OP_CALL
                    then ''Function calls not fully implemented.''
                    else ''Local variables not fully implemented.'')\<rparr>)"
  using assms by (auto simp: step_def readInstruction_def runtimeError_def)

lemma readLocalProgram_compiled:
  "m_chunk (IRGenerator_compile readLocalProgram) =
     \<lparr>code = [plain OP_CONSTANT, plain OP_GET_LOCAL, plain OP_PRINT, plain OP_POP,
              plain OP_RETURN],
      lines = [0, 0, 0, 0, 0], constants = [VNumber 1]\<rparr>"
  by (simp add: readLocalProgram_def irgen_defs plain_def)

lemma writeLocalProgram_compiled:
  "m_chunk (IRGenerator_compile writeLocalProgram) =
     \<lparr>code = [plain OP_CONSTANT, (plain OP_CONSTANT)\<lparr>operand := 1\<rparr>, plain OP_SET_LOCAL,
              plain OP_POP, plain OP_POP, plain OP_RETURN],
      lines = [0, 0, 0, 0, 0, 0], constants = [VNumber 1, VNumber 2]\<rparr>"
  by (simp add: writeLocalProgram_def irgen_defs plain_def)

lemma callProgram_compiled:
  "m_chunk (IRGenerator_compile callProgram) =
     \<lparr>code = [plain OP_CONSTANT, plain OP_CALL, plain OP_POP, plain OP_RETURN],
      lines = [0, 0, 0, 0], constants = [VNumber 1]\<rparr>"
  by (simp add: callProgram_def irgen_defs plain_def)

text \<open>
  C1. Whenever the execution of a chunk reaches an \<open>OP_GET_LOCAL\<close>, \<open>OP_SET_LOCAL\<close> or
  \<open>OP_CALL\<close> instruction (after \<open>k\<close> turns of the loop from the reset machine, the
  instruction pointer is at such an instruction), \<^verbatim>\<open>interpret\<close> stops there: on any
  fuel above \<open>k\<close> it returns \<open>RUNTIME_ERROR\<close>, the machine is the one that reached the
  instruction but for the instruction pointer, moved past it, and the message, which is
  \<^verbatim>\<open>Local variables not fully implemented.\<close> for the two local-slot opcodes and
  \<^verbatim>\<open>Function calls not fully implemented.\<close> for \<open>OP_CALL\<close>. So a program that
  reads or writes a local, or calls, fails at run time when it gets there (the witness
  runs three such programs).
\<close>

theorem unimplemented_opcode_is_runtime_error:
  assumes "exec D chunk k (reset vm) = Some vm'"
    and "m_ip vm' < length (code chunk)"
    and "opcode (code chunk ! m_ip vm') \<in> {OP_GET_LOCAL, OP_SET_LOCAL, OP_CALL}"
  shows "VM_interpret D (Suc (k + n)) chunk vm =
           Finished RUNTIME_ERROR
             (vm'\<lparr>m_ip := size_add (m_ip vm') 1,
                  m_error_VM :=
                    (if opcode (code chunk ! m_ip vm') = OP_CALL
                     then ''Function calls not fully implemented.''
                     else ''Local variables not fully implemented.'')\<rparr>)"
proof -
  have "run D chunk (k + Suc n) (reset vm) = run D chunk (Suc n) vm'"
    using assms(1) by (rule exec_run)
  then show ?thesis
    using step_unimplemented [OF assms(2,3), of D] by (simp add: VM_interpret_def)
qed

theorem unimplemented_opcode_is_runtime_error_witness:
  "VM_interpret wholeOps 2 (m_chunk (IRGenerator_compile readLocalProgram)) freshVM =
     Finished RUNTIME_ERROR
       \<lparr>m_stack = [VNumber 1], m_ip = 2,
        m_error_VM = ''Local variables not fully implemented.'', m_output = []\<rparr>
   \<and> VM_interpret wholeOps 3 (m_chunk (IRGenerator_compile writeLocalProgram)) freshVM =
     Finished RUNTIME_ERROR
       \<lparr>m_stack = [VNumber 2, VNumber 1], m_ip = 3,
        m_error_VM = ''Local variables not fully implemented.'', m_output = []\<rparr>
   \<and> VM_interpret wholeOps 2 (m_chunk (IRGenerator_compile callProgram)) freshVM =
     Finished RUNTIME_ERROR
       \<lparr>m_stack = [VNumber 1], m_ip = 2,
        m_error_VM = ''Function calls not fully implemented.'', m_output = []\<rparr>"
proof (intro conjI)
  show "VM_interpret wholeOps 2 (m_chunk (IRGenerator_compile readLocalProgram)) freshVM =
     Finished RUNTIME_ERROR
       \<lparr>m_stack = [VNumber 1], m_ip = 2,
        m_error_VM = ''Local variables not fully implemented.'', m_output = []\<rparr>"
    using unimplemented_opcode_is_runtime_error
      [of wholeOps "m_chunk (IRGenerator_compile readLocalProgram)" 1 freshVM
          "\<lparr>m_stack = [VNumber 1], m_ip = 1, m_error_VM = [], m_output = []\<rparr>" 0]
    by (simp add: readLocalProgram_compiled vm_defs)
  show "VM_interpret wholeOps 3 (m_chunk (IRGenerator_compile writeLocalProgram)) freshVM =
     Finished RUNTIME_ERROR
       \<lparr>m_stack = [VNumber 2, VNumber 1], m_ip = 3,
        m_error_VM = ''Local variables not fully implemented.'', m_output = []\<rparr>"
    using unimplemented_opcode_is_runtime_error
      [of wholeOps "m_chunk (IRGenerator_compile writeLocalProgram)" 2 freshVM
          "\<lparr>m_stack = [VNumber 2, VNumber 1], m_ip = 2, m_error_VM = [], m_output = []\<rparr>" 0]
    by (simp add: writeLocalProgram_compiled vm_defs)
  show "VM_interpret wholeOps 2 (m_chunk (IRGenerator_compile callProgram)) freshVM =
     Finished RUNTIME_ERROR
       \<lparr>m_stack = [VNumber 1], m_ip = 2,
        m_error_VM = ''Function calls not fully implemented.'', m_output = []\<rparr>"
    using unimplemented_opcode_is_runtime_error
      [of wholeOps "m_chunk (IRGenerator_compile callProgram)" 1 freshVM
          "\<lparr>m_stack = [VNumber 1], m_ip = 1, m_error_VM = [], m_output = []\<rparr>" 0]
    by (simp add: callProgram_compiled vm_defs)
qed

section \<open>Stack underflow\<close>

lemma pop_empty_goes_on:
  assumes "m_ip vm < length (code chunk)" and "opcode (code chunk ! m_ip vm) = OP_POP"
    and "m_stack vm = []"
  shows "step D chunk vm =
           Continue (vm\<lparr>m_ip := size_add (m_ip vm) 1, m_error_VM := ''Stack underflow.''\<rparr>)"
  using assms by (simp add: step_def readInstruction_def pop_def runtimeError_def)

text \<open>
  C4. Popping the empty stack stores the message \<^verbatim>\<open>Stack underflow.\<close> but does not
  stop the machine: on \<open>underflowChunk\<close> (\<^verbatim>\<open>POP; TRUE; PRINT\<close>) the pop underflows,
  the two instructions after it are executed, \<^verbatim>\<open>true\<close> is printed and
  \<^verbatim>\<open>interpret\<close> returns \<open>OK\<close> with the message still stored.
\<close>

theorem stack_underflow_does_not_stop:
  "VM_interpret wholeOps 4 underflowChunk freshVM =
     Finished OK
       \<lparr>m_stack = [], m_ip = 3, m_error_VM = ''Stack underflow.'',
        m_output = ''true'' @ [CHR 0x0A]\<rparr>"
  by (simp add: underflowChunk_def vm_defs)

section \<open>The top-level loop of the generator stops at the first failed statement\<close>

lemma abortProgram_first_statement:
  "compileStmt (ExpressionStmt (VariableExpr (identifierToken ''y''))) (beginScope IRGenerator_init) =
     \<lparr>m_chunk = \<lparr>code = [plain OP_POP], lines = [0], constants = []\<rparr>,
      m_locals = [], m_scopeDepth = 1, m_hadError = True,
      m_error = ''Undefined variable: y''\<rparr>"
  by (simp add: irgen_defs plain_def)

lemma compileStatements_foldl:
  "compileStatements ss g = foldl (\<lambda>h x. compileStmt x h) g ss"
  by (induction ss arbitrary: g) simp_all

text \<open>
  C5 (as amended). A lowering error sets the failure flag and records its message;
  \<^verbatim>\<open>error\<close> overwrites the message of an earlier error, so the generator holds the
  latest one, and no later lowering step clears the flag. Inside a statement the walk is
  not aborted: a block lowers all its statements in order, whatever the flag. The loop of
  \<^verbatim>\<open>compile\<close> over the top-level statements, however, returns right after the first
  statement whose lowering has set the flag: the result is the generator as that statement
  left it, whatever statements follow (they are not lowered, and neither the closing
  \<^verbatim>\<open>endScope\<close> nor the final \<open>OP_RETURN\<close> is emitted). The caller looks at the flag
  only after \<^verbatim>\<open>compile\<close> has returned, and then returns the empty chunk with the
  generator's message.
\<close>

theorem compile_stops_at_first_failed_statement:
  assumes "\<not> m_hadError (compileStatements pre (beginScope IRGenerator_init))"
    and "m_hadError (compileStmt s (compileStatements pre (beginScope IRGenerator_init)))"
  shows "IRGenerator_compile (pre @ s # post) =
           compileStmt s (compileStatements pre (beginScope IRGenerator_init))
         \<and> m_hadError (IRGenerator_compile (pre @ s # post))
         \<and> Compiler_lower (pre @ s # post) =
             (emptyChunk,
              m_error (compileStmt s (compileStatements pre (beginScope IRGenerator_init))))
         \<and> (m_hadError g \<longrightarrow> m_hadError (compileStmt s' g))
         \<and> m_hadError (error message g) \<and> m_error (error message g) = message
         \<and> compileStmt (BlockStmt ss) g =
             endScope (foldl (\<lambda>h x. compileStmt x h) (beginScope g) ss)"
proof -
  have c: "IRGenerator_compile (pre @ s # post) =
      compileStmt s (compileStatements pre (beginScope IRGenerator_init))"
    using compile_loop_abort [OF assms, of post] by (simp add: IRGenerator_compile_def)
  have l: "Compiler_lower (pre @ s # post) =
      (emptyChunk, m_error (compileStmt s (compileStatements pre (beginScope IRGenerator_init))))"
    unfolding Compiler_lower_def c using assms(2) by (simp add: Let_def)
  have b: "compileStmt (BlockStmt ss) g =
      endScope (foldl (\<lambda>h x. compileStmt x h) (beginScope g) ss)"
    by (simp add: compileStatements_foldl)
  show ?thesis
    unfolding c l b using assms(2) sticky_compileStmt [of g s'] by (simp add: error_def)
qed

lemma twoErrors_block:
  "compileStmt
     (BlockStmt
        [ExpressionStmt (VariableExpr (identifierToken ''y'')),
         ExpressionStmt (VariableExpr (identifierToken ''z''))])
     (beginScope IRGenerator_init) =
     \<lparr>m_chunk = \<lparr>code = [plain OP_POP, plain OP_POP], lines = [0, 0], constants = []\<rparr>,
      m_locals = [], m_scopeDepth = 1, m_hadError = True,
      m_error = ''Undefined variable: z''\<rparr>"
  by (simp add: irgen_defs plain_def)

theorem compile_stops_at_first_failed_statement_witness:
  "IRGenerator_compile twoErrorsProgram =
     (\<lparr>m_chunk = \<lparr>code = [plain OP_POP, plain OP_POP], lines = [0, 0], constants = []\<rparr>,
       m_locals = [], m_scopeDepth = 1, m_hadError = True,
       m_error = ''Undefined variable: z''\<rparr> :: int IRGenerator)
   \<and> Compiler_lower twoErrorsProgram =
       (\<lparr>code = [], lines = [], constants = []\<rparr> :: int Chunk, ''Undefined variable: z'')
   \<and> IRGenerator_compile abortProgram =
     (\<lparr>m_chunk = \<lparr>code = [plain OP_POP], lines = [0], constants = []\<rparr>,
       m_locals = [], m_scopeDepth = 1, m_hadError = True,
       m_error = ''Undefined variable: y''\<rparr> :: int IRGenerator)"
proof -
  have start: "\<not> m_hadError (compileStatements [] (beginScope IRGenerator_init) :: int IRGenerator)"
    by (simp add: beginScope_def IRGenerator_init_def)
  have two: "m_hadError
      (compileStmt
         (BlockStmt
            [ExpressionStmt (VariableExpr (identifierToken ''y'')),
             ExpressionStmt (VariableExpr (identifierToken ''z''))])
         (compileStatements [] (beginScope IRGenerator_init) :: int IRGenerator))"
    by (simp add: twoErrors_block del: compileStmt.simps)
  have one: "m_hadError
      (compileStmt (ExpressionStmt (VariableExpr (identifierToken ''y'')))
         (compileStatements [] (beginScope IRGenerator_init) :: int IRGenerator))"
    by (simp add: abortProgram_first_statement del: compileStmt.simps)
  have t: "IRGenerator_compile twoErrorsProgram =
     (\<lparr>m_chunk = \<lparr>code = [plain OP_POP, plain OP_POP], lines = [0, 0], constants = []\<rparr>,
       m_locals = [], m_scopeDepth = 1, m_hadError = True,
       m_error = ''Undefined variable: z''\<rparr> :: int IRGenerator)"
    and l: "Compiler_lower twoErrorsProgram =
       (\<lparr>code = [], lines = [], constants = []\<rparr> :: int Chunk, ''Undefined variable: z'')"
    using compile_stops_at_first_failed_statement
      [OF start two, where post = "[PrintStmt (LiteralExpr (LitBool True))]", THEN conjunct1]
      compile_stops_at_first_failed_statement
      [OF start two, where post = "[PrintStmt (LiteralExpr (LitBool True))]",
       THEN conjunct2, THEN conjunct2, THEN conjunct1]
    by (simp_all add: twoErrorsProgram_def twoErrors_block emptyChunk_def
        del: compileStmt.simps)
  have a: "IRGenerator_compile abortProgram =
     (\<lparr>m_chunk = \<lparr>code = [plain OP_POP], lines = [0], constants = []\<rparr>,
       m_locals = [], m_scopeDepth = 1, m_hadError = True,
       m_error = ''Undefined variable: y''\<rparr> :: int IRGenerator)"
    using compile_stops_at_first_failed_statement
      [OF start one, where post = "[PrintStmt (LiteralExpr (LitBool True))]", THEN conjunct1]
    by (simp add: abortProgram_def abortProgram_first_statement del: compileStmt.simps)
  show ?thesis using t l a by simp
qed

text \<open>
  The claim as stated fails on \<open>abortProgram\<close> (\<^verbatim>\<open>y; print true;\<close>): lowering all
  its statements gives \<^verbatim>\<open>POP; TRUE; PRINT\<close>, but \<^verbatim>\<open>compile\<close> returns after the
  first statement, with \<^verbatim>\<open>POP\<close> alone.
\<close>

theorem compile_continues_counterexample:
  "m_hadError (IRGenerator_compile abortProgram)
   \<and> map opcode (code (m_chunk (IRGenerator_compile abortProgram))) = [OP_POP]
   \<and> map opcode (code (m_chunk (compileStatements abortProgram (beginScope IRGenerator_init)))) =
       [OP_POP, OP_TRUE, OP_PRINT]"
  by (simp add: abortProgram_def irgen_defs)

section \<open>Function declarations\<close>

text \<open>
  C10. Lowering a function declaration declares the function's name (in a scope where the
  name is not yet declared, it becomes the last local, at the current depth, and no error
  is raised) and emits exactly one instruction, \<open>OP_NIL\<close>. The parameters and the body
  are ignored: the result is the same as for the declaration with no parameter and an
  empty body, so nothing is generated for the body and no error in it is found.
\<close>

theorem function_statement_is_placeholder:
  "compileStmt (FunctionStmt nm params body) g =
     emitByte OP_NIL 0 (markInitialized (declareVariable (lexeme nm) g))
   \<and> compileStmt (FunctionStmt nm params body) g = compileStmt (FunctionStmt nm [] []) g
   \<and> code (m_chunk (compileStmt (FunctionStmt nm params body) g)) =
       code (m_chunk g) @ [plain OP_NIL]
   \<and> constants (m_chunk (compileStmt (FunctionStmt nm params body) g)) = constants (m_chunk g)
   \<and> (m_scopeDepth g \<noteq> 0
        \<and> \<not> declared_in_scope (rev (m_locals g)) (m_scopeDepth g) (lexeme nm) \<longrightarrow>
       m_locals (compileStmt (FunctionStmt nm params body) g) =
         m_locals g @ [\<lparr>name = lexeme nm, depth = m_scopeDepth g, isCaptured = False\<rparr>]
       \<and> m_hadError (compileStmt (FunctionStmt nm params body) g) = m_hadError g
       \<and> m_error (compileStmt (FunctionStmt nm params body) g) = m_error g)"
  by (simp add: declareVariable_def markInitialized_def emitByte_def Chunk_write_def
      error_def plain_def)

theorem function_statement_is_placeholder_witness:
  "IRGenerator_compile functionProgram =
     (\<lparr>m_chunk = \<lparr>code = [plain OP_NIL, plain OP_POP, plain OP_RETURN], lines = [0, 0, 0],
                  constants = []\<rparr>,
       m_locals = [], m_scopeDepth = 0, m_hadError = False, m_error = []\<rparr> :: int IRGenerator)"
  using function_statement_is_placeholder
    [of "identifierToken ''f''" "[identifierToken ''a'', identifierToken ''a'']"
        "[LetStmt (identifierToken ''x'') None, LetStmt (identifierToken ''x'') None,
          PrintStmt (VariableExpr (identifierToken ''y''))]"
        "beginScope IRGenerator_init :: int IRGenerator"]
  by (simp add: functionProgram_def irgen_defs plain_def)

section \<open>Replaying a chunk\<close>

lemma pop_printing: "pop (printing p vm) = (fst (pop vm), printing p (snd (pop vm)))"
  by (simp add: pop_def printing_def runtimeError_def split: list.splits)

lemma push_printing: "push v (printing p vm) = printing p (push v vm)"
  by (simp add: push_def printing_def)

lemma peek_printing: "peek (printing p vm) = peek vm"
  by (simp add: peek_def printing_def)

lemma runtimeError_printing: "runtimeError m (printing p vm) = printing p (runtimeError m vm)"
  by (simp add: runtimeError_def printing_def)

lemma readInstruction_printing:
  "readInstruction c (printing p vm) =
     (fst (readInstruction c vm), printing p (snd (readInstruction c vm)))"
  by (simp add: readInstruction_def printing_def)

lemma numericBinary_printing:
  "numericBinary f (printing p vm) = printing_step p (numericBinary f vm)"
  by (simp add: numericBinary_def pop_printing push_printing runtimeError_printing
      split: prod.splits Value.splits)

lemma divisionBinary_printing:
  "divisionBinary D m f (printing p vm) = printing_step p (divisionBinary D m f vm)"
  by (simp add: divisionBinary_def pop_printing push_printing runtimeError_printing
      split: prod.splits Value.splits)

lemma ip_printing: "(printing p vm)\<lparr>m_ip := i\<rparr> = printing p (vm\<lparr>m_ip := i\<rparr>)"
  "m_ip (printing p vm) = m_ip vm"
  by (simp_all add: printing_def)

lemma out_printing:
  "(printing p vm)\<lparr>m_output := m_output (printing p vm) @ s\<rparr> = printing p (vm\<lparr>m_output := m_output vm @ s\<rparr>)"
  by (simp add: printing_def)

lemma step_printing: "step D c (printing p vm) = printing_step p (step D c vm)"
proof -
  obtain i vm' where r: "readInstruction c vm = (i, vm')"
    by (cases "readInstruction c vm")
  have r': "readInstruction c (printing p vm) = (i, printing p vm')"
    by (simp add: readInstruction_printing r)
  obtain b vm1 where p1: "pop vm' = (b, vm1)" by (cases "pop vm'")
  obtain a vm2 where p2: "pop vm1 = (a, vm2)" by (cases "pop vm1")
  have q1: "pop (printing p vm') = (b, printing p vm1)" by (simp add: pop_printing p1)
  have q2: "pop (printing p vm1) = (a, printing p vm2)" by (simp add: pop_printing p2)
  show ?thesis
    unfolding step_def r r'
    by (cases "opcode i")
       (simp_all add: numericBinary_printing divisionBinary_printing p1 p2 q1 q2
          push_printing peek_printing runtimeError_printing ip_printing out_printing
          split: Value.splits)
qed

lemma run_printing: "run D c n (printing p vm) = printing_outcome p (run D c n vm)"
proof (induction n arbitrary: vm)
  case 0
  show ?case by simp
next
  case (Suc n)
  show ?case
    by (cases "step D c vm") (simp_all add: step_printing Suc)
qed

lemma printProgram_compiled:
  "m_chunk (IRGenerator_compile printProgram) =
     \<lparr>code = [plain OP_TRUE, plain OP_PRINT, plain OP_RETURN], lines = [0, 0, 0],
      constants = []\<rparr>"
  by (simp add: printProgram_def irgen_defs plain_def)

text \<open>
  C9. Two successive calls of \<^verbatim>\<open>interpret\<close> on the same chunk and the same machine:
  when the first call returns \<open>r\<close> and leaves the machine \<open>vm1\<close>, having appended some
  text to the output, the second call (on the same fuel) returns \<open>r\<close> too, appends the
  same text again, and leaves the same stack, instruction pointer and message.
  \<^verbatim>\<open>interpret\<close> resets the instruction pointer, the message and the stack first, and
  the text already written is never read.
\<close>

theorem interpret_twice_same_result:
  assumes "VM_interpret D fuel chunk vm = Finished r vm1"
  shows "m_output vm1 = m_output vm @ drop (length (m_output vm)) (m_output vm1)
         \<and> VM_interpret D fuel chunk vm1 =
             Finished r
               (vm1\<lparr>m_output := m_output vm1 @ drop (length (m_output vm)) (m_output vm1)\<rparr>)"
proof -
  define base where "base = (reset vm)\<lparr>m_output := []\<rparr>"
  have r0: "reset vm = printing (m_output vm) base"
    by (simp add: base_def printing_def reset_def)
  have "printing_outcome (m_output vm) (run D chunk fuel base) = Finished r vm1"
    using assms by (simp add: VM_interpret_def r0 run_printing)
  then obtain b where b: "run D chunk fuel base = Finished r b" and vm1: "vm1 = printing (m_output vm) b"
    by (cases "run D chunk fuel base") auto
  have out: "m_output vm1 = m_output vm @ m_output b"
    by (simp add: vm1 printing_def)
  have r1: "reset vm1 = printing (m_output vm1) base"
    by (simp add: base_def printing_def reset_def vm1)
  have "VM_interpret D fuel chunk vm1 = Finished r (printing (m_output vm1) b)"
    by (simp add: VM_interpret_def r1 run_printing b)
  moreover have "printing (m_output vm1) b = vm1\<lparr>m_output := m_output vm1 @ m_output b\<rparr>"
    by (simp add: vm1 printing_def)
  ultimately show ?thesis using out by simp
qed

theorem interpret_twice_same_result_witness:
  "VM_interpret wholeOps 3 (m_chunk (IRGenerator_compile printProgram)) usedVM =
     Finished OK
       \<lparr>m_stack = [], m_ip = 3, m_error_VM = [],
        m_output = ''nil'' @ [CHR 0x0A] @ ''true'' @ [CHR 0x0A]\<rparr>
   \<and> VM_interpret wholeOps 3 (m_chunk (IRGenerator_compile printProgram))
       \<lparr>m_stack = [], m_ip = 3, m_error_VM = [],
        m_output = ''nil'' @ [CHR 0x0A] @ ''true'' @ [CHR 0x0A]\<rparr> =
     Finished OK
       \<lparr>m_stack = [], m_ip = 3, m_error_VM = [],
        m_output = ''nil'' @ [CHR 0x0A] @ ''true'' @ [CHR 0x0A] @ ''true'' @ [CHR 0x0A]\<rparr>"
proof -
  have first: "VM_interpret wholeOps 3 (m_chunk (IRGenerator_compile printProgram)) usedVM =
     Finished OK
       \<lparr>m_stack = [], m_ip = 3, m_error_VM = [],
        m_output = ''nil'' @ [CHR 0x0A] @ ''true'' @ [CHR 0x0A]\<rparr>"
    by (simp add: printProgram_compiled usedVM_def vm_defs)
  show ?thesis
    using interpret_twice_same_result [OF first] first by (simp add: usedVM_def)
qed

section \<open>Lowering only appends instructions and patches its own placeholders\<close>

lemma size_sub_le [simp]: "b \<le> a \<Longrightarrow> size_sub a b = a - b"
  by (simp add: size_sub_def)

lemma prefix_list_update: "prefix xs ys \<Longrightarrow> length xs \<le> i \<Longrightarrow> prefix xs (ys[i := v])"
  by (auto simp: prefix_def list_update_append)

lemma prefix_emitByte: "prefix xs (codeOf g) \<Longrightarrow> prefix xs (codeOf (emitByte op x g))"
  by (simp add: emitByte_def Chunk_write_def)

lemma prefix_emitJump: "prefix xs (codeOf g) \<Longrightarrow> prefix xs (codeOf (emitJump op g))"
  by (simp add: emitJump_def Chunk_write_def)

lemma code_error [simp]: "codeOf (error m g) = codeOf g"
  by (simp add: error_def)

lemma code_beginScope [simp]: "codeOf (beginScope g) = codeOf g"
  by (simp add: beginScope_def)

lemma code_declareVariable [simp]: "codeOf (declareVariable n g) = codeOf g"
  by (simp add: declareVariable_def error_def)

lemma code_markInitialized [simp]: "codeOf (markInitialized g) = codeOf g"
  by (simp add: markInitialized_def)

lemma prefix_endScope_loop: "prefix xs (codeOf g) \<Longrightarrow> prefix xs (codeOf (endScope_loop g))"
proof (induction g rule: endScope_loop.induct)
  case (1 g)
  show ?case
  proof (cases "m_locals g \<noteq> [] \<and> depth (last (m_locals g)) > m_scopeDepth g")
    case True
    have "prefix xs (codeOf ((emitByte OP_POP 0 g)\<lparr>m_locals := butlast (m_locals g)\<rparr>))"
      using "1.prems" by (simp add: emitByte_def Chunk_write_def)
    then show ?thesis
      using "1.IH" True by (subst endScope_loop.simps) simp
  next
    case False
    then show ?thesis using "1.prems" by (subst endScope_loop.simps) auto
  qed
qed

lemma prefix_endScope: "prefix xs (codeOf g) \<Longrightarrow> prefix xs (codeOf (endScope g))"
  by (simp add: endScope_def prefix_endScope_loop)

lemma prefix_patchJump:
  "prefix xs (codeOf g) \<Longrightarrow> length xs \<le> off \<Longrightarrow> prefix xs (codeOf (patchJump off g))"
  by (simp add: patchJump_def Let_def prefix_list_update)

lemma prefix_emitLoop: "prefix xs (codeOf g) \<Longrightarrow> prefix xs (codeOf (emitLoop s g))"
  by (simp add: emitLoop_def Let_def Chunk_write_def)

lemma prefix_emitBinaryOperator:
  "prefix xs (codeOf g) \<Longrightarrow> prefix xs (codeOf (emitBinaryOperator op g))"
  by (simp add: emitBinaryOperator_def prefix_emitByte split: TokenType.splits)

lemma prefix_emitUnaryOperator:
  "prefix xs (codeOf g) \<Longrightarrow> prefix xs (codeOf (emitUnaryOperator op g))"
  by (simp add: emitUnaryOperator_def prefix_emitByte split: TokenType.splits)

lemma prefix_compileLiteralExpr:
  "prefix xs (codeOf g) \<Longrightarrow> prefix xs (codeOf (compileLiteralExpr v g))"
  by (simp add: compileLiteralExpr_def prefix_emitByte writeConstant_def addConstant_def
      Chunk_write_def split: LiteralValue.splits)

lemma prefix_compileVariableExpr:
  "prefix xs (codeOf g) \<Longrightarrow> prefix xs (codeOf (compileVariableExpr n g))"
  by (simp add: compileVariableExpr_def Let_def prefix_emitByte)

lemma prefix_emitSetLocal:
  "prefix xs (codeOf g) \<Longrightarrow> prefix xs (codeOf (emitSetLocal n g))"
  by (simp add: emitSetLocal_def Let_def prefix_emitByte)

lemmas prefix_steps = prefix_emitByte prefix_emitJump prefix_endScope prefix_emitLoop
  prefix_emitBinaryOperator prefix_emitUnaryOperator prefix_compileLiteralExpr
  prefix_compileVariableExpr prefix_emitSetLocal

lemma prefix_compileExpr:
  "prefix xs (codeOf g) \<Longrightarrow> prefix xs (codeOf (compileExpr e g))"
  "prefix xs (codeOf g) \<Longrightarrow> prefix xs (codeOf (compileArguments es g))"
  by (induction e g and es g rule: compileExpr_compileArguments.induct)
     (simp_all add: prefix_steps)

lemma length_emitJump [simp]: "length (codeOf (emitJump op g)) = Suc (length (codeOf g))"
  by (simp add: emitJump_def Chunk_write_def)

lemma length_emitByte [simp]: "length (codeOf (emitByte op x g)) = Suc (length (codeOf g))"
  by (simp add: emitByte_def Chunk_write_def)

lemma length_patchJump [simp]: "length (codeOf (patchJump off g)) = length (codeOf g)"
  by (simp add: patchJump_def Let_def)

lemma prefix_compileStatements:
  assumes "\<And>s g xs. s \<in> set ss \<Longrightarrow> prefix xs (codeOf g) \<longrightarrow> prefix xs (codeOf (compileStmt s g))"
  shows "prefix xs (codeOf g) \<longrightarrow> prefix xs (codeOf (compileStatements ss g))"
  using assms by (induction ss arbitrary: g) auto

lemma prefix_compileStmt_aux:
  "\<forall>xs. prefix xs (codeOf g) \<longrightarrow> prefix xs (codeOf (compileStmt s g))"
proof (induction s g rule: Stmt_induct_all)
  case (Expression e g)
  show ?case by (simp add: prefix_steps prefix_compileExpr)
next
  case (Let nm i g)
  show ?case by (cases i) (simp_all add: Let_def prefix_steps prefix_compileExpr)
next
  case (Function nm ps b g)
  show ?case by (simp add: prefix_steps)
next
  case (If c t e g)
  show ?case
  proof (intro allI impI)
    fix xs assume h: "prefix xs (codeOf g)"
    define g1 where "g1 = emitJump OP_JUMP_IF_FALSE (compileExpr c g)"
    define g2 where "g2 = emitJump OP_JUMP (compileStmt t g1)"
    define g3 where "g3 = patchJump (size_sub (length (codeOf g1)) 1) g2"
    define g4 where "g4 = (case e of Some s \<Rightarrow> compileStmt s g3 | None \<Rightarrow> g3)"
    have eq: "compileStmt (IfStmt c t e) g = patchJump (size_sub (length (codeOf g2)) 1) g4"
      unfolding g1_def g2_def g3_def g4_def by (simp add: Let_def split: option.splits)
    have p0: "prefix xs (codeOf (compileExpr c g))" using h by (rule prefix_compileExpr)
    then have l0: "length xs \<le> length (codeOf (compileExpr c g))" by (rule prefix_length_le)
    have p1: "prefix xs (codeOf g1)" using p0 by (simp add: g1_def prefix_steps)
    have l1: "length xs \<le> size_sub (length (codeOf g1)) 1" using l0 by (simp add: g1_def)
    have p1': "prefix (codeOf g1) (codeOf (compileStmt t g1))" using If(1) by blast
    have p2: "prefix xs (codeOf g2)" using If(1) p1 by (simp add: g2_def prefix_steps)
    have l2: "length (codeOf g1) \<le> size_sub (length (codeOf g2)) 1"
      using prefix_length_le [OF p1'] by (simp add: g2_def)
    have p3: "prefix xs (codeOf g3)" using p2 l1 by (simp add: g3_def prefix_patchJump)
    have p4: "prefix xs (codeOf g4)" using p3 If(2) by (cases e) (simp_all add: g4_def)
    have "length xs \<le> size_sub (length (codeOf g2)) 1"
      using l2 l0 by (simp add: g1_def)
    then show "prefix xs (codeOf (compileStmt (IfStmt c t e) g))"
      unfolding eq using p4 by (simp add: prefix_patchJump)
  qed
next
  case (While c b g)
  show ?case
  proof (intro allI impI)
    fix xs assume h: "prefix xs (codeOf g)"
    define g1 where "g1 = emitJump OP_JUMP_IF_FALSE (compileExpr c g)"
    define g2 where "g2 = emitLoop (length (codeOf g)) (compileStmt b g1)"
    have eq: "compileStmt (WhileStmt c b) g = patchJump (size_sub (length (codeOf g1)) 1) g2"
      by (simp add: Let_def g1_def g2_def)
    have p0: "prefix xs (codeOf (compileExpr c g))" using h by (rule prefix_compileExpr)
    then have l0: "length xs \<le> length (codeOf (compileExpr c g))" by (rule prefix_length_le)
    have p1: "prefix xs (codeOf g1)" using p0 by (simp add: g1_def prefix_steps)
    have l1: "length xs \<le> size_sub (length (codeOf g1)) 1" using l0 by (simp add: g1_def)
    have p2: "prefix xs (codeOf g2)" using While p1 by (simp add: g2_def prefix_steps)
    show "prefix xs (codeOf (compileStmt (WhileStmt c b) g))"
      unfolding eq using p2 l1 by (simp add: prefix_patchJump)
  qed
next
  case (Return k v g)
  show ?case by (cases v) (simp_all add: prefix_steps prefix_compileExpr)
next
  case (Print e g)
  show ?case by (simp add: prefix_steps prefix_compileExpr)
next
  case (Block ss g)
  have "\<And>s g xs. s \<in> set ss \<Longrightarrow> prefix xs (codeOf g) \<longrightarrow> prefix xs (codeOf (compileStmt s g))"
    using Block by blast
  then have "\<And>xs. prefix xs (codeOf (beginScope g)) \<longrightarrow>
      prefix xs (codeOf (compileStatements ss (beginScope g)))"
    by (rule prefix_compileStatements)
  then show ?case by (simp add: prefix_steps)
qed

lemma prefix_compileStmt: "prefix (codeOf g) (codeOf (compileStmt s g))"
  using prefix_compileStmt_aux by blast

section \<open>Patching the jumps of if and while\<close>

lemma length_compileExpr_le: "length (codeOf g) \<le> length (codeOf (compileExpr e g))"
  by (rule prefix_length_le) (simp add: prefix_compileExpr)

lemma length_compileStmt_le: "length (codeOf g) \<le> length (codeOf (compileStmt s g))"
  by (rule prefix_length_le) (rule prefix_compileStmt)

lemma prefix_nth: "prefix xs ys \<Longrightarrow> i < length xs \<Longrightarrow> ys ! i = xs ! i"
  by (auto simp: prefix_def nth_append)

lemma compileStmt_nth:
  "i < length (codeOf g) \<Longrightarrow> codeOf (compileStmt s g) ! i = codeOf g ! i"
  using prefix_compileStmt by (rule prefix_nth)

lemma code_afterCondition:
  "codeOf (afterCondition c g) =
     codeOf (compileExpr c g) @ [\<lparr>opcode = OP_JUMP_IF_FALSE, operand = 255, inlined_constant = VNil\<rparr>]"
  by (simp add: afterCondition_def emitJump_def Chunk_write_def)

lemma compileStmt_If:
  "compileStmt (IfStmt c t e) g =
     patchJump (length (codeOf (compileStmt t (afterCondition c g))))
       (case e of None \<Rightarrow> afterThen c t g | Some s \<Rightarrow> compileStmt s (afterThen c t g))"
  by (simp add: Let_def afterCondition_def afterThen_def split: option.splits)

lemma patchJump_cases:
  assumes "off < length (codeOf g)"
  shows "length (codeOf g) - 1 - off \<le> 255 \<Longrightarrow>
           patchJump off g = g\<lparr>m_chunk := (m_chunk g)\<lparr>code :=
             (codeOf g)[off := (codeOf g ! off)\<lparr>operand := of_nat (length (codeOf g) - 1 - off)\<rparr>]\<rparr>\<rparr>"
    and "255 < length (codeOf g) - 1 - off \<Longrightarrow> patchJump off g = error ''Jump too far.'' g"
  using assms by (simp_all add: patchJump_def Let_def)

lemma afterThen_ok:
  assumes "length (codeOf (compileStmt t (afterCondition c g))) =
             length (codeOf (afterCondition c g)) + body"
    and "body \<le> 254"
  shows "m_hadError (afterThen c t g) = m_hadError (compileStmt t (afterCondition c g))"
    and "m_error (afterThen c t g) = m_error (compileStmt t (afterCondition c g))"
    and "codeOf (afterThen c t g) ! length (codeOf (compileExpr c g)) =
           \<lparr>opcode = OP_JUMP_IF_FALSE, operand = of_nat (body + 1), inlined_constant = VNil\<rparr>"
    and "length (codeOf (afterThen c t g)) = length (codeOf (compileExpr c g)) + body + 2"
proof -
  let ?j = "length (codeOf (compileExpr c g))"
  let ?g2 = "emitJump OP_JUMP (compileStmt t (afterCondition c g))"
  have len2: "length (codeOf ?g2) = ?j + body + 2"
    using assms(1) by (simp add: code_afterCondition)
  have nth: "codeOf ?g2 ! ?j = \<lparr>opcode = OP_JUMP_IF_FALSE, operand = 255, inlined_constant = VNil\<rparr>"
    using compileStmt_nth [of ?j "afterCondition c g" t]
    by (simp add: emitJump_def Chunk_write_def nth_append assms(1) code_afterCondition)
  have eq: "afterThen c t g = ?g2\<lparr>m_chunk := (m_chunk ?g2)\<lparr>code :=
             (codeOf ?g2)[?j := (codeOf ?g2 ! ?j)\<lparr>operand := of_nat (body + 1)\<rparr>]\<rparr>\<rparr>"
    unfolding afterThen_def using patchJump_cases(1) [of ?j ?g2] assms(2) len2 by simp
  show "m_hadError (afterThen c t g) = m_hadError (compileStmt t (afterCondition c g))"
    by (simp add: eq)
  show "m_error (afterThen c t g) = m_error (compileStmt t (afterCondition c g))"
    by (simp add: eq emitJump_def)
  show "codeOf (afterThen c t g) ! ?j =
           \<lparr>opcode = OP_JUMP_IF_FALSE, operand = of_nat (body + 1), inlined_constant = VNil\<rparr>"
    using len2 by (simp add: eq nth)
  show "length (codeOf (afterThen c t g)) = ?j + body + 2"
    using len2 by (simp add: afterThen_def)
qed

lemma afterThen_too_far:
  assumes "length (codeOf (compileStmt t (afterCondition c g))) =
             length (codeOf (afterCondition c g)) + body"
    and "255 \<le> body"
  shows "afterThen c t g =
           error ''Jump too far.'' (emitJump OP_JUMP (compileStmt t (afterCondition c g)))"
proof -
  let ?j = "length (codeOf (compileExpr c g))"
  let ?g2 = "emitJump OP_JUMP (compileStmt t (afterCondition c g))"
  have len2: "length (codeOf ?g2) = ?j + body + 2"
    using assms(1) by (simp add: code_afterCondition)
  show ?thesis
    unfolding afterThen_def using patchJump_cases(2) [of ?j ?g2] assms(2) len2 by simp
qed

lemma nth_patchJump_other:
  "i \<noteq> off \<Longrightarrow> codeOf (patchJump off g) ! i = codeOf g ! i"
  by (simp add: patchJump_def Let_def)

lemma if_then_ok:
  assumes "length (codeOf (compileStmt t (afterCondition c g))) =
             length (codeOf (afterCondition c g)) + body"
    and "body \<le> 254"
  shows "codeOf (compileStmt (IfStmt c t e) g) ! length (codeOf (compileExpr c g)) =
           \<lparr>opcode = OP_JUMP_IF_FALSE, operand = of_nat (body + 1), inlined_constant = VNil\<rparr>"
proof -
  let ?j = "length (codeOf (compileExpr c g))"
  let ?g4 = "case e of None \<Rightarrow> afterThen c t g | Some s \<Rightarrow> compileStmt s (afterThen c t g)"
  have j: "?j < length (codeOf (afterThen c t g))"
    using afterThen_ok(4) [OF assms] by simp
  have "codeOf ?g4 ! ?j = codeOf (afterThen c t g) ! ?j"
    using j by (cases e) (simp_all add: compileStmt_nth)
  moreover have "?j \<noteq> length (codeOf (compileStmt t (afterCondition c g)))"
    using assms(1) by (simp add: code_afterCondition)
  ultimately show ?thesis
    using afterThen_ok(3) [OF assms] by (simp add: compileStmt_If nth_patchJump_other del: compileStmt.simps)
qed

lemma if_no_else_ok:
  assumes "length (codeOf (compileStmt t (afterCondition c g))) =
             length (codeOf (afterCondition c g)) + body"
    and "body \<le> 254"
  shows "m_hadError (compileStmt (IfStmt c t None) g) = m_hadError (compileStmt t (afterCondition c g))"
    and "m_error (compileStmt (IfStmt c t None) g) = m_error (compileStmt t (afterCondition c g))"
proof -
  let ?k = "length (codeOf (compileStmt t (afterCondition c g)))"
  have len: "length (codeOf (afterThen c t g)) = ?k + 1"
    using afterThen_ok(4) [OF assms] assms(1) by (simp add: code_afterCondition)
  have eq: "compileStmt (IfStmt c t None) g =
      (afterThen c t g)\<lparr>m_chunk := (m_chunk (afterThen c t g))\<lparr>code :=
         (codeOf (afterThen c t g))[?k := (codeOf (afterThen c t g) ! ?k)\<lparr>operand := of_nat 0\<rparr>]\<rparr>\<rparr>"
    using patchJump_cases(1) [of ?k "afterThen c t g"] len by (simp add: compileStmt_If del: compileStmt.simps)
  show "m_hadError (compileStmt (IfStmt c t None) g) = m_hadError (compileStmt t (afterCondition c g))"
    unfolding eq using afterThen_ok(1) [OF assms] by simp
  show "m_error (compileStmt (IfStmt c t None) g) = m_error (compileStmt t (afterCondition c g))"
    unfolding eq using afterThen_ok(2) [OF assms] by simp
qed

lemma if_then_too_far:
  assumes "length (codeOf (compileStmt t (afterCondition c g))) =
             length (codeOf (afterCondition c g)) + body"
    and "255 \<le> body"
  shows "m_hadError (compileStmt (IfStmt c t e) g)"
    and "m_error (compileStmt (IfStmt c t None) g) = ''Jump too far.''"
proof -
  let ?k = "length (codeOf (compileStmt t (afterCondition c g)))"
  have a: "m_hadError (afterThen c t g)"
    by (simp add: afterThen_too_far [OF assms])
  then have "m_hadError (case e of None \<Rightarrow> afterThen c t g | Some s \<Rightarrow> compileStmt s (afterThen c t g))"
    using sticky_compileStmt by (cases e) auto
  then show "m_hadError (compileStmt (IfStmt c t e) g)"
    by (simp add: compileStmt_If sticky_patchJump del: compileStmt.simps)
  have len: "length (codeOf (afterThen c t g)) = ?k + 1"
    by (simp add: afterThen_def)
  have "m_error (patchJump ?k (afterThen c t g)) = m_error (afterThen c t g)"
    using patchJump_cases(1) [of ?k "afterThen c t g"] len by simp
  then show "m_error (compileStmt (IfStmt c t None) g) = ''Jump too far.''"
    by (simp add: compileStmt_If afterThen_too_far [OF assms] error_def del: compileStmt.simps)
qed

lemma if_else_patch:
  assumes "length (codeOf (compileStmt s (afterThen c t g))) = length (codeOf (afterThen c t g)) + els"
  shows "els \<le> 255 \<Longrightarrow>
           m_hadError (compileStmt (IfStmt c t (Some s)) g) = m_hadError (compileStmt s (afterThen c t g))
           \<and> m_error (compileStmt (IfStmt c t (Some s)) g) = m_error (compileStmt s (afterThen c t g))
           \<and> codeOf (compileStmt (IfStmt c t (Some s)) g) ! length (codeOf (compileStmt t (afterCondition c g))) =
               \<lparr>opcode = OP_JUMP, operand = of_nat els, inlined_constant = VNil\<rparr>"
    and "256 \<le> els \<Longrightarrow>
           m_hadError (compileStmt (IfStmt c t (Some s)) g)
           \<and> m_error (compileStmt (IfStmt c t (Some s)) g) = ''Jump too far.''"
proof -
  let ?k = "length (codeOf (compileStmt t (afterCondition c g)))"
  let ?g4 = "compileStmt s (afterThen c t g)"
  have len3: "length (codeOf (afterThen c t g)) = ?k + 1"
    by (simp add: afterThen_def)
  have len4: "length (codeOf ?g4) = ?k + 1 + els"
    using assms len3 by simp
  have "codeOf (afterThen c t g) ! ?k = \<lparr>opcode = OP_JUMP, operand = 255, inlined_constant = VNil\<rparr>"
  proof -
    have "length (codeOf (compileExpr c g)) \<noteq> ?k"
      using length_compileStmt_le [of "afterCondition c g" t] by (simp add: code_afterCondition)
    then show ?thesis
      by (simp add: afterThen_def nth_patchJump_other) (simp add: emitJump_def Chunk_write_def)
  qed
  then have nth4: "codeOf ?g4 ! ?k = \<lparr>opcode = OP_JUMP, operand = 255, inlined_constant = VNil\<rparr>"
    using len3 by (simp add: compileStmt_nth)
  show "els \<le> 255 \<Longrightarrow>
           m_hadError (compileStmt (IfStmt c t (Some s)) g) = m_hadError ?g4
           \<and> m_error (compileStmt (IfStmt c t (Some s)) g) = m_error ?g4
           \<and> codeOf (compileStmt (IfStmt c t (Some s)) g) ! ?k =
               \<lparr>opcode = OP_JUMP, operand = of_nat els, inlined_constant = VNil\<rparr>"
    using patchJump_cases(1) [of ?k ?g4] len4 nth4 by (simp add: compileStmt_If del: compileStmt.simps)
  show "256 \<le> els \<Longrightarrow>
           m_hadError (compileStmt (IfStmt c t (Some s)) g)
           \<and> m_error (compileStmt (IfStmt c t (Some s)) g) = ''Jump too far.''"
    using patchJump_cases(2) [of ?k ?g4] len4 by (simp add: compileStmt_If error_def del: compileStmt.simps)
qed

lemma compileStmt_While:
  "compileStmt (WhileStmt c b) g =
     patchJump (length (codeOf (compileExpr c g)))
       (emitLoop (length (codeOf g)) (compileStmt b (afterCondition c g)))"
  by (simp add: Let_def afterCondition_def)

lemma while_ok:
  assumes "length (codeOf (compileExpr c g)) = length (codeOf g) + cond"
    and "length (codeOf (compileStmt b (afterCondition c g))) =
           length (codeOf (afterCondition c g)) + body"
    and "cond + body + 1 \<le> 255"
  shows "m_hadError (compileStmt (WhileStmt c b) g) = m_hadError (compileStmt b (afterCondition c g))"
    and "m_error (compileStmt (WhileStmt c b) g) = m_error (compileStmt b (afterCondition c g))"
    and "codeOf (compileStmt (WhileStmt c b) g) ! (length (codeOf g) + cond) =
           \<lparr>opcode = OP_JUMP_IF_FALSE, operand = of_nat (body + 1), inlined_constant = VNil\<rparr>"
    and "last (codeOf (compileStmt (WhileStmt c b) g)) =
           \<lparr>opcode = OP_LOOP, operand = of_nat (cond + body + 1), inlined_constant = VNil\<rparr>"
proof -
  let ?j = "length (codeOf g) + cond"
  let ?B = "compileStmt b (afterCondition c g)"
  let ?g2 = "?B\<lparr>m_chunk := Chunk_write OP_LOOP 0 (of_nat (cond + body + 1)) (m_chunk ?B)\<rparr>"
  have lenB: "length (codeOf ?B) = ?j + 1 + body"
    using assms(1,2) by (simp add: code_afterCondition)
  have loop: "emitLoop (length (codeOf g)) ?B = ?g2"
    using assms(3) lenB by (simp add: emitLoop_def Let_def)
  have len2: "length (codeOf ?g2) = ?j + body + 2"
    using lenB by (simp add: Chunk_write_def)
  have nthB: "codeOf ?B ! ?j = \<lparr>opcode = OP_JUMP_IF_FALSE, operand = 255, inlined_constant = VNil\<rparr>"
    using compileStmt_nth [of ?j "afterCondition c g" b] assms(1)
    by (simp add: code_afterCondition nth_append)
  have nth2: "codeOf ?g2 ! ?j = \<lparr>opcode = OP_JUMP_IF_FALSE, operand = 255, inlined_constant = VNil\<rparr>"
    using nthB lenB by (simp add: Chunk_write_def nth_append)
  have eq: "compileStmt (WhileStmt c b) g =
      ?g2\<lparr>m_chunk := (m_chunk ?g2)\<lparr>code :=
         (codeOf ?g2)[?j := (codeOf ?g2 ! ?j)\<lparr>operand := of_nat (body + 1)\<rparr>]\<rparr>\<rparr>"
    unfolding compileStmt_While loop assms(1)
    using patchJump_cases(1) [of ?j ?g2] assms(3) len2 by simp
  show "m_hadError (compileStmt (WhileStmt c b) g) = m_hadError ?B"
    unfolding eq by simp
  show "m_error (compileStmt (WhileStmt c b) g) = m_error ?B"
    unfolding eq by simp
  show "codeOf (compileStmt (WhileStmt c b) g) ! ?j =
           \<lparr>opcode = OP_JUMP_IF_FALSE, operand = of_nat (body + 1), inlined_constant = VNil\<rparr>"
    unfolding eq using len2 nth2 by simp
  show "last (codeOf (compileStmt (WhileStmt c b) g)) =
           \<lparr>opcode = OP_LOOP, operand = of_nat (cond + body + 1), inlined_constant = VNil\<rparr>"
    unfolding eq using lenB by (simp add: Chunk_write_def last_list_update)
qed

lemma while_too_large:
  assumes "length (codeOf (compileExpr c g)) = length (codeOf g) + cond"
    and "length (codeOf (compileStmt b (afterCondition c g))) =
           length (codeOf (afterCondition c g)) + body"
    and "255 < cond + body + 1"
  shows "m_hadError (compileStmt (WhileStmt c b) g)"
    and "m_error (compileStmt (WhileStmt c b) g) =
           (if 255 < body then ''Jump too far.'' else ''Loop body too large.'')"
proof -
  let ?j = "length (codeOf g) + cond"
  let ?B = "compileStmt b (afterCondition c g)"
  have lenB: "length (codeOf ?B) = ?j + 1 + body"
    using assms(1,2) by (simp add: code_afterCondition)
  have loop: "emitLoop (length (codeOf g)) ?B = error ''Loop body too large.'' ?B"
    using assms(3) lenB by (simp add: emitLoop_def Let_def)
  have eq: "compileStmt (WhileStmt c b) g = patchJump ?j (error ''Loop body too large.'' ?B)"
    unfolding compileStmt_While loop assms(1) by simp
  show "m_hadError (compileStmt (WhileStmt c b) g)"
    unfolding eq by (simp add: sticky_patchJump)
  show "m_error (compileStmt (WhileStmt c b) g) =
           (if 255 < body then ''Jump too far.'' else ''Loop body too large.'')"
  proof (cases "255 < body")
    case True
    then show ?thesis
      unfolding eq using patchJump_cases(2) [of ?j "error ''Loop body too large.'' ?B"] lenB
      by (simp add: error_def)
  next
    case False
    then show ?thesis
      unfolding eq using patchJump_cases(1) [of ?j "error ''Loop body too large.'' ?B"] lenB
      by (simp add: error_def)
  qed
qed

lemma compileStatements_append:
  "compileStatements (xs @ ys) g = compileStatements ys (compileStatements xs g)"
  by (induction xs arbitrary: g) simp_all

lemma printTrue_compiled:
  "compileStmt printTrue g =
     g\<lparr>m_chunk := (m_chunk g)\<lparr>code := codeOf g @ [plain OP_TRUE, plain OP_PRINT],
                               lines := lines (m_chunk g) @ [0, 0]\<rparr>\<rparr>"
  by (simp add: printTrue_def compileLiteralExpr_def emitByte_def Chunk_write_def plain_def)

lemma printTrue_replicate:
  "m_hadError (compileStatements (replicate n printTrue) g) = m_hadError g
   \<and> m_error (compileStatements (replicate n printTrue) g) = m_error g
   \<and> m_locals (compileStatements (replicate n printTrue) g) = m_locals g
   \<and> m_scopeDepth (compileStatements (replicate n printTrue) g) = m_scopeDepth g
   \<and> length (codeOf (compileStatements (replicate n printTrue) g)) = length (codeOf g) + 2 * n"
  by (induction n arbitrary: g) (simp_all add: printTrue_compiled)

lemma printMinusOne_frame:
  "m_hadError (compileStmt printMinusOne g) = m_hadError g
   \<and> m_error (compileStmt printMinusOne g) = m_error g
   \<and> m_locals (compileStmt printMinusOne g) = m_locals g
   \<and> m_scopeDepth (compileStmt printMinusOne g) = m_scopeDepth g
   \<and> length (codeOf (compileStmt printMinusOne g)) = length (codeOf g) + 3"
  by (simp add: printMinusOne_def operatorToken_def compileLiteralExpr_def emitUnaryOperator_def
      emitByte_def writeConstant_def addConstant_def Chunk_write_def)

lemma endScope_loop_no_locals: "m_locals g = [] \<Longrightarrow> endScope_loop g = g"
  by (subst endScope_loop.simps) simp

lemma printBlock_compiled:
  assumes "m_locals g = []" and "m_scopeDepth g < 1000"
  shows "m_hadError (compileStmt (printBlock n extra) g) = m_hadError g
   \<and> m_error (compileStmt (printBlock n extra) g) = m_error g
   \<and> m_locals (compileStmt (printBlock n extra) g) = []
   \<and> m_scopeDepth (compileStmt (printBlock n extra) g) = m_scopeDepth g
   \<and> length (codeOf (compileStmt (printBlock n extra) g)) =
       length (codeOf g) + 2 * n + (if extra then 3 else 0)"
proof -
  let ?b = "beginScope g"
  let ?m = "compileStatements (replicate n printTrue) ?b"
  let ?e = "compileStatements (replicate n printTrue @ (if extra then [printMinusOne] else [])) ?b"
  have b: "m_locals ?b = []" "m_scopeDepth ?b = m_scopeDepth g + 1" "m_hadError ?b = m_hadError g"
    "m_error ?b = m_error g" "codeOf ?b = codeOf g"
    using assms by (simp_all add: beginScope_def size_add_def)
  have e: "m_hadError ?e = m_hadError g \<and> m_error ?e = m_error g \<and> m_locals ?e = []
      \<and> m_scopeDepth ?e = m_scopeDepth g + 1
      \<and> length (codeOf ?e) = length (codeOf g) + 2 * n + (if extra then 3 else 0)"
    using printTrue_replicate [of n ?b] printMinusOne_frame [of ?m] b
    by (simp add: compileStatements_append)
  have "endScope ?e = ?e\<lparr>m_scopeDepth := m_scopeDepth g\<rparr>"
    using e by (simp add: endScope_def endScope_loop_no_locals)
  then show ?thesis
    using e by (simp add: printBlock_def)
qed

lemma frame_patchJump [simp]:
  "m_locals (patchJump off g) = m_locals g" "m_scopeDepth (patchJump off g) = m_scopeDepth g"
  by (simp_all add: patchJump_def Let_def error_def)

lemma frame_emitJump [simp]:
  "m_locals (emitJump op g) = m_locals g" "m_scopeDepth (emitJump op g) = m_scopeDepth g"
  "m_error (emitJump op g) = m_error g"
  by (simp_all add: emitJump_def)

lemma scriptStart:
  "beginScope IRGenerator_init =
     \<lparr>m_chunk = emptyChunk, m_locals = [], m_scopeDepth = 1, m_hadError = False, m_error = []\<rparr>"
  by (simp add: beginScope_def IRGenerator_init_def size_add_def)

lemma trueLiteral_compiled:
  "compileExpr trueLiteral g = emitByte OP_TRUE 0 g"
  by (simp add: trueLiteral_def compileLiteralExpr_def)

lemma print_if_facts:
  fixes g0 :: "int IRGenerator"
  defines "g0 \<equiv> beginScope IRGenerator_init"
  shows "length (codeOf (compileExpr trueLiteral g0)) = length (codeOf g0) + 1"
    and "length (codeOf (compileStmt (printBlock n x) (afterCondition trueLiteral g0))) =
           length (codeOf (afterCondition trueLiteral g0)) + (2 * n + (if x then 3 else 0))"
    and "\<not> m_hadError (compileStmt (printBlock n x) (afterCondition trueLiteral g0))"
    and "length (codeOf (compileStmt (printBlock m y) (afterThen trueLiteral (printBlock n x) g0))) =
           length (codeOf (afterThen trueLiteral (printBlock n x) g0)) + (2 * m + (if y then 3 else 0))"
    and "m_hadError (compileStmt (printBlock m y) (afterThen trueLiteral (printBlock n x) g0)) =
           m_hadError (afterThen trueLiteral (printBlock n x) g0)"
proof -
  let ?g1 = "afterCondition trueLiteral g0"
  have g1: "m_locals ?g1 = []" "m_scopeDepth ?g1 < 1000" "\<not> m_hadError ?g1"
    by (simp_all add: afterCondition_def trueLiteral_compiled g0_def scriptStart emitByte_def)
  show "length (codeOf (compileExpr trueLiteral g0)) = length (codeOf g0) + 1"
    by (simp add: trueLiteral_compiled)
  show 2: "length (codeOf (compileStmt (printBlock n x) ?g1)) =
           length (codeOf ?g1) + (2 * n + (if x then 3 else 0))"
    using printBlock_compiled [OF g1(1,2), of n x] by simp
  show "\<not> m_hadError (compileStmt (printBlock n x) ?g1)"
    using printBlock_compiled [OF g1(1,2), of n x] g1(3) by simp
  let ?g3 = "afterThen trueLiteral (printBlock n x) g0"
  have g3: "m_locals ?g3 = []" "m_scopeDepth ?g3 < 1000"
    using printBlock_compiled [OF g1(1,2), of n x] g1(2) by (simp_all add: afterThen_def)
  show "length (codeOf (compileStmt (printBlock m y) ?g3)) =
           length (codeOf ?g3) + (2 * m + (if y then 3 else 0))"
    using printBlock_compiled [OF g3, of m y] by simp
  show "m_hadError (compileStmt (printBlock m y) ?g3) = m_hadError ?g3"
    using printBlock_compiled [OF g3, of m y] by simp
qed

text \<open>
  C7 (as amended). Name the instruction counts of the condition (\<open>cond\<close>), of the
  statement \<open>t\<close> lowered after the condition and its placeholder (\<open>body\<close>) and of the
  else-branch \<open>s\<close> (\<open>els\<close>). The placeholder is patched to the distance
  \<^verbatim>\<open>code.size() - 1 - offset\<close> when that is at most 255, and lowering fails with
  \<^verbatim>\<open>Jump too far.\<close> otherwise.
  \<^item> For the then-branch \<open>t\<close> of an \<^verbatim>\<open>if\<close> the distance is \<open>body + 1\<close>: it counts the
    \<open>OP_JUMP\<close> emitted after the branch. A branch of up to 254 instructions is patched
    and raises no error; one of 255 or more fails.
  \<^item> For the else-branch the distance is \<open>els\<close>: 255 instructions are patched, 256 fail.
  \<^item> For the body \<open>t\<close> of a \<^verbatim>\<open>while\<close> the distance is \<open>body + 1\<close> too (it counts the
    \<open>OP_LOOP\<close>), and the \<open>OP_LOOP\<close> operand is \<open>cond + body + 1\<close>: when that is at most
    255 both are written; otherwise lowering fails, the last message being
    \<^verbatim>\<open>Loop body too large.\<close> for a body of at most 255 instructions and
    \<^verbatim>\<open>Jump too far.\<close> above.
\<close>

theorem jump_patch_boundary:
  assumes "length (code (m_chunk (compileExpr c g))) = length (code (m_chunk g)) + cond"
    and "length (code (m_chunk (compileStmt t (afterCondition c g)))) =
           length (code (m_chunk (afterCondition c g))) + body"
    and "length (code (m_chunk (compileStmt s (afterThen c t g)))) =
           length (code (m_chunk (afterThen c t g))) + els"
  shows
    "(body \<le> 254 \<longrightarrow>
        code (m_chunk (compileStmt (IfStmt c t e) g)) ! (length (code (m_chunk g)) + cond) =
          \<lparr>opcode = OP_JUMP_IF_FALSE, operand = of_nat (body + 1), inlined_constant = VNil\<rparr>
        \<and> m_hadError (compileStmt (IfStmt c t None) g) =
            m_hadError (compileStmt t (afterCondition c g))
        \<and> m_error (compileStmt (IfStmt c t None) g) =
            m_error (compileStmt t (afterCondition c g)))
     \<and> (255 \<le> body \<longrightarrow>
          m_hadError (compileStmt (IfStmt c t e) g)
          \<and> m_error (compileStmt (IfStmt c t None) g) = ''Jump too far.'')
     \<and> (els \<le> 255 \<longrightarrow>
          code (m_chunk (compileStmt (IfStmt c t (Some s)) g)) !
              (length (code (m_chunk g)) + cond + 1 + body) =
            \<lparr>opcode = OP_JUMP, operand = of_nat els, inlined_constant = VNil\<rparr>
          \<and> m_hadError (compileStmt (IfStmt c t (Some s)) g) =
              m_hadError (compileStmt s (afterThen c t g))
          \<and> m_error (compileStmt (IfStmt c t (Some s)) g) =
              m_error (compileStmt s (afterThen c t g)))
     \<and> (256 \<le> els \<longrightarrow>
          m_hadError (compileStmt (IfStmt c t (Some s)) g)
          \<and> m_error (compileStmt (IfStmt c t (Some s)) g) = ''Jump too far.'')
     \<and> (cond + body + 1 \<le> 255 \<longrightarrow>
          code (m_chunk (compileStmt (WhileStmt c t) g)) ! (length (code (m_chunk g)) + cond) =
            \<lparr>opcode = OP_JUMP_IF_FALSE, operand = of_nat (body + 1), inlined_constant = VNil\<rparr>
          \<and> last (code (m_chunk (compileStmt (WhileStmt c t) g))) =
              \<lparr>opcode = OP_LOOP, operand = of_nat (cond + body + 1), inlined_constant = VNil\<rparr>
          \<and> m_hadError (compileStmt (WhileStmt c t) g) =
              m_hadError (compileStmt t (afterCondition c g))
          \<and> m_error (compileStmt (WhileStmt c t) g) =
              m_error (compileStmt t (afterCondition c g)))
     \<and> (255 < cond + body + 1 \<longrightarrow>
          m_hadError (compileStmt (WhileStmt c t) g)
          \<and> m_error (compileStmt (WhileStmt c t) g) =
              (if 255 < body then ''Jump too far.'' else ''Loop body too large.''))"
proof -
  have k: "length (code (m_chunk (compileStmt t (afterCondition c g)))) =
      length (code (m_chunk g)) + cond + 1 + body"
    using assms(1,2) by (simp add: code_afterCondition)
  show ?thesis
    using if_then_ok [OF assms(2), of e] if_no_else_ok [OF assms(2)]
      if_then_too_far(1) [OF assms(2), of e] if_then_too_far(2) [OF assms(2)]
      if_else_patch [OF assms(3)]
      while_ok [OF assms(1,2)] while_too_large [OF assms(1,2)]
    unfolding assms(1) k
    by (simp del: compileStmt.simps)
qed

lemma print_else_no_error:
  assumes "2 * n + (if x then 3 else 0) \<le> 254"
  shows "\<not> m_hadError (compileStmt (printBlock m y)
           (afterThen trueLiteral (printBlock n x) (beginScope IRGenerator_init)))"
  using afterThen_ok(1) [OF print_if_facts(2) assms] print_if_facts(3) [of n x]
    print_if_facts(5) [of m y n x]
  by simp

theorem jump_patch_boundary_witness:
  "code (m_chunk (compileStmt (IfStmt trueLiteral (printBlock 127 False) None)
       (beginScope IRGenerator_init))) ! 1 =
     \<lparr>opcode = OP_JUMP_IF_FALSE, operand = 255, inlined_constant = VNil\<rparr>
   \<and> \<not> m_hadError (compileStmt (IfStmt trueLiteral (printBlock 127 False) None)
         (beginScope IRGenerator_init))
   \<and> m_hadError (compileStmt (IfStmt trueLiteral (printBlock 126 True) None)
         (beginScope IRGenerator_init))
   \<and> code (m_chunk (compileStmt (IfStmt trueLiteral (printBlock 127 False) (Some (printBlock 126 True)))
         (beginScope IRGenerator_init))) ! 256 =
       \<lparr>opcode = OP_JUMP, operand = 255, inlined_constant = VNil\<rparr>
   \<and> \<not> m_hadError (compileStmt (IfStmt trueLiteral (printBlock 127 False) (Some (printBlock 126 True)))
         (beginScope IRGenerator_init))
   \<and> m_hadError (compileStmt (IfStmt trueLiteral (printBlock 127 False) (Some (printBlock 128 False)))
         (beginScope IRGenerator_init))
   \<and> \<not> m_hadError (compileStmt (WhileStmt trueLiteral (printBlock 126 False))
         (beginScope IRGenerator_init))
   \<and> m_error (compileStmt (WhileStmt trueLiteral (printBlock 127 False))
         (beginScope IRGenerator_init)) = ''Loop body too large.''"
proof -
  note A = jump_patch_boundary
    [OF print_if_facts(1) print_if_facts(2) [of 127 False] print_if_facts(4) [of 126 True 127 False],
     where e = None]
  note B = jump_patch_boundary
    [OF print_if_facts(1) print_if_facts(2) [of 126 True] print_if_facts(4) [of 126 True 126 True],
     where e = None]
  note C = jump_patch_boundary
    [OF print_if_facts(1) print_if_facts(2) [of 127 False] print_if_facts(4) [of 128 False 127 False],
     where e = None]
  note D = jump_patch_boundary
    [OF print_if_facts(1) print_if_facts(2) [of 126 False] print_if_facts(4) [of 126 True 126 False],
     where e = None]
  have n: "\<not> m_hadError (compileStmt (printBlock 127 False)
      (afterCondition trueLiteral (beginScope IRGenerator_init)))"
    "\<not> m_hadError (compileStmt (printBlock 126 False)
      (afterCondition trueLiteral (beginScope IRGenerator_init)))"
    by (rule print_if_facts(3))+
  have e: "\<not> m_hadError (compileStmt (printBlock 126 True)
           (afterThen trueLiteral (printBlock 127 False) (beginScope IRGenerator_init)))"
    by (rule print_else_no_error) simp
  show ?thesis
    using A B C D n e by (simp add: scriptStart emptyChunk_def del: compileStmt.simps)
qed

text \<open>
  The claim as stated fails for a then-branch of exactly 255 instructions
  (\<^verbatim>\<open>if (true) { print true; ... print -1; }\<close> with 126 times \<^verbatim>\<open>print true;\<close>):
  compilation fails with \<^verbatim>\<open>Jump too far.\<close>.
\<close>

theorem then_branch_of_255_is_too_far:
  "m_hadError (IRGenerator_compile [IfStmt trueLiteral (printBlock 126 True) None])
   \<and> m_error (IRGenerator_compile [IfStmt trueLiteral (printBlock 126 True) None]) = ''Jump too far.''
   \<and> length (code (m_chunk (compileStmt (printBlock 126 True)
          (afterCondition trueLiteral (beginScope IRGenerator_init))))) =
       length (code (m_chunk (afterCondition trueLiteral (beginScope IRGenerator_init)))) + 255"
proof -
  let ?g0 = "beginScope IRGenerator_init :: int IRGenerator"
  have len: "length (codeOf (compileStmt (printBlock 126 True) (afterCondition trueLiteral ?g0))) =
       length (codeOf (afterCondition trueLiteral ?g0)) + 255"
    using print_if_facts(2) [of 126 True] by simp
  have "m_hadError (compileStmt (IfStmt trueLiteral (printBlock 126 True) None) ?g0)"
    by (rule if_then_too_far(1) [OF len]) simp
  moreover have "m_error (compileStmt (IfStmt trueLiteral (printBlock 126 True) None) ?g0) =
      ''Jump too far.''"
    by (rule if_then_too_far(2) [OF len]) simp
  ultimately show ?thesis
    using len by (simp add: IRGenerator_compile_def del: compileStmt.simps)
qed

section \<open>Evaluating the generator without local bindings\<close>

text \<open>
  The equations of \<open>compileStmt\<close> and \<open>compile_loop\<close> with their \<open>let\<close>s unfolded, so
  that the simplifier evaluates the arguments first.
\<close>

lemma compileStmt_LetStmt:
  "compileStmt (LetStmt nm i) g =
     markInitialized
       (case i of
          Some e \<Rightarrow> compileExpr e (declareVariable (lexeme nm) g)
        | None \<Rightarrow> emitByte OP_NIL 0 (declareVariable (lexeme nm) g))"
  by (simp add: Let_def)

lemma compile_loop_Cons:
  "compile_loop (s # ss) g =
     (if m_hadError (compileStmt s g) then compileStmt s g
      else compile_loop ss (compileStmt s g))"
  by (simp add: Let_def)

lemmas irgen_eval = IRGenerator_compile_def IRGenerator_init_def beginScope_def endScope_def
  endScope_loop.simps declareVariable_def resolveLocal_def markInitialized_def emitByte_def
  emitJump_def emitLoop_def [unfolded Let_def] patchJump_def [unfolded Let_def] error_def
  emitBinaryOperator_def emitUnaryOperator_def compileLiteralExpr_def
  compileVariableExpr_def [unfolded Let_def] emitSetLocal_def [unfolded Let_def]
  writeConstant_def addConstant_def [unfolded Let_def] Chunk_write_def emptyChunk_def
  size_add_def size_sub_def identifierToken_def operatorToken_def
   compileStmt_LetStmt compileStmt_If compileStmt_While
  afterCondition_def afterThen_def compile_loop_Cons

section \<open>The constant pool has no bound\<close>

lemma numberStatement_compiled:
  "compileStmt (numberStatement v) g =
     g\<lparr>m_chunk :=
         \<lparr>code = codeOf g @ [(plain OP_CONSTANT)\<lparr>operand := of_nat (length (constants (m_chunk g)))\<rparr>,
                             plain OP_POP],
          lines = lines (m_chunk g) @ [0, 0],
          constants = constants (m_chunk g) @ [VNumber v]\<rparr>\<rparr>"
  by (simp add: numberStatement_def compileLiteralExpr_def writeConstant_def addConstant_def
      Chunk_write_def emitByte_def plain_def)

lemma numberStatements_compiled:
  "m_hadError (compileStatements (map numberStatement vs) g) = m_hadError g
   \<and> m_locals (compileStatements (map numberStatement vs) g) = m_locals g
   \<and> m_scopeDepth (compileStatements (map numberStatement vs) g) = m_scopeDepth g
   \<and> constants (m_chunk (compileStatements (map numberStatement vs) g)) =
       constants (m_chunk g) @ map VNumber vs
   \<and> length (codeOf (compileStatements (map numberStatement vs) g)) =
       length (codeOf g) + 2 * length vs"
  by (induction vs arbitrary: g) (simp_all add: numberStatement_compiled)

lemma compile_loop_no_error:
  "\<not> m_hadError (compileStatements ss g) \<Longrightarrow>
     compile_loop ss g = emitByte OP_RETURN 0 (endScope (compileStatements ss g))"
proof (induction ss arbitrary: g)
  case Nil
  show ?case by simp
next
  case (Cons s ss)
  have "\<not> m_hadError (compileStmt s g)"
    using Cons.prems sticky_compileStatements_all [of "compileStmt s g" ss] by auto
  then show ?case using Cons by simp
qed

lemma upt_257: "[0..<257] = [0..<256] @ [256]"
  using upt_Suc_append [of 0 256] by simp

text \<open>
  C2. \<^verbatim>\<open>writeConstant\<close> has no check and no error: it casts the index to 8 bits.
  \<open>overflowProgram\<close> (257 number literals) compiles with no error; its last constant is
  at index 256 of the pool, and the \<open>OP_CONSTANT\<close> that loads it (instruction 512) has
  the operand 0, the index of another constant.
\<close>

theorem constant_index_wraps:
  "\<not> m_hadError (IRGenerator_compile overflowProgram)
   \<and> length (constants (m_chunk (IRGenerator_compile overflowProgram))) = 257
   \<and> constants (m_chunk (IRGenerator_compile overflowProgram)) ! 256 = VNumber 256
   \<and> constants (m_chunk (IRGenerator_compile overflowProgram)) ! 0 = VNumber 0
   \<and> code (m_chunk (IRGenerator_compile overflowProgram)) ! 512 =
       \<lparr>opcode = OP_CONSTANT, operand = 0, inlined_constant = VNil\<rparr>"
proof -
  let ?start = "beginScope IRGenerator_init :: int IRGenerator"
  let ?vs = "map int [0..<256]"
  let ?g = "compileStatements (map numberStatement ?vs) ?start"
  have p: "overflowProgram = map numberStatement ?vs @ [numberStatement 256]"
    by (simp add: overflowProgram_def upt_257)
  have g: "\<not> m_hadError ?g" "m_locals ?g = []" "constants (m_chunk ?g) = map VNumber ?vs"
    "length (codeOf ?g) = 512"
    using numberStatements_compiled [where vs = "?vs" and g = "?start"]
    by (simp_all add: scriptStart emptyChunk_def)
  let ?h = "compileStmt (numberStatement 256) ?g"
  have h: "compileStatements overflowProgram ?start = ?h"
    by (simp add: p compileStatements_append)
  have h1: "\<not> m_hadError ?h" "m_locals ?h = []"
    "constants (m_chunk ?h) = map VNumber ?vs @ [VNumber 256]"
    "codeOf ?h = codeOf ?g @ [(plain OP_CONSTANT)\<lparr>operand := 0\<rparr>, plain OP_POP]"
    using g by (simp_all add: numberStatement_compiled)
  have e: "endScope ?h = ?h\<lparr>m_scopeDepth := size_sub (m_scopeDepth ?h) 1\<rparr>"
    using h1(2) by (simp add: endScope_def endScope_loop_no_locals)
  have c: "IRGenerator_compile overflowProgram = emitByte OP_RETURN 0 (endScope ?h)"
    unfolding IRGenerator_compile_def using compile_loop_no_error [of overflowProgram ?start] h1(1) h
    by simp
  have "codeOf (IRGenerator_compile overflowProgram) ! 512 = (plain OP_CONSTANT)\<lparr>operand := 0\<rparr>"
    unfolding c e using h1(4) g(4) by (simp add: emitByte_def Chunk_write_def nth_append)
  moreover have "constants (m_chunk (IRGenerator_compile overflowProgram)) =
      map VNumber ?vs @ [VNumber 256]"
    unfolding c e using h1(3) by (simp add: emitByte_def Chunk_write_def)
  moreover have "\<not> m_hadError (IRGenerator_compile overflowProgram)"
    unfolding c e using h1(1) by simp
  ultimately show ?thesis
    by (simp add: nth_append plain_def)
qed

section \<open>The loop example\<close>

lemma whileProgram_compiled:
  "IRGenerator_compile whileProgram =
     \<lparr>m_chunk =
        \<lparr>code =
           [plain OP_CONSTANT, plain OP_GET_LOCAL, (plain OP_CONSTANT)\<lparr>operand := 1\<rparr>,
            plain OP_LESS, (plain OP_JUMP_IF_FALSE)\<lparr>operand := 8\<rparr>, plain OP_GET_LOCAL,
            plain OP_PRINT, plain OP_GET_LOCAL, (plain OP_CONSTANT)\<lparr>operand := 2\<rparr>,
            plain OP_ADD, plain OP_SET_LOCAL, plain OP_POP, (plain OP_LOOP)\<lparr>operand := 11\<rparr>,
            plain OP_POP, plain OP_RETURN],
         lines = [0, 0, 0, 0, 0, 0, 0, 0, 0, 0, 0, 0, 0, 0, 0],
         constants = [VNumber 0, VNumber 3, VNumber 1]\<rparr>,
      m_locals = [], m_scopeDepth = 0, m_hadError = False, m_error = []\<rparr>"
  by (simp add: whileProgram_def irgen_eval plain_def del: compileStmt.simps(2,4,5) compile_loop.simps(2))

text \<open>
  Whatever the machine and the operations on numbers, and on any fuel of two turns or
  more, the run of \<open>whileProgram\<close> ends at its second instruction.
\<close>

lemma while_program_fails_at_first_local_read:
  "\<not> m_hadError (IRGenerator_compile whileProgram)
   \<and> VM_interpret D (Suc (Suc n)) (m_chunk (IRGenerator_compile whileProgram)) vm =
       Finished RUNTIME_ERROR
         (vm\<lparr>m_stack := [VNumber 0], m_ip := 2,
              m_error_VM := ''Local variables not fully implemented.''\<rparr>)"
  by (simp add: whileProgram_compiled VM_interpret_def reset_def step_def readInstruction_def
      push_def runtimeError_def plain_def size_add_def)

text \<open>
  In the chunk of \<open>whileProgram\<close> the \<open>OP_JUMP_IF_FALSE\<close> (instruction 4) is followed by
  the first instruction of the body, and its target (instruction 13) is the pop of the
  local \<open>i\<close> emitted by \<^verbatim>\<open>endScope\<close>: \<^verbatim>\<open>compileWhileStmt\<close> emits no pop of the
  condition value on either path.
\<close>

lemma while_program_has_no_condition_pop:
  "map opcode (code (m_chunk (IRGenerator_compile whileProgram))) =
     [OP_CONSTANT, OP_GET_LOCAL, OP_CONSTANT, OP_LESS, OP_JUMP_IF_FALSE, OP_GET_LOCAL,
      OP_PRINT, OP_GET_LOCAL, OP_CONSTANT, OP_ADD, OP_SET_LOCAL, OP_POP, OP_LOOP, OP_POP,
      OP_RETURN]
   \<and> operand (code (m_chunk (IRGenerator_compile whileProgram)) ! 4) = 8"
  by (simp add: whileProgram_compiled plain_def)

text \<open>
  C6. The program \<^verbatim>\<open>let i = 0; while (i < 3) { print i; i = i + 1; }\<close> compiles,
  but interpreted on a fresh machine it does not print \<^verbatim>\<open>0\<close>, \<^verbatim>\<open>1\<close>,
  \<^verbatim>\<open>2\<close>: it prints nothing, and \<^verbatim>\<open>interpret\<close> returns \<open>RUNTIME_ERROR\<close> with the
  message \<^verbatim>\<open>Local variables not fully implemented.\<close> at the read of \<open>i\<close> in the loop
  condition, before any iteration.
\<close>

theorem while_program_prints_nothing:
  "\<not> m_hadError (IRGenerator_compile whileProgram)
   \<and> VM_interpret wholeOps 1000 (m_chunk (IRGenerator_compile whileProgram)) freshVM =
     Finished RUNTIME_ERROR
       \<lparr>m_stack = [VNumber 0], m_ip = 2,
        m_error_VM = ''Local variables not fully implemented.'', m_output = []\<rparr>"
  by (simp add: whileProgram_compiled vm_defs)

section \<open>Declaring a name twice\<close>

lemma declared_in_scope_iff:
  assumes "sorted (map depth ls)" and "\<forall>l \<in> set ls. depth l \<le> d"
  shows "declared_in_scope (rev ls) d n \<longleftrightarrow> (\<exists>l \<in> set ls. name l = n \<and> depth l = d)"
  using assms
proof (induction ls rule: rev_induct)
  case Nil
  show ?case by simp
next
  case (snoc x xs)
  have s: "sorted (map depth xs)" and le: "\<forall>l \<in> set xs. depth l \<le> depth x"
    using snoc.prems(1) by (auto simp: sorted_append)
  show ?case
  proof (cases "depth x = d")
    case True
    then show ?thesis using snoc.IH [OF s] snoc.prems(2) by auto
  next
    case False
    then have "depth x < d" using snoc.prems(2) by auto
    then have "\<forall>l \<in> set xs. depth l \<noteq> d" using le by auto
    then show ?thesis using False by auto
  qed
qed

lemma duplicateState_reached:
  "compileStmt (LetStmt (identifierToken ''x'') (Some (LiteralExpr (LitNumber 1))))
     (beginScope (beginScope IRGenerator_init)) = duplicateState"
  by (simp add: duplicateState_def irgen_eval plain_def del: compileStmt.simps(2,4,5))

lemma shadowState_reached:
  "beginScope (afterCondition (LiteralExpr (LitBool True))
     (compileStmt (LetStmt (identifierToken ''x'') (Some (LiteralExpr (LitNumber 1))))
        (beginScope IRGenerator_init))) = shadowState"
  by (simp add: shadowState_def irgen_eval plain_def del: compileStmt.simps(2,4,5))

text \<open>
  C8. In a generator whose locals are in scope order (their depths never decrease along
  the list and none is deeper than the current scope, as \<^verbatim>\<open>beginScope\<close>,
  \<^verbatim>\<open>endScope\<close> and \<^verbatim>\<open>declareVariable\<close> keep them) and whose scope depth is not 0:
  declaring a name that some local of the current depth has raises the error
  \<^verbatim>\<open>Variable 'n' already declared in this scope.\<close> and declares nothing; declaring any
  other name, also one that locals of other depths have, raises no error and appends the
  local at the current depth. The witness applies this inside the blocks of
  \<^verbatim>\<open>{ let x = 1; let x = 2; }\<close>, which fails to compile, and of
  \<^verbatim>\<open>let x = 1; if (true) { let x = 2; }\<close>, which compiles.
\<close>

theorem duplicate_declaration:
  assumes "sorted (map depth (m_locals g))"
    and "\<forall>l \<in> set (m_locals g). depth l \<le> m_scopeDepth g"
    and "m_scopeDepth g \<noteq> 0"
  shows "((\<exists>l \<in> set (m_locals g). name l = n \<and> depth l = m_scopeDepth g) \<longrightarrow>
            declareVariable n g =
              error (''Variable '' @ [CHR 0x27] @ n @ [CHR 0x27] @ '' already declared in this scope.'') g)
         \<and> (\<not> (\<exists>l \<in> set (m_locals g). name l = n \<and> depth l = m_scopeDepth g) \<longrightarrow>
            declareVariable n g =
              g\<lparr>m_locals := m_locals g @ [\<lparr>name = n, depth = m_scopeDepth g, isCaptured = False\<rparr>]\<rparr>)"
  using declared_in_scope_iff [OF assms(1,2), of n] assms(3)
  by (auto simp: declareVariable_def)

theorem duplicate_declaration_witness:
  "declareVariable ''x'' duplicateState =
     error (''Variable '' @ [CHR 0x27] @ ''x'' @ [CHR 0x27] @ '' already declared in this scope.'')
       duplicateState
   \<and> declareVariable ''x'' shadowState =
       shadowState\<lparr>m_locals := [\<lparr>name = ''x'', depth = 1, isCaptured = False\<rparr>,
                                 \<lparr>name = ''x'', depth = 2, isCaptured = False\<rparr>]\<rparr>
   \<and> m_hadError (IRGenerator_compile duplicateProgram)
   \<and> m_error (IRGenerator_compile duplicateProgram) =
       ''Variable '' @ [CHR 0x27] @ ''x'' @ [CHR 0x27] @ '' already declared in this scope.''
   \<and> \<not> m_hadError (IRGenerator_compile shadowProgram)"
proof -
  have "declareVariable ''x'' duplicateState =
     error (''Variable '' @ [CHR 0x27] @ ''x'' @ [CHR 0x27] @ '' already declared in this scope.'')
       duplicateState"
    using duplicate_declaration [of duplicateState "''x''"] by (simp add: duplicateState_def)
  moreover have "declareVariable ''x'' shadowState =
       shadowState\<lparr>m_locals := [\<lparr>name = ''x'', depth = 1, isCaptured = False\<rparr>,
                                 \<lparr>name = ''x'', depth = 2, isCaptured = False\<rparr>]\<rparr>"
    using duplicate_declaration [of shadowState "''x''"] by (simp add: shadowState_def)
  moreover have "m_hadError (IRGenerator_compile duplicateProgram)
      \<and> m_error (IRGenerator_compile duplicateProgram) =
       ''Variable '' @ [CHR 0x27] @ ''x'' @ [CHR 0x27] @ '' already declared in this scope.''"
    by (simp add: duplicateProgram_def irgen_eval del: compileStmt.simps(2,4,5) compile_loop.simps(2))
  moreover have "\<not> m_hadError (IRGenerator_compile shadowProgram)"
    by (simp add: shadowProgram_def irgen_eval del: compileStmt.simps(2,4,5) compile_loop.simps(2))
  ultimately show ?thesis by simp
qed

text \<open>
  The first two hypotheses of the theorem say that the locals are in scope order. Every
  step of the generator keeps them so.
\<close>

lemma frame_emitByte [simp]:
  "m_locals (emitByte op x g) = m_locals g" "m_scopeDepth (emitByte op x g) = m_scopeDepth g"
  by (simp_all add: emitByte_def)

lemma frame_error [simp]:
  "m_locals (error msg g) = m_locals g" "m_scopeDepth (error msg g) = m_scopeDepth g"
  by (simp_all add: error_def)

lemma frame_emitLoop [simp]:
  "m_locals (emitLoop s g) = m_locals g" "m_scopeDepth (emitLoop s g) = m_scopeDepth g"
  by (simp_all add: emitLoop_def Let_def)

lemma frame_emitBinaryOperator [simp]:
  "m_locals (emitBinaryOperator op g) = m_locals g"
  "m_scopeDepth (emitBinaryOperator op g) = m_scopeDepth g"
  by (simp_all add: emitBinaryOperator_def split: TokenType.splits)

lemma frame_emitUnaryOperator [simp]:
  "m_locals (emitUnaryOperator op g) = m_locals g"
  "m_scopeDepth (emitUnaryOperator op g) = m_scopeDepth g"
  by (simp_all add: emitUnaryOperator_def split: TokenType.splits)

lemma frame_compileLiteralExpr [simp]:
  "m_locals (compileLiteralExpr v g) = m_locals g"
  "m_scopeDepth (compileLiteralExpr v g) = m_scopeDepth g"
  by (simp_all add: compileLiteralExpr_def split: LiteralValue.splits)

lemma frame_compileVariableExpr [simp]:
  "m_locals (compileVariableExpr n g) = m_locals g"
  "m_scopeDepth (compileVariableExpr n g) = m_scopeDepth g"
  by (simp_all add: compileVariableExpr_def Let_def)

lemma frame_emitSetLocal [simp]:
  "m_locals (emitSetLocal n g) = m_locals g" "m_scopeDepth (emitSetLocal n g) = m_scopeDepth g"
  by (simp_all add: emitSetLocal_def Let_def)

lemma frame_compileExpr:
  "m_locals (compileExpr e g) = m_locals g \<and> m_scopeDepth (compileExpr e g) = m_scopeDepth g"
  "m_locals (compileArguments es g) = m_locals g
   \<and> m_scopeDepth (compileArguments es g) = m_scopeDepth g"
  by (induction e g and es g rule: compileExpr_compileArguments.induct) simp_all

lemma scopeOrdered_frame:
  "m_locals g' = m_locals g \<Longrightarrow> m_scopeDepth g' = m_scopeDepth g
   \<Longrightarrow> scopeOrdered g' = scopeOrdered g"
  by (simp add: scopeOrdered_def)

lemma scopeOrdered_declareVariable:
  "scopeOrdered g \<Longrightarrow> scopeOrdered (declareVariable n g)"
  "m_scopeDepth (declareVariable n g) = m_scopeDepth g"
  by (auto simp: scopeOrdered_def declareVariable_def sorted_append)

lemma scopeOrdered_markInitialized:
  "scopeOrdered g \<Longrightarrow> scopeOrdered (markInitialized g)"
  "m_scopeDepth (markInitialized g) = m_scopeDepth g"
proof -
  show "m_scopeDepth (markInitialized g) = m_scopeDepth g"
    by (simp add: markInitialized_def)
  assume o: "scopeOrdered g"
  show "scopeOrdered (markInitialized g)"
  proof (cases "m_locals g = []")
    case True
    then show ?thesis using o by (simp add: markInitialized_def)
  next
    case False
    then obtain bs x where ls: "m_locals g = bs @ [x]"
      by (cases "m_locals g" rule: rev_cases) auto
    show ?thesis
      using o by (auto simp: scopeOrdered_def markInitialized_def ls sorted_append)
  qed
qed

lemma sorted_le_last:
  assumes "sorted (map depth ls)" and "l \<in> set ls"
  shows "depth l \<le> depth (last ls)"
proof -
  obtain bs x where ls: "ls = bs @ [x]"
    using assms(2) by (cases ls rule: rev_cases) auto
  show ?thesis
    using assms by (auto simp: ls sorted_append)
qed

lemma scopeOrdered_endScope_loop:
  "sorted (map depth (m_locals g)) \<Longrightarrow>
   scopeOrdered (endScope_loop g) \<and> m_scopeDepth (endScope_loop g) = m_scopeDepth g"
proof (induction g rule: endScope_loop.induct)
  case (1 g)
  show ?case
  proof (cases "m_locals g \<noteq> [] \<and> depth (last (m_locals g)) > m_scopeDepth g")
    case True
    have "sorted (butlast (map depth (m_locals g)))"
      using "1.prems" True by (simp add: sorted_butlast)
    then have "sorted (map depth (butlast (m_locals g)))"
      by (simp add: map_butlast)
    then show ?thesis
      using "1.IH" True by (subst (1 2) endScope_loop.simps) (simp add: emitByte_def)
  next
    case False
    have "\<forall>l \<in> set (m_locals g). depth l \<le> m_scopeDepth g"
      using False sorted_le_last [OF "1.prems"] by fastforce
    then show ?thesis
      using False "1.prems" by (subst (1 2) endScope_loop.simps) (auto simp: scopeOrdered_def)
  qed
qed

lemma scopeOrdered_endScope:
  assumes "scopeOrdered g"
  shows "scopeOrdered (endScope g) \<and> m_scopeDepth (endScope g) = size_sub (m_scopeDepth g) 1"
proof -
  let ?g = "g\<lparr>m_scopeDepth := size_sub (m_scopeDepth g) 1\<rparr>"
  have "sorted (map depth (m_locals ?g))"
    using assms by (simp add: scopeOrdered_def)
  then have "scopeOrdered (endScope_loop ?g) \<and> m_scopeDepth (endScope_loop ?g) = m_scopeDepth ?g"
    by (rule scopeOrdered_endScope_loop)
  then show ?thesis
    by (simp add: endScope_def)
qed

lemma scopeOrdered_beginScope:
  "scopeOrdered g \<Longrightarrow> m_scopeDepth g + 1 < 2 ^ 64 \<Longrightarrow>
   scopeOrdered (beginScope g) \<and> m_scopeDepth (beginScope g) = m_scopeDepth g + 1"
  by (auto simp: scopeOrdered_def beginScope_def size_add_def)

lemma scopeOrdered_compileExpr:
  "scopeOrdered (compileExpr e g) = scopeOrdered g"
  "m_scopeDepth (compileExpr e g) = m_scopeDepth g"
  using frame_compileExpr(1) [of e g] by (simp_all add: scopeOrdered_def)

lemma scopeOrdered_steps [simp]:
  "scopeOrdered (emitByte op x g) = scopeOrdered g"
  "scopeOrdered (emitJump op g) = scopeOrdered g"
  "scopeOrdered (patchJump off g) = scopeOrdered g"
  "scopeOrdered (emitLoop k g) = scopeOrdered g"
  by (simp_all add: scopeOrdered_def)

lemma less_max_nat:
  fixes a b c n :: nat
  assumes "a + max b c < n"
  shows "a + b < n" and "a + c < n"
  using assms by simp_all

lemma scopeOrdered_compileStatements:
  assumes "\<And>s g. s \<in> set ss \<Longrightarrow>
      scopeOrdered g \<and> m_scopeDepth g + blockDepth s < 2 ^ 64 \<longrightarrow>
      scopeOrdered (compileStmt s g) \<and> m_scopeDepth (compileStmt s g) = m_scopeDepth g"
  shows "scopeOrdered g \<and> m_scopeDepth g + blockDepths ss < 2 ^ 64 \<longrightarrow>
      scopeOrdered (compileStatements ss g)
      \<and> m_scopeDepth (compileStatements ss g) = m_scopeDepth g"
  using assms
proof (induction ss arbitrary: g)
  case Nil
  show ?case by simp
next
  case (Cons a ss)
  show ?case
  proof
    assume h: "scopeOrdered g \<and> m_scopeDepth g + blockDepths (a # ss) < 2 ^ 64"
    then have "m_scopeDepth g + blockDepth a < 2 ^ 64"
      and r: "m_scopeDepth g + blockDepths ss < 2 ^ 64"
      using less_max_nat [of "m_scopeDepth g" "blockDepth a" "blockDepths ss" "2 ^ 64"]
      by simp_all
    then have a: "scopeOrdered (compileStmt a g) \<and> m_scopeDepth (compileStmt a g) = m_scopeDepth g"
      using Cons.prems [of a g] h by simp
    have "scopeOrdered (compileStmt a g) \<and> m_scopeDepth (compileStmt a g) + blockDepths ss < 2 ^ 64
        \<longrightarrow> scopeOrdered (compileStatements ss (compileStmt a g))
        \<and> m_scopeDepth (compileStatements ss (compileStmt a g)) = m_scopeDepth (compileStmt a g)"
      using Cons.prems by (intro Cons.IH) simp
    then show "scopeOrdered (compileStatements (a # ss) g)
        \<and> m_scopeDepth (compileStatements (a # ss) g) = m_scopeDepth g"
      using a r by simp
  qed
qed

text \<open>
  Lowering a statement keeps the locals in scope order and leaves the scope depth as it
  was, as long as the depth counter does not wrap around within the statement's blocks.
\<close>

lemma scopeOrdered_compileStmt:
  "scopeOrdered g \<and> m_scopeDepth g + blockDepth s < 2 ^ 64 \<longrightarrow>
   scopeOrdered (compileStmt s g) \<and> m_scopeDepth (compileStmt s g) = m_scopeDepth g"
proof (induction s g rule: Stmt_induct_all)
  case (Expression e g)
  show ?case by (simp add: scopeOrdered_compileExpr)
next
  case (Let nm i g)
  show ?case
    by (cases i)
       (simp_all add: Let_def scopeOrdered_compileExpr scopeOrdered_markInitialized
          scopeOrdered_declareVariable)
next
  case (Function nm ps b g)
  show ?case
    by (simp add: scopeOrdered_markInitialized scopeOrdered_declareVariable)
next
  case (If c t e g)
  show ?case
  proof
    assume h: "scopeOrdered g \<and> m_scopeDepth g + blockDepth (IfStmt c t e) < 2 ^ 64"
    define g1 where "g1 = emitJump OP_JUMP_IF_FALSE (compileExpr c g)"
    define g2 where "g2 = emitJump OP_JUMP (compileStmt t g1)"
    define g3 where "g3 = patchJump (size_sub (length (code (m_chunk g1))) 1) g2"
    define g4 where "g4 = (case e of Some s \<Rightarrow> compileStmt s g3 | None \<Rightarrow> g3)"
    have eq: "compileStmt (IfStmt c t e) g = patchJump (size_sub (length (code (m_chunk g2))) 1) g4"
      unfolding g1_def g2_def g3_def g4_def by (simp add: Let_def split: option.splits)
    have 1: "scopeOrdered g1 \<and> m_scopeDepth g1 = m_scopeDepth g"
      using h by (simp add: g1_def scopeOrdered_compileExpr)
    have d: "m_scopeDepth g + blockDepth t < 2 ^ 64"
      "m_scopeDepth g + (case e of Some s \<Rightarrow> blockDepth s | None \<Rightarrow> 0) < 2 ^ 64"
      using h less_max_nat [of "m_scopeDepth g" "blockDepth t"
          "case e of Some s \<Rightarrow> blockDepth s | None \<Rightarrow> 0" "2 ^ 64"]
      by simp_all
    have "m_scopeDepth g1 + blockDepth t < 2 ^ 64"
      using d(1) 1 by simp
    then have 2: "scopeOrdered g2 \<and> m_scopeDepth g2 = m_scopeDepth g"
      using If(1) [of g1] 1 by (simp add: g2_def)
    then have 3: "scopeOrdered g3 \<and> m_scopeDepth g3 = m_scopeDepth g"
      by (simp add: g3_def)
    have 4: "scopeOrdered g4 \<and> m_scopeDepth g4 = m_scopeDepth g"
    proof (cases e)
      case None
      then show ?thesis using 3 by (simp add: g4_def)
    next
      case (Some s)
      then have "m_scopeDepth g3 + blockDepth s < 2 ^ 64"
        using d(2) 3 by simp
      then show ?thesis
        using If(2) [OF Some, of g3] 3 Some by (simp add: g4_def)
    qed
    show "scopeOrdered (compileStmt (IfStmt c t e) g)
        \<and> m_scopeDepth (compileStmt (IfStmt c t e) g) = m_scopeDepth g"
      unfolding eq using 4 by simp
  qed
next
  case (While c b g)
  show ?case
  proof
    assume h: "scopeOrdered g \<and> m_scopeDepth g + blockDepth (WhileStmt c b) < 2 ^ 64"
    define g1 where "g1 = emitJump OP_JUMP_IF_FALSE (compileExpr c g)"
    define g2 where "g2 = emitLoop (length (code (m_chunk g))) (compileStmt b g1)"
    have eq: "compileStmt (WhileStmt c b) g = patchJump (size_sub (length (code (m_chunk g1))) 1) g2"
      by (simp add: Let_def g1_def g2_def)
    have 1: "scopeOrdered g1 \<and> m_scopeDepth g1 = m_scopeDepth g"
      using h by (simp add: g1_def scopeOrdered_compileExpr)
    have "m_scopeDepth g1 + blockDepth b < 2 ^ 64"
      using h 1 by simp
    then have 2: "scopeOrdered g2 \<and> m_scopeDepth g2 = m_scopeDepth g"
      using While [of g1] 1 by (simp add: g2_def)
    show "scopeOrdered (compileStmt (WhileStmt c b) g)
        \<and> m_scopeDepth (compileStmt (WhileStmt c b) g) = m_scopeDepth g"
      unfolding eq using 2 by simp
  qed
next
  case (Return k v g)
  show ?case by (cases v) (simp_all add: scopeOrdered_compileExpr)
next
  case (Print e g)
  show ?case by (simp add: scopeOrdered_compileExpr)
next
  case (Block ss g)
  show ?case
  proof
    assume h: "scopeOrdered g \<and> m_scopeDepth g + blockDepth (BlockStmt ss) < 2 ^ 64"
    then have b: "scopeOrdered (beginScope g) \<and> m_scopeDepth (beginScope g) = m_scopeDepth g + 1"
      by (intro scopeOrdered_beginScope) simp_all
    then have "scopeOrdered (beginScope g) \<and> m_scopeDepth (beginScope g) + blockDepths ss < 2 ^ 64"
      using h by simp
    then have c: "scopeOrdered (compileStatements ss (beginScope g))
        \<and> m_scopeDepth (compileStatements ss (beginScope g)) = m_scopeDepth g + 1"
      using scopeOrdered_compileStatements [OF Block, of ss "beginScope g"] b by simp
    have "size_sub (m_scopeDepth g + 1) 1 = m_scopeDepth g"
      by (simp add: size_sub_def)
    then show "scopeOrdered (compileStmt (BlockStmt ss) g)
        \<and> m_scopeDepth (compileStmt (BlockStmt ss) g) = m_scopeDepth g"
      using scopeOrdered_endScope [of "compileStatements ss (beginScope g)"] c by simp
  qed
qed

text \<open>
  \<^verbatim>\<open>compile\<close> starts in scope order, at depth 1, so every top-level statement is
  lowered from a generator in scope order.
\<close>

lemma scopeOrdered_start:
  "scopeOrdered (beginScope IRGenerator_init :: 'n IRGenerator)
   \<and> m_scopeDepth (beginScope IRGenerator_init :: 'n IRGenerator) = 1"
  by (simp add: scopeOrdered_def beginScope_def IRGenerator_init_def size_add_def)

lemma scopeOrdered_compileStatements_all:
  "scopeOrdered g \<and> m_scopeDepth g + blockDepths ss < 2 ^ 64 \<longrightarrow>
   scopeOrdered (compileStatements ss g) \<and> m_scopeDepth (compileStatements ss g) = m_scopeDepth g"
  by (rule scopeOrdered_compileStatements) (rule scopeOrdered_compileStmt)

lemma scopeOrdered_top_level:
  fixes ss :: "'a Stmt list"
  assumes "1 + blockDepths ss < 2 ^ 64"
  shows "scopeOrdered (compileStatements ss (beginScope IRGenerator_init))
         \<and> m_scopeDepth (compileStatements ss (beginScope IRGenerator_init)) = 1"
  using scopeOrdered_compileStatements_all [of "beginScope IRGenerator_init" ss]
    scopeOrdered_start [where ?'n = 'a] assms
  by simp

section \<open>Lexer errors never reach the compiler\<close>

lemma lexer_moves_refl [simp]: "lexer_moves L L"
  by (simp add: lexer_moves_def)

lemma lexer_moves_trans: "lexer_moves L L' \<Longrightarrow> lexer_moves L' L'' \<Longrightarrow> lexer_moves L L''"
  by (simp add: lexer_moves_def)

lemma lexer_moves_advance: "lexer_moves L (snd (lexer_advance L))"
  by (simp add: lexer_moves_def lexer_advance_def)

lemma lexer_moves_line [simp]:
  "lexer_moves (L\<lparr>m_line := a, m_column := b\<rparr>) L' = lexer_moves L L'"
  by (simp add: lexer_moves_def)

lemma lexer_moves_match: "lexer_moves L (snd (lexer_match c L))"
  by (simp add: lexer_moves_def lexer_match_def)

lemma lexer_moves_skipWhitespace: "lexer_moves L (skipWhitespace L)"
proof (induction L rule: skipWhitespace.induct)
  case (1 L)
  show ?case
    using 1 lexer_moves_advance [of L]
      lexer_moves_advance [of "L\<lparr>m_line := m_line L + 1, m_column := 1\<rparr>"]
    by (subst skipWhitespace.simps) (auto simp: Let_def intro: lexer_moves_trans)
qed

lemma lexer_moves_skipComment_loop: "lexer_moves L (skipComment_loop L)"
proof (induction L rule: skipComment_loop.induct)
  case (1 L)
  show ?case
    using 1 lexer_moves_advance [of L]
    by (subst skipComment_loop.simps) (auto intro: lexer_moves_trans)
qed

lemma lexer_moves_skipComment: "lexer_moves L (skipComment L)"
  by (simp add: skipComment_def lexer_moves_skipComment_loop)

lemma lexer_moves_scanIdentifier_loop: "lexer_moves L (scanIdentifier_loop L)"
proof (induction L rule: scanIdentifier_loop.induct)
  case (1 L)
  show ?case
    using 1 lexer_moves_advance [of L]
    by (subst scanIdentifier_loop.simps) (auto intro: lexer_moves_trans)
qed

lemma lexer_moves_scanDigits: "lexer_moves L (scanDigits L)"
proof (induction L rule: scanDigits.induct)
  case (1 L)
  show ?case
    using 1 lexer_moves_advance [of L]
    by (subst scanDigits.simps) (auto intro: lexer_moves_trans)
qed

lemma lexer_moves_scanString_loop: "lexer_moves L (snd (scanString_loop v L))"
proof (induction v L rule: scanString_loop.induct)
  case (1 v L)
  show ?case
    using 1 lexer_moves_advance [of L]
      lexer_moves_advance [of "L\<lparr>m_line := m_line L + 1, m_column := 1\<rparr>"]
    by (subst scanString_loop.simps) (auto simp: Let_def intro: lexer_moves_trans)
qed

lemma lexer_moves_scanIdentifier: "lexer_moves L (snd (scanIdentifier L))"
  by (simp add: scanIdentifier_def Let_def lexer_moves_scanIdentifier_loop split: option.splits)

lemma lexer_moves_scanNumber: "lexer_moves L (snd (scanNumber D L))"
  using lexer_moves_scanDigits [of L] lexer_moves_advance [of "scanDigits L"]
    lexer_moves_scanDigits [of "snd (lexer_advance (scanDigits L))"]
  by (auto simp: scanNumber_def Let_def intro: lexer_moves_trans)

lemma lexer_moves_scanString: "lexer_moves L (snd (scanString L))"
  using lexer_moves_scanString_loop [of L "[]"]
    lexer_moves_advance [of "snd (scanString_loop [] L)"]
  by (auto simp: scanString_def Let_def split: prod.splits intro: lexer_moves_trans)

lemma lexer_moves_start [simp]:
  "lexer_moves (L\<lparr>m_start := a\<rparr>) L' = lexer_moves L L'"
  "lexer_moves L (L'\<lparr>m_start := a\<rparr>) = lexer_moves L L'"
  by (simp_all add: lexer_moves_def)

lemma lexer_moves_skips:
  "lexer_moves L (skipWhitespace (skipComment (skipWhitespace L)))"
  using lexer_moves_skipWhitespace [of L] lexer_moves_skipComment [of "skipWhitespace L"]
    lexer_moves_skipWhitespace [of "skipComment (skipWhitespace L)"]
  by (blast intro: lexer_moves_trans)

lemma lexer_moves_after_advance:
  assumes "lexer_moves L0 L2" and "lexer_moves (snd (lexer_advance L2)) L'"
  shows "lexer_moves L0 L' \<and> m_current L0 < m_current L'"
  using assms by (auto simp: lexer_moves_def lexer_advance_def)

text \<open>
  A call of \<^verbatim>\<open>scanToken\<close> changes neither the source nor the token list, and when it
  starts before the end of the source it moves the cursor forward.
\<close>

lemma scanToken_moves:
  "lexer_moves L (snd (scanToken D L))
   \<and> (\<not> lexer_isAtEnd L \<longrightarrow> m_current L < m_current (snd (scanToken D L)))"
proof -
  define L2 where
    "L2 = (skipWhitespace (skipComment (skipWhitespace L)))
            \<lparr>m_start := m_current (skipWhitespace (skipComment (skipWhitespace L)))\<rparr>"
  have m2: "lexer_moves L L2"
    using lexer_moves_skips [of L] by (simp add: L2_def)
  show ?thesis
  proof (cases "lexer_isAtEnd L2")
    case True
    then have "snd (scanToken D L) = L2"
      by (simp add: scanToken_def Let_def L2_def)
    then show ?thesis
      using m2 True by (auto simp: lexer_moves_def lexer_isAtEnd_def)
  next
    case False
    define A where "A = snd (lexer_advance L2)"
    have "lexer_moves A (snd (scanToken D L))"
      using False lexer_moves_scanIdentifier [of A] lexer_moves_scanNumber [of A D]
        lexer_moves_scanString [of A] lexer_moves_match [of A "CHR ''=''"]
      unfolding scanToken_def Let_def L2_def [symmetric]
      by (simp add: case_prod_unfold if_distrib [of snd] A_def [symmetric])
    then show ?thesis
      using lexer_moves_after_advance [OF m2, of "snd (scanToken D L)"] by (simp add: A_def)
  qed
qed

lemma scanToken_turn:
  assumes "\<not> lexer_isAtEnd L"
    and "scanToken D (L\<lparr>m_start := m_current L\<rparr>) = (token, L1)"
  shows "m_source L1 = m_source L" and "m_tokens L1 = m_tokens L"
    and "m_current L < m_current L1"
  using assms scanToken_moves [of "L\<lparr>m_start := m_current L\<rparr>" D]
  by (simp_all add: lexer_moves_def lexer_isAtEnd_def)

text \<open>
  The loop of \<^verbatim>\<open>tokenize\<close> ends within as many turns as there are characters left,
  so \<open>tokenize\<close> returns a token list for every source.
\<close>

lemma tokenize_loop_total:
  "length (m_source L) - m_current L \<le> k \<Longrightarrow> \<exists>L'. tokenize_loop D k L = Some L'"
proof (induction k arbitrary: L)
  case 0
  then show ?case by (simp add: lexer_isAtEnd_def)
next
  case (Suc k)
  show ?case
  proof (cases "lexer_isAtEnd L")
    case True
    then show ?thesis by simp
  next
    case False
    obtain token L1 where s: "scanToken D (L\<lparr>m_start := m_current L\<rparr>) = (token, L1)"
      by (cases "scanToken D (L\<lparr>m_start := m_current L\<rparr>)")
    have "length (m_source L1) - m_current L1 \<le> k"
      using scanToken_turn(1,3) [OF False s] Suc.prems False
      by (simp add: lexer_isAtEnd_def)
    then have
      "\<exists>L'. tokenize_loop D k (L1\<lparr>m_tokens := m_tokens L1 @ [token]\<rparr>) = Some L'"
      "\<exists>L'. tokenize_loop D k L1 = Some L'"
      using Suc.IH [of L1] Suc.IH [of "L1\<lparr>m_tokens := m_tokens L1 @ [token]\<rparr>"] by simp_all
    then show ?thesis
      using False s by simp
  qed
qed

lemma tokenize_total: "\<exists>ts. tokenize D source = Some ts"
  using tokenize_loop_total [of "Lexer_init source" "length source" D]
  by (auto simp: tokenize_def Lexer_init_def)

text \<open>No token of type \<open>ERROR\<close> is ever in the list that \<^verbatim>\<open>tokenize\<close> returns.\<close>

lemma tokenize_loop_no_error:
  "tokenize_loop D k L = Some L' \<Longrightarrow> ERROR \<notin> type ` set (m_tokens L)
   \<Longrightarrow> ERROR \<notin> type ` set (m_tokens L')"
proof (induction k arbitrary: L)
  case 0
  then show ?case by (simp split: if_splits)
next
  case (Suc k)
  show ?case
  proof (cases "lexer_isAtEnd L")
    case True
    then show ?thesis using Suc.prems by simp
  next
    case False
    obtain token L1 where s: "scanToken D (L\<lparr>m_start := m_current L\<rparr>) = (token, L1)"
      by (cases "scanToken D (L\<lparr>m_start := m_current L\<rparr>)")
    have t: "m_tokens L1 = m_tokens L"
      by (rule scanToken_turn(2) [OF False s])
    show ?thesis
    proof (cases "type token = ERROR")
      case True
      then have "tokenize_loop D k L1 = Some L'"
        using Suc.prems(1) False s by simp
      then show ?thesis
        using Suc.IH [of L1] Suc.prems(2) t by simp
    next
      case ok: False
      then have "tokenize_loop D k (L1\<lparr>m_tokens := m_tokens L1 @ [token]\<rparr>) = Some L'"
        using Suc.prems(1) False s by simp
      then show ?thesis
        using Suc.IH [of "L1\<lparr>m_tokens := m_tokens L1 @ [token]\<rparr>"] Suc.prems(2) t ok
        by simp
    qed
  qed
qed

lemma tokenize_no_error: "tokenize D source = Some ts \<Longrightarrow> ERROR \<notin> type ` set ts"
  using tokenize_loop_no_error [of D "length source" "Lexer_init source"]
  by (auto simp: tokenize_def Lexer_init_def makeToken_def split: option.splits)

lemma find_no_error:
  "ERROR \<notin> type ` set ts \<Longrightarrow> find (\<lambda>token. type token = ERROR) ts = None"
  by (induction ts) auto

text \<open>
  So the test for a token of type \<open>ERROR\<close> in \<^verbatim>\<open>Compiler::compile\<close> never succeeds:
  for every source the tokens go to the parser, and the result is the lowering of what the
  parser returns.
\<close>

lemma compile_passes_lexer_check:
  "\<exists>ts. tokenize D source = Some ts
     \<and> Compiler_compile D fuel source = map_option Compiler_lower (Parser_parse fuel D ts)"
proof -
  obtain ts where ts: "tokenize D source = Some ts"
    using tokenize_total [of D source] by blast
  have "find (\<lambda>token. type token = ERROR) ts = None"
    using tokenize_no_error [OF ts] by (rule find_no_error)
  then show ?thesis
    using ts by (auto simp: Compiler_compile_def split: option.splits)
qed

text \<open>
  Two sources with a lexical error: \<^verbatim>\<open>@ print true;\<close>, which starts with a character
  that no token starts with, and \<^verbatim>\<open>print true; "abc\<close>, which ends in an unterminated
  string.
\<close>

lemma scanToken_unexpected_character:
  "fst (scanToken wholeOps (Lexer_init ''@ print true;'')) =
     \<lparr>type = ERROR, lexeme = ''Unexpected character: @'', line = 1, column = 2,
      literal = NoLiteral\<rparr>"
  by code_simp

lemma tokenize_error_then_print:
  "tokenize wholeOps ''@ print true;'' =
   Some [\<lparr>type = PRINT, lexeme = ''print'', line = 1, column = 8, literal = NoLiteral\<rparr>,
         \<lparr>type = TRUE, lexeme = ''true'', line = 1, column = 13, literal = NoLiteral\<rparr>,
         \<lparr>type = SEMICOLON, lexeme = '';'', line = 1, column = 14, literal = NoLiteral\<rparr>,
         \<lparr>type = EOF_TOKEN, lexeme = '';'', line = 1, column = 14, literal = NoLiteral\<rparr>]"
  by code_simp

lemma tokenize_print_then_unterminated:
  "tokenize wholeOps (''print true; '' @ [CHR 0x22] @ ''abc'') =
   Some [\<lparr>type = PRINT, lexeme = ''print'', line = 1, column = 6, literal = NoLiteral\<rparr>,
         \<lparr>type = TRUE, lexeme = ''true'', line = 1, column = 11, literal = NoLiteral\<rparr>,
         \<lparr>type = SEMICOLON, lexeme = '';'', line = 1, column = 12, literal = NoLiteral\<rparr>,
         \<lparr>type = EOF_TOKEN, lexeme = [CHR 0x22] @ ''abc'', line = 1, column = 17,
            literal = NoLiteral\<rparr>]"
  by code_simp

lemma parse_print_true:
  "Parser_parse 20 wholeOps
     [\<lparr>type = PRINT, lexeme = l1, line = n1, column = c1, literal = NoLiteral\<rparr>,
      \<lparr>type = TRUE, lexeme = l2, line = n2, column = c2, literal = NoLiteral\<rparr>,
      \<lparr>type = SEMICOLON, lexeme = l3, line = n3, column = c3, literal = NoLiteral\<rparr>,
      \<lparr>type = EOF_TOKEN, lexeme = l4, line = n4, column = c4, literal = NoLiteral\<rparr>]
    = Some printProgram"
  by code_simp

lemma lower_printProgram:
  "Compiler_lower printProgram =
     (\<lparr>code = [plain OP_TRUE, plain OP_PRINT, plain OP_RETURN], lines = [0, 0, 0],
       constants = []\<rparr>, [])"
  by (simp add: Compiler_lower_def printProgram_def irgen_defs plain_def)

text \<open>
  C3. A lexical error does not stop \<^verbatim>\<open>Compiler::compile\<close>. On the source
  \<^verbatim>\<open>@ print true;\<close> the first call of \<^verbatim>\<open>scanToken\<close> returns a token of type
  \<open>ERROR\<close>, but \<^verbatim>\<open>tokenize\<close> leaves it out of its list; \<^verbatim>\<open>compile\<close> finds no
  such token, runs the parser on the remaining tokens and returns the chunk of
  \<^verbatim>\<open>print true;\<close> with no message. The same happens on \<^verbatim>\<open>print true; "abc\<close>.
\<close>

theorem lexer_error_does_not_stop_compile:
  "fst (scanToken wholeOps (Lexer_init ''@ print true;'')) =
     \<lparr>type = ERROR, lexeme = ''Unexpected character: @'', line = 1, column = 2,
      literal = NoLiteral\<rparr>
   \<and> tokenize wholeOps ''@ print true;'' =
     Some [\<lparr>type = PRINT, lexeme = ''print'', line = 1, column = 8, literal = NoLiteral\<rparr>,
           \<lparr>type = TRUE, lexeme = ''true'', line = 1, column = 13, literal = NoLiteral\<rparr>,
           \<lparr>type = SEMICOLON, lexeme = '';'', line = 1, column = 14, literal = NoLiteral\<rparr>,
           \<lparr>type = EOF_TOKEN, lexeme = '';'', line = 1, column = 14, literal = NoLiteral\<rparr>]
   \<and> Compiler_compile wholeOps 20 ''@ print true;'' =
     Some (\<lparr>code = [plain OP_TRUE, plain OP_PRINT, plain OP_RETURN], lines = [0, 0, 0],
             constants = []\<rparr>, [])
   \<and> Compiler_compile wholeOps 20 (''print true; '' @ [CHR 0x22] @ ''abc'') =
     Some (\<lparr>code = [plain OP_TRUE, plain OP_PRINT, plain OP_RETURN], lines = [0, 0, 0],
             constants = []\<rparr>, [])"
  by (simp add: Compiler_compile_def scanToken_unexpected_character
      tokenize_error_then_print tokenize_print_then_unterminated
      parse_print_true lower_printProgram del: append.simps)

section \<open>The repository's test of the while loop\<close>

lemma Compiler_compile_bind:
  "Compiler_compile D fuel source =
     map_option Compiler_lower (Option.bind (tokenize D source) (Parser_parse fuel D))"
  using compile_passes_lexer_check [of D source fuel] by auto

lemma testWhileLoop_parse:
  "Option.bind (tokenize wholeOps testWhileLoop) (Parser_parse 50 wholeOps) =
     Some testWhileLoop_parsed"
  by code_simp

lemma testWhileLoop_lower:
  "Compiler_lower testWhileLoop_parsed = (m_chunk (IRGenerator_compile whileProgram), [])"
  by (simp add: Compiler_lower_def whileProgram_compiled)
     (simp add: testWhileLoop_parsed_def irgen_eval plain_def
        del: compileStmt.simps(2,4,5) compile_loop.simps(2))

text \<open>
  \<^verbatim>\<open>testWhileLoop\<close> runs its source on a new compiler and reports a failure when
  \<^verbatim>\<open>hadError()\<close> holds afterwards. It does: \<^verbatim>\<open>run\<close> returns \<open>RUNTIME_ERROR\<close>, the
  compiler's message is that of the machine, and nothing has been printed.
\<close>

lemma testWhileLoop_fails:
  "Compiler_run wholeOps 50 testWhileLoop freshVM =
     Some (RUNTIME_ERROR, ''Local variables not fully implemented.'',
           \<lparr>m_stack = [VNumber 0], m_ip = 2,
            m_error_VM = ''Local variables not fully implemented.'', m_output = []\<rparr>)"
  by (simp add: Compiler_run_def Compiler_compile_bind testWhileLoop_parse testWhileLoop_lower)
     (simp add: whileProgram_compiled vm_defs)

end
